theory Spec2Isabelle
  imports Complex_Main "HOL-Library.Log_Nat" "HOL-Library.Multiset"
begin

section \<open>JavaScript numbers\<close>

text \<open>
  A JavaScript \<^verbatim>\<open>number\<close> is an IEEE-754 binary64 value. The consensus code adds
  confidences, divides the total by a count and compares with \<^verbatim>\<open>0.7\<close>, so rounding is
  part of what it computes. A finite double is kept as the rational it denotes; the two
  zeros are identified (their sign is never observed by this code).
\<close>

datatype number = Finite rat | PosInf | NegInf | NaN

text \<open>\<open>ilog2 a\<close> is the binary exponent of a positive rational: \<open>2^e \<le> a < 2^(e+1)\<close>.\<close>

definition ilog2 :: "rat \<Rightarrow> int" where
  "ilog2 a = (if 1 \<le> a then bitlen \<lfloor>a\<rfloor> - 1 else - bitlen (\<lceil>1 / a\<rceil> - 1))"

definition round_half_even :: "rat \<Rightarrow> int" where
  "round_half_even q =
     (let f = \<lfloor>q\<rfloor>; d = q - of_int f
      in if d < 1 / 2 then f else if 1 / 2 < d then f + 1 else if even f then f else f + 1)"

text \<open>
  Round to nearest, ties to even, with 53 significant bits, exponents from \<open>-1022\<close>
  (below that the spacing stays \<open>2^-1074\<close>: subnormals) and overflow to infinity from
  \<open>2^1024\<close>.
\<close>

definition round_double :: "rat \<Rightarrow> number" where
  "round_double x =
     (if x = 0 then Finite 0
      else let a = \<bar>x\<bar>;
               e = max (ilog2 a) (- 1022);
               ulp = 2 powi (e - 52);
               r = of_int (round_half_even (a / ulp)) * ulp
           in if 2 powi 1024 \<le> r then (if 0 < x then PosInf else NegInf)
              else Finite (if 0 < x then r else - r))"

text \<open>The operator \<^verbatim>\<open>+\<close> on numbers.\<close>

fun num_add :: "number \<Rightarrow> number \<Rightarrow> number" where
  "num_add NaN _ = NaN"
| "num_add _ NaN = NaN"
| "num_add PosInf NegInf = NaN"
| "num_add NegInf PosInf = NaN"
| "num_add PosInf _ = PosInf"
| "num_add _ PosInf = PosInf"
| "num_add NegInf _ = NegInf"
| "num_add _ NegInf = NegInf"
| "num_add (Finite x) (Finite y) = round_double (x + y)"

text \<open>The operator \<^verbatim>\<open>/\<close> on numbers (a zero divisor counts as \<open>+0\<close>).\<close>

fun num_div :: "number \<Rightarrow> number \<Rightarrow> number" where
  "num_div NaN _ = NaN"
| "num_div _ NaN = NaN"
| "num_div (Finite x) (Finite y) =
     (if y = 0 then (if x = 0 then NaN else if 0 < x then PosInf else NegInf)
      else round_double (x / y))"
| "num_div (Finite x) _ = Finite 0"
| "num_div PosInf (Finite y) = (if 0 \<le> y then PosInf else NegInf)"
| "num_div NegInf (Finite y) = (if 0 \<le> y then NegInf else PosInf)"
| "num_div _ _ = NaN"

text \<open>The comparison \<^verbatim>\<open><=\<close>; every comparison with NaN is false.\<close>

fun num_le :: "number \<Rightarrow> number \<Rightarrow> bool" where
  "num_le NaN _ = False"
| "num_le _ NaN = False"
| "num_le NegInf _ = True"
| "num_le _ PosInf = True"
| "num_le (Finite x) (Finite y) = (x \<le> y)"
| "num_le _ _ = False"

definition num_ge :: "number \<Rightarrow> number \<Rightarrow> bool" where
  "num_ge a b = num_le b a"

fun Math_min :: "number \<Rightarrow> number \<Rightarrow> number" where
  "Math_min NaN _ = NaN"
| "Math_min _ NaN = NaN"
| "Math_min a b = (if num_le a b then a else b)"

fun Math_max :: "number \<Rightarrow> number \<Rightarrow> number" where
  "Math_max NaN _ = NaN"
| "Math_max _ NaN = NaN"
| "Math_max a b = (if num_le a b then b else a)"

text \<open>An array length or a counter as a number (exact below \<open>2^53\<close>).\<close>

definition of_count :: "nat \<Rightarrow> number" where
  "of_count n = Finite (of_nat n)"

section \<open>Thrown errors, JSON values\<close>

datatype js_error = Error string | SyntaxError string | TypeError string

fun message :: "js_error \<Rightarrow> string" where
  "message (Error m) = m"
| "message (SyntaxError m) = m"
| "message (TypeError m) = m"

text \<open>
  A value produced by \<^verbatim>\<open>JSON.parse\<close>. A number carries the exact value of its
  literal; reading it as a JavaScript number rounds it (\<open>round_double\<close>), so a parsed
  number is never NaN. \<^verbatim>\<open>JSON.parse\<close> itself belongs to the runtime, not to this
  repository: the functions below take it as the parameter \<open>parse\<close>, which returns
  the message of the \<^verbatim>\<open>SyntaxError\<close> it throws, or the value.
\<close>

datatype json =
    JNull
  | JBool bool
  | JNumber rat
  | JString string
  | JArray "json list"
  | JObject "(string \<times> json) list"

type_synonym json_parse = "string \<Rightarrow> string + json"

text \<open>
  Property access \<^verbatim>\<open>parsed.key\<close>: \<open>None\<close> is \<^verbatim>\<open>undefined\<close>. Reading
  a property of \<^verbatim>\<open>null\<close> throws; a later binding of a repeated key wins.
\<close>

fun get_prop :: "json \<Rightarrow> string \<Rightarrow> js_error + json option" where
  "get_prop JNull k = Inl (TypeError ''Cannot read properties of null'')"
| "get_prop (JObject kvs) k = Inr (map_of (rev kvs) k)"
| "get_prop _ k = Inr None"

section \<open>Extracting the JSON text: the regular expression\<close>

text \<open>
  \<^verbatim>\<open>text.match(/\{[\s\S]*\}/)\<close>: the engine tries each start position from the left;
  at a position holding an opening brace, \<^verbatim>\<open>[\s\S]*\<close> first takes every remaining
  character and gives characters back until a closing brace follows.
  \<open>greedy_close cs\<close> is that second part on the text after the opening brace:
  the longest prefix of \<open>cs\<close> that ends with a closing brace. A character stands
  for a UTF-16 code unit; the expression tells only the two braces from the rest.
\<close>

fun greedy_close :: "string \<Rightarrow> string option" where
  "greedy_close [] = None"
| "greedy_close (c # cs) =
     (case greedy_close cs of
        Some m \<Rightarrow> Some (c # m)
      | None \<Rightarrow> if c = CHR ''}'' then Some [c] else None)"

fun jsonMatch :: "string \<Rightarrow> string option" where
  "jsonMatch [] = None"
| "jsonMatch (c # cs) =
     (if c = CHR ''{'' then
        (case greedy_close cs of Some m \<Rightarrow> Some (c # m) | None \<Rightarrow> jsonMatch cs)
      else jsonMatch cs)"

section \<open>The HTTP service: \<^verbatim>\<open>src/api/oracle.ts\<close>\<close>

record OracleResponse =
  optionATrue :: bool
  optionBTrue :: bool
  confidence :: number
  reasoning :: string

text \<open>\<^verbatim>\<open>parseOracleResponse\<close>, lines 150 to 176.\<close>

definition parseOracleResponse :: "json_parse \<Rightarrow> string \<Rightarrow> js_error + OracleResponse" where
  "parseOracleResponse parse text =
     (case jsonMatch text of
        None \<Rightarrow> Inl (Error ''No JSON found in response'')
      | Some m \<Rightarrow>
         (case parse m of
            Inl msg \<Rightarrow> Inl (SyntaxError msg)
          | Inr parsed \<Rightarrow>
             (case get_prop parsed ''optionATrue'' of
                Inl e \<Rightarrow> Inl e
              | Inr (Some (JBool a)) \<Rightarrow>
                 (case get_prop parsed ''optionBTrue'' of
                    Inl e \<Rightarrow> Inl e
                  | Inr (Some (JBool b)) \<Rightarrow>
                     (case get_prop parsed ''confidence'' of
                        Inl e \<Rightarrow> Inl e
                      | Inr (Some (JNumber c)) \<Rightarrow>
                         (case get_prop parsed ''reasoning'' of
                            Inl e \<Rightarrow> Inl e
                          | Inr (Some (JString r)) \<Rightarrow>
                             Inr \<lparr>optionATrue = a, optionBTrue = b,
                                  confidence =
                                    Math_max (Finite 0) (Math_min (Finite 1) (round_double c)),
                                  reasoning = r\<rparr>
                          | Inr _ \<Rightarrow> Inl (Error ''Invalid response structure''))
                      | Inr _ \<Rightarrow> Inl (Error ''Invalid response structure''))
                  | Inr _ \<Rightarrow> Inl (Error ''Invalid response structure''))
              | Inr _ \<Rightarrow> Inl (Error ''Invalid response structure''))))"


text \<open>
  \<^verbatim>\<open>callLLMProvider\<close>, lines 64 to 148. The request leaves the program, so what the
  network does with one call is an input of the model: a step of lines 121 to 145 throws
  (\<^verbatim>\<open>fetch\<close> rejects, the body is not JSON, the reply is \<^verbatim>\<open>null\<close>), the status
  is not ok, or the assistant's text is extracted (the empty string when the reply has
  none). The text is a string, as the return type says.
\<close>

record providerConfig =
  cfg_provider :: string
  cfg_model :: string
  cfg_apiKey :: string

datatype fetched =
    Thrown js_error
  | NotOk string string
  | Content string

definition callLLMProvider_api :: "providerConfig \<Rightarrow> fetched \<Rightarrow> js_error + string" where
  "callLLMProvider_api c reply =
     (if cfg_provider c \<notin> {''openai'', ''deepseek'', ''gemini''}
      then Inl (Error (''Unsupported provider: '' @ cfg_provider c))
      else case reply of
             Thrown e \<Rightarrow> Inl e
           | NotOk status statusText \<Rightarrow>
               Inl (Error (cfg_provider c @ '' API error: '' @ status @ '' '' @ statusText))
           | Content t \<Rightarrow> Inr t)"

text \<open>One element of \<^verbatim>\<open>responses\<close>: \<^verbatim>\<open>{ provider, response, error? }\<close>.\<close>

record response_entry =
  entry_provider :: string
  entry_response :: OracleResponse
  entry_error :: "string option"

text \<open>The body of the loop of lines 256 to 287, with its \<^verbatim>\<open>try\<close>/\<^verbatim>\<open>catch\<close>.\<close>

definition attempt :: "json_parse \<Rightarrow> providerConfig \<times> fetched \<Rightarrow> response_entry" where
  "attempt parse pc =
     (let failed = (\<lambda>e. \<lparr>entry_provider = cfg_provider (fst pc),
                           entry_response = \<lparr>optionATrue = False, optionBTrue = False,
                                             confidence = Finite 0,
                                             reasoning = ''Provider error''\<rparr>,
                           entry_error = Some (message e)\<rparr>)
      in case callLLMProvider_api (fst pc) (snd pc) of
           Inl e \<Rightarrow> failed e
         | Inr rawResponse \<Rightarrow>
            (case parseOracleResponse parse rawResponse of
               Inl e \<Rightarrow> failed e
             | Inr oracleResponse \<Rightarrow>
                \<lparr>entry_provider = cfg_provider (fst pc),
                 entry_response = oracleResponse,
                 entry_error = None\<rparr>))"

text \<open>
  The filter of line 290: \<^verbatim>\<open>!r.error && r.response.confidence >= 0.7\<close>. An absent
  \<^verbatim>\<open>error\<close> and the empty string are both falsy.
\<close>

definition valid_entry :: "response_entry \<Rightarrow> bool" where
  "valid_entry r \<longleftrightarrow>
     (entry_error r = None \<or> entry_error r = Some [])
     \<and> num_ge (confidence (entry_response r)) (round_double (7 / 10))"

text \<open>The accumulators of the tally loop, and the loop of lines 304 to 313.\<close>

record tally =
  optionAVotes :: nat
  optionBVotes :: nat
  totalConfidence :: number
  reasonings :: "string list"

definition tally_init :: tally where
  "tally_init = \<lparr>optionAVotes = 0, optionBVotes = 0, totalConfidence = Finite 0, reasonings = []\<rparr>"

definition api_step :: "tally \<Rightarrow> response_entry \<Rightarrow> tally" where
  "api_step s e =
     (let response = entry_response e;
          s1 = (if optionATrue response \<and> \<not> optionBTrue response
                then s\<lparr>optionAVotes := optionAVotes s + 1\<rparr>
                else if optionBTrue response \<and> \<not> optionATrue response
                then s\<lparr>optionBVotes := optionBVotes s + 1\<rparr>
                else s)
      in s1\<lparr>totalConfidence := num_add (totalConfidence s1) (confidence response),
             reasonings := reasonings s1 @ [entry_provider e @ '': '' @ reasoning response]\<rparr>)"

text \<open>\<^verbatim>\<open>Array.prototype.join\<close>.\<close>

fun join :: "string \<Rightarrow> string list \<Rightarrow> string" where
  "join sep [] = []"
| "join sep [x] = x"
| "join sep (x # y # ys) = x @ sep @ join sep (y # ys)"

record votes =
  optionA :: nat
  optionB :: nat

record ConsensusResult = OracleResponse +
  providers :: "string list"
  votes :: votes

record consensus_body = ConsensusResult +
  allResponses :: "response_entry list"

text \<open>
  What the route \<^verbatim>\<open>POST /oracle/consensus\<close> answers: status 400, status 500 with
  every attempt, status 200 with the consensus, or status 500 from the outer
  \<^verbatim>\<open>catch\<close>. On a request with a prompt and an array of provider configurations
  every step that can throw is inside the \<^verbatim>\<open>try\<close> of the loop, so the outer
  \<^verbatim>\<open>catch\<close> is not reached.
\<close>

datatype http_result =
    BadRequest string
  | NoValidResponses string "response_entry list"
  | ConsensusOk consensus_body
  | EvaluationFailed string string

text \<open>Lines 299 to 329: the reduction of the valid responses.\<close>

definition api_consensus :: "response_entry list \<Rightarrow> response_entry list \<Rightarrow> consensus_body" where
  "api_consensus responses validResponses =
     (let t = foldl api_step tally_init validResponses;
          avgConfidence = num_div (totalConfidence t) (of_count (length validResponses));
          consensusThreshold = (length validResponses + 1) div 2
      in \<lparr>optionATrue = consensusThreshold \<le> optionAVotes t,
          optionBTrue = consensusThreshold \<le> optionBVotes t,
          confidence = avgConfidence,
          reasoning = join ''; '' (reasonings t),
          providers = map entry_provider validResponses,
          votes = \<lparr>optionA = optionAVotes t, optionB = optionBVotes t\<rparr>,
          allResponses = responses\<rparr>)"

text \<open>
  The handler, lines 241 to 343. \<open>providers\<close> is \<open>None\<close> when the request has no
  \<^verbatim>\<open>providers\<close> array; each provider comes with what the network does with its call.
  \<^verbatim>\<open>Math.ceil(n / 2)\<close> on a length is \<open>(n + 1) div 2\<close>.
\<close>

definition consensus_route ::
  "json_parse \<Rightarrow> string \<Rightarrow> (providerConfig \<times> fetched) list option \<Rightarrow> http_result" where
  "consensus_route parse prompt providers_opt =
     (case providers_opt of
        None \<Rightarrow> BadRequest ''Missing required fields: prompt, providers array''
      | Some ps \<Rightarrow>
         if prompt = [] then BadRequest ''Missing required fields: prompt, providers array''
         else let responses = map (attempt parse) ps;
                  validResponses = filter valid_entry responses
              in if length validResponses = 0
                 then NoValidResponses ''No valid responses from providers'' responses
                 else ConsensusOk (api_consensus responses validResponses))"

section \<open>The plugin action: \<^verbatim>\<open>evaluatePrediction\<close>\<close>

record LLMProvider =
  llm_name :: string
  llm_model :: string

record ProviderResponse = OracleResponse +
  provider :: string
  model :: string

definition LLM_PROVIDERS :: "LLMProvider list" where
  "LLM_PROVIDERS =
     [\<lparr>llm_name = ''openai'', llm_model = ''gpt-4''\<rparr>,
      \<lparr>llm_name = ''deepseek'', llm_model = ''deepseek-chat''\<rparr>,
      \<lparr>llm_name = ''gemini'', llm_model = ''gemini-1.5-flash''\<rparr>]"

definition CONSENSUS_THRESHOLD :: nat where
  "CONSENSUS_THRESHOLD = 2"

definition MIN_CONFIDENCE :: number where
  "MIN_CONFIDENCE = round_double (7 / 10)"

text \<open>
  What the host runtime does for one provider: the API key it finds (\<open>None\<close> when
  neither the environment nor the settings have one) and what
  \<^verbatim>\<open>runtime.generateText\<close> does, throw or return the text (a value that is not
  a string makes \<^verbatim>\<open>response.match\<close> throw, inside the same \<^verbatim>\<open>try\<close>).
\<close>

record provider_io =
  io_apiKey :: "string option"
  io_generateText :: "js_error + string"

text \<open>\<^verbatim>\<open>callLLMProvider\<close> of the plugin, lines 63 to 156; \<open>None\<close> is \<^verbatim>\<open>null\<close>.\<close>

definition callLLMProvider :: "json_parse \<Rightarrow> provider_io \<Rightarrow> LLMProvider \<Rightarrow> ProviderResponse option" where
  "callLLMProvider parse io p =
     (case io_apiKey io of
        None \<Rightarrow> None
      | Some apiKey \<Rightarrow>
         if apiKey = [] then None
         else case io_generateText io of
           Inl e \<Rightarrow> None
         | Inr response \<Rightarrow>
            (case jsonMatch response of
               None \<Rightarrow> None
             | Some m \<Rightarrow>
                (case parse m of
                   Inl msg \<Rightarrow> None
                 | Inr parsed \<Rightarrow>
                    (case get_prop parsed ''optionATrue'' of
                       Inr (Some (JBool a)) \<Rightarrow>
                        (case get_prop parsed ''optionBTrue'' of
                           Inr (Some (JBool b)) \<Rightarrow>
                            (case get_prop parsed ''confidence'' of
                               Inr (Some (JNumber c)) \<Rightarrow>
                                (case get_prop parsed ''reasoning'' of
                                   Inr (Some (JString r)) \<Rightarrow>
                                    Some \<lparr>optionATrue = a, optionBTrue = b,
                                          confidence = round_double c, reasoning = r,
                                          provider = llm_name p, model = llm_model p\<rparr>
                                 | _ \<Rightarrow> None)
                             | _ \<Rightarrow> None)
                         | _ \<Rightarrow> None)
                     | _ \<Rightarrow> None))))"

text \<open>\<^verbatim>\<open>getConsensus\<close>, lines 158 to 218: the collecting loop, then the reduction.\<close>

fun collect ::
  "json_parse \<Rightarrow> (LLMProvider \<Rightarrow> provider_io) \<Rightarrow> LLMProvider list \<Rightarrow> ProviderResponse list" where
  "collect parse world [] = []"
| "collect parse world (p # ps) =
     (case callLLMProvider parse (world p) p of
        None \<Rightarrow> collect parse world ps
      | Some response \<Rightarrow>
          if num_ge (confidence response) MIN_CONFIDENCE
          then response # collect parse world ps
          else collect parse world ps)"

record tally_plugin = tally +
  usedProviders :: "string list"

definition tally_plugin_init :: tally_plugin where
  "tally_plugin_init =
     \<lparr>optionAVotes = 0, optionBVotes = 0, totalConfidence = Finite 0, reasonings = [],
      usedProviders = []\<rparr>"

definition plugin_step :: "tally_plugin \<Rightarrow> ProviderResponse \<Rightarrow> tally_plugin" where
  "plugin_step s response =
     (let s1 = (if optionATrue response \<and> \<not> optionBTrue response
                then s\<lparr>optionAVotes := optionAVotes s + 1\<rparr>
                else if optionBTrue response \<and> \<not> optionATrue response
                then s\<lparr>optionBVotes := optionBVotes s + 1\<rparr>
                else s)
      in s1\<lparr>totalConfidence := num_add (totalConfidence s1) (confidence response),
             reasonings := reasonings s1 @ [provider response @ '': '' @ reasoning response],
             usedProviders := usedProviders s1 @ [provider response]\<rparr>)"

definition reduce :: "ProviderResponse list \<Rightarrow> ConsensusResult" where
  "reduce responses =
     (let t = foldl plugin_step tally_plugin_init responses;
          avgConfidence = num_div (totalConfidence t) (of_count (length responses))
      in \<lparr>optionATrue = CONSENSUS_THRESHOLD \<le> optionAVotes t,
          optionBTrue = CONSENSUS_THRESHOLD \<le> optionBVotes t,
          confidence = avgConfidence,
          reasoning = join ''; '' (reasonings t),
          providers = usedProviders t,
          votes = \<lparr>optionA = optionAVotes t, optionB = optionBVotes t\<rparr>\<rparr>)"

text \<open>
  Lines 167 to 170: \<open>enabledProviders\<close> is \<open>None\<close> when the caller names no
  providers; an array, even an empty one, is truthy.
\<close>

definition providersToUse :: "string list option \<Rightarrow> LLMProvider list" where
  "providersToUse enabledProviders =
     (case enabledProviders of
        Some names \<Rightarrow> filter (\<lambda>p. llm_name p \<in> set names) LLM_PROVIDERS
      | None \<Rightarrow> LLM_PROVIDERS)"

definition getConsensus ::
  "json_parse \<Rightarrow> (LLMProvider \<Rightarrow> provider_io) \<Rightarrow> string list option \<Rightarrow> js_error + ConsensusResult" where
  "getConsensus parse world enabledProviders =
     (let responses = collect parse world (providersToUse enabledProviders)
      in if length responses = 0
         then Inl (Error ''No valid responses received from AI providers'')
         else Inr (reduce responses))"

section \<open>Notions used to state the properties\<close>

text \<open>
  The verdict one provider produces on the HTTP service, if any, and whether it passes the
  confidence floor.
\<close>

definition api_verdict :: "json_parse \<Rightarrow> providerConfig \<times> fetched \<Rightarrow> OracleResponse option" where
  "api_verdict parse pc =
     (case callLLMProvider_api (fst pc) (snd pc) of
        Inl e \<Rightarrow> None
      | Inr t \<Rightarrow> (case parseOracleResponse parse t of Inl e \<Rightarrow> None | Inr r \<Rightarrow> Some r))"

definition api_accepted :: "json_parse \<Rightarrow> providerConfig \<times> fetched \<Rightarrow> bool" where
  "api_accepted parse pc =
     (case api_verdict parse pc of
        None \<Rightarrow> False
      | Some r \<Rightarrow> num_ge (confidence r) (round_double (7 / 10)))"

definition plugin_accepted :: "json_parse \<Rightarrow> (LLMProvider \<Rightarrow> provider_io) \<Rightarrow> LLMProvider \<Rightarrow> bool" where
  "plugin_accepted parse world p =
     (case callLLMProvider parse (world p) p of
        None \<Rightarrow> False
      | Some r \<Rightarrow> num_ge (confidence r) MIN_CONFIDENCE)"

text \<open>
  The verdicts the providers of one evaluation produce, in the order of the providers (a
  provider whose call fails produces none), and the consensus set: the produced verdicts
  whose confidence is at least the floor. On the HTTP service a verdict is paired with the
  name of its provider; in the plugin it carries the name itself.
\<close>

definition api_verdicts ::
  "json_parse \<Rightarrow> (providerConfig \<times> fetched) list \<Rightarrow> (string \<times> OracleResponse) list" where
  "api_verdicts parse ps =
     List.map_filter (\<lambda>pc. map_option (\<lambda>r. (cfg_provider (fst pc), r)) (api_verdict parse pc)) ps"

definition api_consensus_set ::
  "json_parse \<Rightarrow> (providerConfig \<times> fetched) list \<Rightarrow> (string \<times> OracleResponse) list" where
  "api_consensus_set parse ps =
     filter (\<lambda>v. num_ge (confidence (snd v)) (round_double (7 / 10))) (api_verdicts parse ps)"

definition plugin_verdicts ::
  "json_parse \<Rightarrow> (LLMProvider \<Rightarrow> provider_io) \<Rightarrow> LLMProvider list \<Rightarrow> ProviderResponse list" where
  "plugin_verdicts parse world ps = List.map_filter (\<lambda>p. callLLMProvider parse (world p) p) ps"

definition plugin_consensus_set ::
  "json_parse \<Rightarrow> (LLMProvider \<Rightarrow> provider_io) \<Rightarrow> LLMProvider list \<Rightarrow> ProviderResponse list" where
  "plugin_consensus_set parse world ps =
     filter (\<lambda>r. num_ge (confidence r) MIN_CONFIDENCE) (plugin_verdicts parse world ps)"

text \<open>The six fields of a consensus, without the diagnostic \<^verbatim>\<open>allResponses\<close>.\<close>

definition consensus_of :: "http_result \<Rightarrow> ConsensusResult option" where
  "consensus_of res =
     (case res of
        ConsensusOk body \<Rightarrow>
          Some \<lparr>optionATrue = optionATrue body, optionBTrue = optionBTrue body,
                confidence = confidence body, reasoning = reasoning body,
                providers = providers body, votes = votes body\<rparr>
      | _ \<Rightarrow> None)"

text \<open>
  A finite confidence between the floor and 1, and the rational a finite number denotes.
\<close>

definition in_range :: "number \<Rightarrow> bool" where
  "in_range c = (case c of Finite x \<Rightarrow> 6305039478318694 / 2 ^ 53 \<le> x \<and> x \<le> 1 | _ \<Rightarrow> False)"

fun exact :: "number \<Rightarrow> rat" where
  "exact (Finite x) = x"
| "exact _ = 0"

text \<open>
  The four required fields of a parsed value with their required types: two booleans, a
  number, a text.
\<close>

definition required_fields :: "json \<Rightarrow> (bool \<times> bool \<times> rat \<times> string) option" where
  "required_fields v =
     (case (get_prop v ''optionATrue'', get_prop v ''optionBTrue'',
            get_prop v ''confidence'', get_prop v ''reasoning'') of
        (Inr (Some (JBool a)), Inr (Some (JBool b)), Inr (Some (JNumber c)), Inr (Some (JString r)))
          \<Rightarrow> Some (a, b, c, r)
      | _ \<Rightarrow> None)"

text \<open>
  Following the specification's words, for comparison with \<open>jsonMatch\<close>: the first
  substring that starts at an opening brace and ends where the braces balance.
\<close>

fun balanced_prefix :: "nat \<Rightarrow> string \<Rightarrow> string option" where
  "balanced_prefix d [] = None"
| "balanced_prefix d (c # cs) =
     (if c = CHR ''{'' then map_option ((#) c) (balanced_prefix (Suc d) cs)
      else if c = CHR ''}'' then
        (if d = Suc 0 then Some [c] else map_option ((#) c) (balanced_prefix (d - 1) cs))
      else map_option ((#) c) (balanced_prefix d cs))"

fun first_balanced_object :: "string \<Rightarrow> string option" where
  "first_balanced_object [] = None"
| "first_balanced_object (c # cs) =
     (if c = CHR ''{'' then
        (case balanced_prefix (Suc 0) cs of
           Some m \<Rightarrow> Some (c # m)
         | None \<Rightarrow> first_balanced_object cs)
      else first_balanced_object cs)"

section \<open>Sample inputs\<close>

text \<open>Provider texts, and the values \<^verbatim>\<open>JSON.parse\<close> gives on the ones it accepts.\<close>

definition text_sure :: string where
  \<open>text_sure = ''{"optionATrue":true,"optionBTrue":false,"confidence":1.5,"reasoning":"sure"}''\<close>

definition text_ok :: string where
  \<open>text_ok = ''{"optionATrue":true,"optionBTrue":false,"confidence":0.9,"reasoning":"ok"}''\<close>

definition text_floor :: string where
  \<open>text_floor = ''{"optionATrue":true,"optionBTrue":false,"confidence":0.7,"reasoning":"maybe"}''\<close>

definition text_low :: string where
  \<open>text_low = ''{"optionATrue":false,"optionBTrue":true,"confidence":0.5,"reasoning":"unsure"}''\<close>

definition text_two :: string where
  "text_two = ''Answer: '' @ text_ok @ '' (schema: {})''"

definition text_partial :: string where
  \<open>text_partial = ''{"optionATrue":true}''\<close>

definition text_prose :: string where
  "text_prose = ''I cannot answer that.''"

definition sample_parse :: json_parse where
  "sample_parse s =
     (if s = text_sure then
        Inr (JObject [(''optionATrue'', JBool True), (''optionBTrue'', JBool False),
                      (''confidence'', JNumber (3 / 2)), (''reasoning'', JString ''sure'')])
      else if s = text_ok then
        Inr (JObject [(''optionATrue'', JBool True), (''optionBTrue'', JBool False),
                      (''confidence'', JNumber (9 / 10)), (''reasoning'', JString ''ok'')])
      else if s = text_floor then
        Inr (JObject [(''optionATrue'', JBool True), (''optionBTrue'', JBool False),
                      (''confidence'', JNumber (7 / 10)), (''reasoning'', JString ''maybe'')])
      else if s = text_partial then
        Inr (JObject [(''optionATrue'', JBool True)])
      else if s = text_low then
        Inr (JObject [(''optionATrue'', JBool False), (''optionBTrue'', JBool True),
                      (''confidence'', JNumber (1 / 2)), (''reasoning'', JString ''unsure'')])
      else Inl ''Unexpected token'')"

definition openai :: LLMProvider where
  "openai = \<lparr>llm_name = ''openai'', llm_model = ''gpt-4''\<rparr>"

definition answering :: "string \<Rightarrow> provider_io" where
  "answering t = \<lparr>io_apiKey = Some ''sk-test'', io_generateText = Inr t\<rparr>"

definition no_key :: provider_io where
  "no_key = \<lparr>io_apiKey = None, io_generateText = Inr text_ok\<rparr>"

definition timing_out :: provider_io where
  "timing_out = \<lparr>io_apiKey = Some ''sk-test'', io_generateText = Inl (Error ''timeout'')\<rparr>"

text \<open>Three worlds of the plugin: no provider has a key; every call throws; only gemini answers.\<close>

definition world_no_keys :: "LLMProvider \<Rightarrow> provider_io" where
  "world_no_keys p = no_key"

definition world_throwing :: "LLMProvider \<Rightarrow> provider_io" where
  "world_throwing p = timing_out"

definition world_one_answer :: "LLMProvider \<Rightarrow> provider_io" where
  "world_one_answer p =
     (if llm_name p = ''openai'' then no_key
      else if llm_name p = ''deepseek'' then answering text_prose
      else answering text_ok)"

text \<open>A world where only openai answers, with the confidence 1.5.\<close>

definition world_overconfident :: "LLMProvider \<Rightarrow> provider_io" where
  "world_overconfident p = (if llm_name p = ''openai'' then answering text_sure else no_key)"

text \<open>Three calls of the HTTP service: a network failure, prose without JSON, an answer.\<close>

definition sample_calls :: "(providerConfig \<times> fetched) list" where
  "sample_calls =
     [(\<lparr>cfg_provider = ''openai'', cfg_model = ''gpt-4'', cfg_apiKey = ''k1''\<rparr>,
       Thrown (TypeError ''fetch failed'')),
      (\<lparr>cfg_provider = ''deepseek'', cfg_model = ''deepseek-chat'', cfg_apiKey = ''k2''\<rparr>,
       Content text_prose),
      (\<lparr>cfg_provider = ''gemini'', cfg_model = ''gemini-1.5-flash'', cfg_apiKey = ''k3''\<rparr>,
       Content text_ok)]"



text \<open>The two failing calls alone.\<close>

definition failing_calls :: "(providerConfig \<times> fetched) list" where
  "failing_calls = take 2 sample_calls"

text \<open>
  Openai answers below the floor (0.5, for B) and the two others answer 0.9 for A: in the
  plugin, and on the service.
\<close>

definition world_low :: "LLMProvider \<Rightarrow> provider_io" where
  "world_low p = (if llm_name p = ''openai'' then answering text_low else answering text_ok)"

definition low_calls :: "(providerConfig \<times> fetched) list" where
  "low_calls =
     [(\<lparr>cfg_provider = ''openai'', cfg_model = ''gpt-4'', cfg_apiKey = ''k1''\<rparr>,
       Content text_low),
      (\<lparr>cfg_provider = ''deepseek'', cfg_model = ''deepseek-chat'', cfg_apiKey = ''k2''\<rparr>,
       Content text_ok),
      (\<lparr>cfg_provider = ''gemini'', cfg_model = ''gemini-1.5-flash'', cfg_apiKey = ''k3''\<rparr>,
       Content text_ok)]"

text \<open>A verdict of the plugin and an accepted entry of the service, for the examples.\<close>

definition verdict :: "string \<Rightarrow> bool \<Rightarrow> bool \<Rightarrow> rat \<Rightarrow> ProviderResponse" where
  "verdict name a b c =
     \<lparr>optionATrue = a, optionBTrue = b, confidence = round_double c,
      reasoning = ''because'', provider = name, model = ''m''\<rparr>"

definition entry :: "string \<Rightarrow> bool \<Rightarrow> bool \<Rightarrow> rat \<Rightarrow> response_entry" where
  "entry name a b c =
     \<lparr>entry_provider = name,
      entry_response = \<lparr>optionATrue = a, optionBTrue = b, confidence = round_double c,
                        reasoning = ''because''\<rparr>,
      entry_error = None\<rparr>"

text \<open>The same three accepted verdicts, collected in two orders.\<close>

definition order_a :: "ProviderResponse list" where
  "order_a = [verdict ''openai'' True False (7 / 10), verdict ''deepseek'' True False (4 / 5),
              verdict ''gemini'' False True (9 / 10)]"

definition order_b :: "ProviderResponse list" where
  "order_b = [verdict ''openai'' True False (7 / 10), verdict ''gemini'' False True (9 / 10),
              verdict ''deepseek'' True False (4 / 5)]"

definition entries_a :: "response_entry list" where
  "entries_a = [entry ''openai'' True False (7 / 10), entry ''deepseek'' True False (4 / 5),
                entry ''gemini'' False True (9 / 10)]"

definition entries_b :: "response_entry list" where
  "entries_b = [entry ''openai'' True False (7 / 10), entry ''gemini'' False True (9 / 10),
                entry ''deepseek'' True False (4 / 5)]"

section \<open>Rounding: exponent, error bounds, evaluation\<close>

lemma ilog2_ge1:
  assumes "1 \<le> (a::rat)"
  shows "2 powi (ilog2 a) \<le> a" and "a < 2 powi (ilog2 a + 1)"
proof -
  define n where "n = \<lfloor>a\<rfloor>"
  have n1: "1 \<le> n" using assms by (simp add: n_def le_floor_iff)
  from bitlen_bounds [of n] n1
  have b: "2 ^ nat (bitlen n - 1) \<le> n" "n < 2 ^ nat (bitlen n)" by auto
  have bl: "1 \<le> bitlen n" using n1 by (simp add: bitlen_def floorlog_def)
  have e: "ilog2 a = bitlen n - 1" using assms by (simp add: ilog2_def n_def)
  have "(2::rat) powi (bitlen n - 1) = 2 ^ nat (bitlen n - 1)"
    using bl by (simp add: power_int_def)
  also have "\<dots> \<le> of_int n" using b(1) by simp
  also have "\<dots> \<le> a" by (simp add: n_def)
  finally show "2 powi (ilog2 a) \<le> a" by (simp add: e)
  have "n + 1 \<le> 2 ^ nat (bitlen n)" using b(2) by simp
  then have "(of_int (n + 1) :: rat) \<le> of_int (2 ^ nat (bitlen n))" by (simp only: of_int_le_iff)
  then have "(of_int (n + 1) :: rat) \<le> 2 ^ nat (bitlen n)" by (simp only: of_int_power of_int_numeral)
  moreover have "a < of_int (n + 1)" unfolding n_def by linarith
  ultimately have "a < 2 ^ nat (bitlen n)" by linarith
  also have "\<dots> = 2 powi (bitlen n)" using bl by (simp add: power_int_def)
  finally show "a < 2 powi (ilog2 a + 1)" by (simp add: e)
qed

lemma ilog2_lt1:
  assumes "0 < (a::rat)" "a < 1"
  shows "2 powi (ilog2 a) \<le> a" and "a < 2 powi (ilog2 a + 1)"
proof -
  define m where "m = \<lceil>1 / a\<rceil>"
  define k where "k = bitlen (m - 1)"
  have inv: "1 < 1 / a" using assms by simp
  have m2: "2 \<le> m" unfolding m_def using inv by linarith
  from bitlen_bounds [of "m - 1"] m2
  have b: "2 ^ nat (k - 1) \<le> m - 1" "m - 1 < 2 ^ nat k" by (auto simp: k_def)
  have k1: "1 \<le> k" using m2 by (simp add: k_def bitlen_def floorlog_def)
  have e: "ilog2 a = - k" using assms by (simp add: ilog2_def m_def k_def)
  have "m \<le> 2 ^ nat k" using b(2) by simp
  then have "(of_int m :: rat) \<le> 2 ^ nat k" by simp
  moreover have "1 / a \<le> of_int m" unfolding m_def by linarith
  ultimately have le: "1 / a \<le> 2 ^ nat k" by linarith
  have "1 \<le> a * 2 ^ nat k"
    using le assms(1) by (simp add: field_simps)
  then have "inverse (2 ^ nat k) \<le> a"
    by (simp add: field_simps)
  moreover have "(2::rat) powi (- k) = inverse (2 ^ nat k)"
  proof -
    have "(2::rat) powi (- k) = inverse (2 powi k)" by (rule power_int_minus)
    also have "(2::rat) powi k = 2 ^ nat k" using k1 by (simp add: power_int_def)
    finally show ?thesis .
  qed
  ultimately show "2 powi (ilog2 a) \<le> a" by (simp add: e)
  have "(of_int (2 ^ nat (k - 1)) :: rat) \<le> of_int (m - 1)" using b(1) by (simp only: of_int_le_iff)
  then have "(2 ^ nat (k - 1) :: rat) \<le> of_int (m - 1)" by (simp only: of_int_power of_int_numeral)
  moreover have "of_int (m - 1) < 1 / a" unfolding m_def by linarith
  ultimately have lt: "2 ^ nat (k - 1) < 1 / a" by linarith
  then have "a * 2 ^ nat (k - 1) < 1" using assms(1) by (simp add: field_simps)
  then have "a < inverse (2 ^ nat (k - 1))" by (simp add: field_simps)
  moreover have "(2::rat) powi (- k + 1) = inverse (2 ^ nat (k - 1))"
  proof -
    have "(2::rat) powi (- k + 1) = 2 powi (- (k - 1))" by simp
    also have "\<dots> = inverse (2 powi (k - 1))" by (rule power_int_minus)
    also have "(2::rat) powi (k - 1) = 2 ^ nat (k - 1)" using k1 by (simp add: power_int_def)
    finally show ?thesis .
  qed
  ultimately show "a < 2 powi (ilog2 a + 1)" by (simp add: e)
qed

lemma ilog2_lower: "0 < a \<Longrightarrow> 2 powi (ilog2 a) \<le> a"
  using ilog2_ge1(1) ilog2_lt1(1) by (cases "1 \<le> a") auto

lemma ilog2_upper: "0 < a \<Longrightarrow> a < 2 powi (ilog2 a + 1)"
  using ilog2_ge1(2) ilog2_lt1(2) by (cases "1 \<le> a") auto

lemma rhe_lower: "q - 1/2 \<le> of_int (round_half_even q)"
  unfolding round_half_even_def Let_def by (auto; linarith)

lemma rhe_upper: "of_int (round_half_even q) \<le> q + 1/2"
  unfolding round_half_even_def Let_def by (auto; linarith)

lemma round_double_not_NaN: "round_double x \<noteq> NaN"
  by (simp add: round_double_def Let_def)

lemma round_double_pos_cases:
  assumes "0 < x"
  obtains "round_double x = PosInf"
  | r where "round_double x = Finite r"
      "r = of_int (round_half_even (x / 2 powi (max (ilog2 x) (- 1022) - 52))) * 2 powi (max (ilog2 x) (- 1022) - 52)"
proof -
  have nz: "x \<noteq> 0" and ab: "\<bar>x\<bar> = x" using assms by simp_all
  show thesis
  proof (cases "(2::rat) powi 1024 \<le> of_int (round_half_even (x / 2 powi (max (ilog2 x) (- 1022) - 52))) * 2 powi (max (ilog2 x) (- 1022) - 52)")
    case True
    have "round_double x = PosInf"
      unfolding round_double_def Let_def ab using nz True assms by (simp only: if_True if_False)
    then show thesis by (rule that(1))
  next
    case False
    have "round_double x = Finite (of_int (round_half_even (x / 2 powi (max (ilog2 x) (- 1022) - 52))) * 2 powi (max (ilog2 x) (- 1022) - 52))"
      unfolding round_double_def Let_def ab using nz False assms by (simp only: if_True if_False)
    then show thesis by (rule that(2)) simp
  qed
qed

lemma ilog2_normal:
  assumes "2 powi (- 1022) \<le> (x::rat)"
  shows "- 1022 \<le> ilog2 x"
proof -
  have x0: "0 < x" proof -
    have "0 < (2::rat) powi (- 1022)" by (rule zero_less_power_int) simp
    then show ?thesis using assms by linarith
  qed
  have lt: "(2::rat) powi (- 1022) < 2 powi (ilog2 x + 1)"
    using assms ilog2_upper [OF x0] by linarith
  show ?thesis
  proof (rule ccontr)
    assume "\<not> - 1022 \<le> ilog2 x"
    then have "ilog2 x + 1 \<le> - 1022" by simp
    then have "(2::rat) powi (ilog2 x + 1) \<le> 2 powi (- 1022)"
      by (rule power_int_increasing) simp
    with lt show False by linarith
  qed
qed

lemma half_ulp:
  assumes "0 < (x::rat)"
  shows "2 powi (ilog2 x - 52) / 2 \<le> x * 2 powi (- 53)"
proof -
  have "(2::rat) powi (ilog2 x - 52) / 2 = 2 powi (ilog2 x) * 2 powi (- 53)"
    by (simp add: power_int_diff power_int_minus field_simps)
  also have "\<dots> \<le> x * 2 powi (- 53)"
    using ilog2_lower [OF assms] by (simp add: mult_right_mono)
  finally show ?thesis .
qed

lemma round_double_lower:
  assumes "2 powi (- 1022) \<le> (x::rat)"
  shows "num_le (Finite (x * (1 - 2 powi (- 53)))) (round_double x)"
proof -
  have x0: "0 < x" proof -
    have "0 < (2::rat) powi (- 1022)" by (rule zero_less_power_int) simp
    then show ?thesis using assms by linarith
  qed
  define ulp :: rat where "ulp = 2 powi (ilog2 x - 52)"
  have e: "max (ilog2 x) (- 1022) = ilog2 x" using ilog2_normal [OF assms] by simp
  have u0: "0 < ulp" by (simp add: ulp_def)
  from x0 show ?thesis
  proof (cases rule: round_double_pos_cases)
    case 1
    then show ?thesis by simp
  next
    case (2 r)
    have r: "r = of_int (round_half_even (x / ulp)) * ulp" using 2(2) by (simp add: e ulp_def)
    have "x / ulp - 1 / 2 \<le> of_int (round_half_even (x / ulp))" by (rule rhe_lower)
    then have "(x / ulp - 1 / 2) * ulp \<le> r" unfolding r using u0 by (simp only: mult_right_mono less_imp_le)
    moreover have "(x / ulp - 1 / 2) * ulp = x - ulp / 2" using u0 by (simp add: field_simps)
    ultimately have "x - ulp / 2 \<le> r" by simp
    moreover have "ulp / 2 \<le> x * 2 powi (- 53)" unfolding ulp_def by (rule half_ulp [OF x0])
    ultimately have "x * (1 - 2 powi (- 53)) \<le> r" by (simp add: algebra_simps)
    then show ?thesis by (simp add: 2(1))
  qed
qed

lemma round_double_upper:
  assumes "2 powi (- 1022) \<le> (x::rat)" "round_double x = Finite r"
  shows "r \<le> x * (1 + 2 powi (- 53))"
proof -
  have x0: "0 < x" proof -
    have "0 < (2::rat) powi (- 1022)" by (rule zero_less_power_int) simp
    then show ?thesis using assms by linarith
  qed
  define ulp :: rat where "ulp = 2 powi (ilog2 x - 52)"
  have e: "max (ilog2 x) (- 1022) = ilog2 x" using ilog2_normal [OF assms(1)] by simp
  have u0: "0 < ulp" by (simp add: ulp_def)
  from x0 show ?thesis
  proof (cases rule: round_double_pos_cases)
    case 1
    then show ?thesis using assms(2) by simp
  next
    case (2 r')
    have rr: "r' = r" using 2(1) assms(2) by simp
    have r: "r = of_int (round_half_even (x / ulp)) * ulp" using 2(2) by (simp add: e ulp_def rr)
    have "of_int (round_half_even (x / ulp)) \<le> x / ulp + 1 / 2" by (rule rhe_upper)
    then have "r \<le> (x / ulp + 1 / 2) * ulp" unfolding r using u0 by (simp only: mult_right_mono less_imp_le)
    moreover have "(x / ulp + 1 / 2) * ulp = x + ulp / 2" using u0 by (simp add: field_simps)
    ultimately have "r \<le> x + ulp / 2" by simp
    moreover have "ulp / 2 \<le> x * 2 powi (- 53)" unfolding ulp_def by (rule half_ulp [OF x0])
    ultimately show "r \<le> x * (1 + 2 powi (- 53))" by (simp add: algebra_simps)
  qed
qed

lemma power_int_2_less_cancel:
  assumes "(2::rat) powi m < 2 powi n"
  shows "m < n"
proof (rule ccontr)
  assume "\<not> m < n"
  then have "n \<le> m" by simp
  then have "(2::rat) powi n \<le> 2 powi m" by (rule power_int_increasing) simp
  with assms show False by linarith
qed

lemma ilog2_unique:
  assumes "2 powi e \<le> (a::rat)" "a < 2 powi (e + 1)"
  shows "ilog2 a = e"
proof -
  have "0 < (2::rat) powi e" by (rule zero_less_power_int) simp
  with assms(1) have a0: "0 < a" by linarith
  have "(2::rat) powi (ilog2 a) < 2 powi (e + 1)"
    using ilog2_lower [OF a0] assms(2) by linarith
  then have "ilog2 a < e + 1" by (rule power_int_2_less_cancel)
  moreover have "(2::rat) powi e < 2 powi (ilog2 a + 1)"
    using ilog2_upper [OF a0] assms(1) by linarith
  then have "e < ilog2 a + 1" by (rule power_int_2_less_cancel)
  ultimately show ?thesis by simp
qed

lemma round_half_even_near:
  assumes "\<bar>q - of_int n\<bar> < 1 / 2"
  shows "round_half_even q = n"
proof (cases "of_int n \<le> q")
  case True
  have lt: "q < of_int n + 1 / 2" using assms by linarith
  have "\<lfloor>q\<rfloor> = n" by (rule floor_unique) (use True lt in linarith)+
  then show ?thesis using lt unfolding round_half_even_def Let_def by simp
next
  case False
  have gt: "of_int n - 1 / 2 < q" using assms by linarith
  have "\<lfloor>q\<rfloor> = n - 1" by (rule floor_unique) (use False gt in simp_all)
  then show ?thesis using gt False unfolding round_half_even_def Let_def by simp
qed

lemma round_half_even_tie:
  assumes "q = of_int n + 1 / 2"
  shows "round_half_even q = (if even n then n else n + 1)"
proof -
  have "\<lfloor>q\<rfloor> = n" unfolding assms by linarith
  then show ?thesis unfolding round_half_even_def Let_def by (simp add: assms)
qed

lemma round_double_eval:
  assumes "2 powi e \<le> x" "x < 2 powi (e + 1)" "- 1022 \<le> e"
    and "round_half_even (x / 2 powi (e - 52)) = n"
    and "of_int n * 2 powi (e - 52) < (2::rat) powi 1024"
  shows "round_double x = Finite (of_int n * 2 powi (e - 52))"
proof -
  have "0 < (2::rat) powi e" by (rule zero_less_power_int) simp
  with assms(1) have x0: "0 < x" by linarith
  have il: "ilog2 x = e" using assms(1,2) by (rule ilog2_unique)
  have m: "max (ilog2 x) (- 1022) = e" using il assms(3) by simp
  from x0 show ?thesis
  proof (cases rule: round_double_pos_cases)
    case 1
    have "round_double x \<noteq> PosInf"
      unfolding round_double_def Let_def
      using x0 assms(4,5) by (simp only: m abs_of_pos if_False) (simp add: not_le)
    with 1 show ?thesis by simp
  next
    case (2 r)
    then show ?thesis by (simp only: m assms(4))
  qed
qed

section \<open>The tally loops in closed form\<close>

lemma plugin_fold_A:
  "optionAVotes (foldl plugin_step s rs) =
     optionAVotes s + length (filter (\<lambda>r. optionATrue r \<and> \<not> optionBTrue r) rs)"
  by (induction rs arbitrary: s) (simp_all add: plugin_step_def Let_def)

lemma plugin_fold_B:
  "optionBVotes (foldl plugin_step s rs) =
     optionBVotes s + length (filter (\<lambda>r. optionBTrue r \<and> \<not> optionATrue r) rs)"
  by (induction rs arbitrary: s) (simp_all add: plugin_step_def Let_def)

lemma plugin_fold_total:
  "totalConfidence (foldl plugin_step s rs) = foldl num_add (totalConfidence s) (map confidence rs)"
  by (induction rs arbitrary: s) (simp_all add: plugin_step_def Let_def)

lemma plugin_fold_reasonings:
  "reasonings (foldl plugin_step s rs) =
     reasonings s @ map (\<lambda>r. provider r @ '': '' @ reasoning r) rs"
  by (induction rs arbitrary: s) (simp_all add: plugin_step_def Let_def)

lemma plugin_fold_used:
  "usedProviders (foldl plugin_step s rs) = usedProviders s @ map provider rs"
  by (induction rs arbitrary: s) (simp_all add: plugin_step_def Let_def)

lemma api_fold_A:
  "optionAVotes (foldl api_step s es) =
     optionAVotes s
     + length (filter (\<lambda>e. optionATrue (entry_response e) \<and> \<not> optionBTrue (entry_response e)) es)"
  by (induction es arbitrary: s) (simp_all add: api_step_def Let_def)

lemma api_fold_B:
  "optionBVotes (foldl api_step s es) =
     optionBVotes s
     + length (filter (\<lambda>e. optionBTrue (entry_response e) \<and> \<not> optionATrue (entry_response e)) es)"
  by (induction es arbitrary: s) (simp_all add: api_step_def Let_def)

lemma api_fold_total:
  "totalConfidence (foldl api_step s es) =
     foldl num_add (totalConfidence s) (map (\<lambda>e. confidence (entry_response e)) es)"
  by (induction es arbitrary: s) (simp_all add: api_step_def Let_def)

lemma api_fold_reasonings:
  "reasonings (foldl api_step s es) =
     reasonings s @ map (\<lambda>e. entry_provider e @ '': '' @ reasoning (entry_response e)) es"
  by (induction es arbitrary: s) (simp_all add: api_step_def Let_def)

lemma reduce_votes:
  "votes (reduce rs) =
     \<lparr>optionA = length (filter (\<lambda>r. optionATrue r \<and> \<not> optionBTrue r) rs),
      optionB = length (filter (\<lambda>r. optionBTrue r \<and> \<not> optionATrue r) rs)\<rparr>"
  by (simp add: reduce_def Let_def plugin_fold_A plugin_fold_B tally_plugin_init_def)

lemma reduce_confidence:
  "confidence (reduce rs) =
     num_div (foldl num_add (Finite 0) (map confidence rs)) (of_count (length rs))"
  by (simp add: reduce_def Let_def plugin_fold_total tally_plugin_init_def)

lemma reduce_reasoning:
  "reasoning (reduce rs) = join ''; '' (map (\<lambda>r. provider r @ '': '' @ reasoning r) rs)"
  by (simp add: reduce_def Let_def plugin_fold_reasonings tally_plugin_init_def)

lemma reduce_providers: "providers (reduce rs) = map provider rs"
  by (simp add: reduce_def Let_def plugin_fold_used tally_plugin_init_def)

lemma reduce_flags:
  "optionATrue (reduce rs) = (CONSENSUS_THRESHOLD \<le> optionA (votes (reduce rs)))"
  "optionBTrue (reduce rs) = (CONSENSUS_THRESHOLD \<le> optionB (votes (reduce rs)))"
  by (simp_all add: reduce_def Let_def)

lemma api_votes:
  "votes (api_consensus all es) =
     \<lparr>optionA = length (filter (\<lambda>e. optionATrue (entry_response e) \<and> \<not> optionBTrue (entry_response e)) es),
      optionB = length (filter (\<lambda>e. optionBTrue (entry_response e) \<and> \<not> optionATrue (entry_response e)) es)\<rparr>"
  by (simp add: api_consensus_def Let_def api_fold_A api_fold_B tally_init_def)

lemma api_confidence:
  "confidence (api_consensus all es) =
     num_div (foldl num_add (Finite 0) (map (\<lambda>e. confidence (entry_response e)) es))
             (of_count (length es))"
  by (simp add: api_consensus_def Let_def api_fold_total tally_init_def)

lemma api_reasoning:
  "reasoning (api_consensus all es) =
     join ''; '' (map (\<lambda>e. entry_provider e @ '': '' @ reasoning (entry_response e)) es)"
  by (simp add: api_consensus_def Let_def api_fold_reasonings tally_init_def)

lemma api_providers: "providers (api_consensus all es) = map entry_provider es"
  by (simp add: api_consensus_def Let_def)

lemma api_flags:
  "optionATrue (api_consensus all es) = ((length es + 1) div 2 \<le> optionA (votes (api_consensus all es)))"
  "optionBTrue (api_consensus all es) = ((length es + 1) div 2 \<le> optionB (votes (api_consensus all es)))"
  by (simp_all add: api_consensus_def Let_def)

section \<open>Doubles of the examples\<close>

text \<open>The roundings the examples need, each checked against the definition.\<close>

lemma rdn_0: "round_double (7 / 10) = Finite (3152519739159347 / 4503599627370496)"
proof -
  have "round_double (7 / 10) = Finite (of_int 6305039478318694 * 2 powi (-1 - 52))"
    by (rule round_double_eval) (simp_all add: round_half_even_near power_int_minus)
  then show ?thesis by (simp add: power_int_minus)
qed

lemma rdn_1: "round_double (3152519739159347 / 4503599627370496) = Finite (3152519739159347 / 4503599627370496)"
proof -
  have "round_double (3152519739159347 / 4503599627370496) = Finite (of_int 6305039478318694 * 2 powi (-1 - 52))"
    by (rule round_double_eval) (simp_all add: round_half_even_near power_int_minus)
  then show ?thesis by (simp add: power_int_minus)
qed

lemma rdn_2: "round_double (4 / 5) = Finite (3602879701896397 / 4503599627370496)"
proof -
  have "round_double (4 / 5) = Finite (of_int 7205759403792794 * 2 powi (-1 - 52))"
    by (rule round_double_eval) (simp_all add: round_half_even_near power_int_minus)
  then show ?thesis by (simp add: power_int_minus)
qed

lemma rdn_3: "round_double (3602879701896397 / 4503599627370496) = Finite (3602879701896397 / 4503599627370496)"
proof -
  have "round_double (3602879701896397 / 4503599627370496) = Finite (of_int 7205759403792794 * 2 powi (-1 - 52))"
    by (rule round_double_eval) (simp_all add: round_half_even_near power_int_minus)
  then show ?thesis by (simp add: power_int_minus)
qed

lemma rdn_4: "round_double (3 / 4) = Finite (3 / 4)"
proof -
  have "round_double (3 / 4) = Finite (of_int 6755399441055744 * 2 powi (-1 - 52))"
    by (rule round_double_eval) (simp_all add: round_half_even_near power_int_minus)
  then show ?thesis by (simp add: power_int_minus)
qed

lemma rdn_5: "round_double (9 / 10) = Finite (8106479329266893 / 9007199254740992)"
proof -
  have "round_double (9 / 10) = Finite (of_int 8106479329266893 * 2 powi (-1 - 52))"
    by (rule round_double_eval) (simp_all add: round_half_even_near power_int_minus)
  then show ?thesis by (simp add: power_int_minus)
qed

lemma rdn_6: "round_double (8106479329266893 / 9007199254740992) = Finite (8106479329266893 / 9007199254740992)"
proof -
  have "round_double (8106479329266893 / 9007199254740992) = Finite (of_int 8106479329266893 * 2 powi (-1 - 52))"
    by (rule round_double_eval) (simp_all add: round_half_even_near power_int_minus)
  then show ?thesis by (simp add: power_int_minus)
qed

lemma rdn_7: "round_double (3 / 2) = Finite (3 / 2)"
proof -
  have "round_double (3 / 2) = Finite (of_int 6755399441055744 * 2 powi (0 - 52))"
    by (rule round_double_eval) (simp_all add: round_half_even_near power_int_minus)
  then show ?thesis by (simp add: power_int_minus)
qed

lemma rdn_8: "round_double (6980579422424269 / 4503599627370496) = Finite (6980579422424269 / 4503599627370496)"
proof -
  have "round_double (6980579422424269 / 4503599627370496) = Finite (of_int 6980579422424269 * 2 powi (0 - 52))"
    by (rule round_double_eval) (simp_all add: round_half_even_near power_int_minus)
  then show ?thesis by (simp add: power_int_minus)
qed

lemma rdn_9: "round_double (22067638174115431 / 9007199254740992) = Finite (2758454771764429 / 1125899906842624)"
proof -
  have "round_double (22067638174115431 / 9007199254740992) = Finite (of_int 5516909543528858 * 2 powi (1 - 52))"
    by (rule round_double_eval) (simp_all add: round_half_even_near power_int_minus)
  then show ?thesis by (simp add: power_int_minus)
qed

lemma rdn_10: "round_double (2758454771764429 / 3377699720527872) = Finite (7355879391371811 / 9007199254740992)"
proof -
  have "round_double (2758454771764429 / 3377699720527872) = Finite (of_int 7355879391371811 * 2 powi (-1 - 52))"
    by (rule round_double_eval) (simp_all add: round_half_even_near power_int_minus)
  then show ?thesis by (simp add: power_int_minus)
qed

lemma rdn_11: "round_double (3152519739159347 / 2251799813685248) = Finite (3152519739159347 / 2251799813685248)"
proof -
  have "round_double (3152519739159347 / 2251799813685248) = Finite (of_int 6305039478318694 * 2 powi (0 - 52))"
    by (rule round_double_eval) (simp_all add: round_half_even_near power_int_minus)
  then show ?thesis by (simp add: power_int_minus)
qed

lemma rdn_12: "round_double (9457559217478041 / 4503599627370496) = Finite (1182194902184755 / 562949953421312)"
proof -
  have "round_half_even ((9457559217478041 / 4503599627370496) / 2 powi (1 - 52)) = 4728779608739020"
    using round_half_even_tie [of "(9457559217478041 / 4503599627370496) / 2 powi (1 - 52)" 4728779608739020]
    by (simp add: power_int_minus)
  then have "round_double (9457559217478041 / 4503599627370496) = Finite (of_int 4728779608739020 * 2 powi (1 - 52))"
    by (rule round_double_eval [rotated 3]) (simp_all add: power_int_minus)
  then show ?thesis by (simp add: power_int_minus)
qed

lemma rdn_13: "round_double (1182194902184755 / 1688849860263936) = Finite (6305039478318693 / 9007199254740992)"
proof -
  have "round_double (1182194902184755 / 1688849860263936) = Finite (of_int 6305039478318693 * 2 powi (-1 - 52))"
    by (rule round_double_eval) (simp_all add: round_half_even_near power_int_minus)
  then show ?thesis by (simp add: power_int_minus)
qed

lemma rdn_14: "round_double (21617278211378381 / 9007199254740992) = Finite (5404319552844595 / 2251799813685248)"
proof -
  have "round_double (21617278211378381 / 9007199254740992) = Finite (of_int 5404319552844595 * 2 powi (1 - 52))"
    by (rule round_double_eval) (simp_all add: round_half_even_near power_int_minus)
  then show ?thesis by (simp add: power_int_minus)
qed

lemma rdn_15: "round_double (5404319552844595 / 6755399441055744) = Finite (7205759403792793 / 9007199254740992)"
proof -
  have "round_double (5404319552844595 / 6755399441055744) = Finite (of_int 7205759403792793 * 2 powi (-1 - 52))"
    by (rule round_double_eval) (simp_all add: round_half_even_near power_int_minus)
  then show ?thesis by (simp add: power_int_minus)
qed

lemma rdn_16: "round_double (14411518807585587 / 9007199254740992) = Finite (3602879701896397 / 2251799813685248)"
proof -
  have "round_half_even ((14411518807585587 / 9007199254740992) / 2 powi (0 - 52)) = 7205759403792794"
    using round_half_even_tie [of "(14411518807585587 / 9007199254740992) / 2 powi (0 - 52)" 7205759403792793]
    by (simp add: power_int_minus)
  then have "round_double (14411518807585587 / 9007199254740992) = Finite (of_int 7205759403792794 * 2 powi (0 - 52))"
    by (rule round_double_eval [rotated 3]) (simp_all add: power_int_minus)
  then show ?thesis by (simp add: power_int_minus)
qed

lemma rdn_17: "round_double (10808639105689191 / 4503599627370496) = Finite (1351079888211149 / 562949953421312)"
proof -
  have "round_half_even ((10808639105689191 / 4503599627370496) / 2 powi (1 - 52)) = 5404319552844596"
    using round_half_even_tie [of "(10808639105689191 / 4503599627370496) / 2 powi (1 - 52)" 5404319552844595]
    by (simp add: power_int_minus)
  then have "round_double (10808639105689191 / 4503599627370496) = Finite (of_int 5404319552844596 * 2 powi (1 - 52))"
    by (rule round_double_eval [rotated 3]) (simp_all add: power_int_minus)
  then show ?thesis by (simp add: power_int_minus)
qed

lemma rdn_18: "round_double (1351079888211149 / 1688849860263936) = Finite (7205759403792795 / 9007199254740992)"
proof -
  have "round_double (1351079888211149 / 1688849860263936) = Finite (of_int 7205759403792795 * 2 powi (-1 - 52))"
    by (rule round_double_eval) (simp_all add: round_half_even_near power_int_minus)
  then show ?thesis by (simp add: power_int_minus)
qed

lemmas rdn = rdn_0 rdn_1 rdn_2 rdn_3 rdn_4 rdn_5 rdn_6 rdn_7 rdn_8 rdn_9 rdn_10 rdn_11 rdn_12 rdn_13 rdn_14 rdn_15 rdn_16 rdn_17 rdn_18

section \<open>The sample runs\<close>

lemma jsonMatch_samples:
  "jsonMatch text_ok = Some text_ok"
  "jsonMatch text_sure = Some text_sure"
  "jsonMatch text_partial = Some text_partial"
  "jsonMatch text_prose = None"
  "jsonMatch text_two = Some (text_ok @ '' (schema: {}'')"
  by (simp_all add: text_ok_def text_sure_def text_partial_def text_prose_def text_two_def)

lemma sample_parse_values:
  "sample_parse text_ok =
     Inr (JObject [(''optionATrue'', JBool True), (''optionBTrue'', JBool False),
                   (''confidence'', JNumber (9 / 10)), (''reasoning'', JString ''ok'')])"
  "sample_parse text_sure =
     Inr (JObject [(''optionATrue'', JBool True), (''optionBTrue'', JBool False),
                   (''confidence'', JNumber (3 / 2)), (''reasoning'', JString ''sure'')])"
  "sample_parse text_partial = Inr (JObject [(''optionATrue'', JBool True)])"
  "sample_parse (text_ok @ '' (schema: {}'') = Inl ''Unexpected token''"
  by (simp_all add: sample_parse_def text_ok_def text_sure_def text_partial_def text_floor_def
      text_low_def)

lemma parse_samples:
  "parseOracleResponse sample_parse text_ok =
     Inr \<lparr>optionATrue = True, optionBTrue = False, confidence = round_double (9 / 10),
          reasoning = ''ok''\<rparr>"
  "parseOracleResponse sample_parse text_sure =
     Inr \<lparr>optionATrue = True, optionBTrue = False, confidence = Finite 1,
          reasoning = ''sure''\<rparr>"
  "parseOracleResponse sample_parse text_partial = Inl (Error ''Invalid response structure'')"
  "parseOracleResponse sample_parse text_prose = Inl (Error ''No JSON found in response'')"
  "parseOracleResponse sample_parse text_two = Inl (SyntaxError ''Unexpected token'')"
  by (simp_all add: parseOracleResponse_def jsonMatch_samples sample_parse_values rdn)

lemma attempt_samples:
  "map (attempt sample_parse) sample_calls =
     [\<lparr>entry_provider = ''openai'',
       entry_response = \<lparr>optionATrue = False, optionBTrue = False, confidence = Finite 0,
                         reasoning = ''Provider error''\<rparr>,
       entry_error = Some ''fetch failed''\<rparr>,
      \<lparr>entry_provider = ''deepseek'',
       entry_response = \<lparr>optionATrue = False, optionBTrue = False, confidence = Finite 0,
                         reasoning = ''Provider error''\<rparr>,
       entry_error = Some ''No JSON found in response''\<rparr>,
      \<lparr>entry_provider = ''gemini'',
       entry_response = \<lparr>optionATrue = True, optionBTrue = False,
                         confidence = round_double (9 / 10), reasoning = ''ok''\<rparr>,
       entry_error = None\<rparr>]"
  by (simp add: sample_calls_def attempt_def callLLMProvider_api_def parse_samples Let_def)

lemma valid_samples:
  "filter valid_entry (map (attempt sample_parse) sample_calls) =
     [\<lparr>entry_provider = ''gemini'',
       entry_response = \<lparr>optionATrue = True, optionBTrue = False,
                         confidence = round_double (9 / 10), reasoning = ''ok''\<rparr>,
       entry_error = None\<rparr>]"
  by (simp add: attempt_samples valid_entry_def num_ge_def rdn)

lemma route_sample:
  "consensus_route sample_parse ''Will it rain?'' (Some sample_calls) =
     ConsensusOk
       \<lparr>optionATrue = True, optionBTrue = False, confidence = round_double (9 / 10),
        reasoning = ''gemini: ok'', providers = [''gemini''],
        votes = \<lparr>optionA = 1, optionB = 0\<rparr>,
        allResponses = map (attempt sample_parse) sample_calls\<rparr>"
  by (simp add: consensus_route_def valid_samples Let_def api_consensus_def tally_init_def
      api_step_def of_count_def rdn)

lemma call_samples:
  "callLLMProvider sample_parse (answering text_ok) p =
     Some \<lparr>optionATrue = True, optionBTrue = False, confidence = round_double (9 / 10),
           reasoning = ''ok'', provider = llm_name p, model = llm_model p\<rparr>"
  "callLLMProvider sample_parse (answering text_sure) p =
     Some \<lparr>optionATrue = True, optionBTrue = False, confidence = round_double (3 / 2),
           reasoning = ''sure'', provider = llm_name p, model = llm_model p\<rparr>"
  "callLLMProvider sample_parse (answering text_prose) p = None"
  "callLLMProvider sample_parse (answering text_partial) p = None"
  "callLLMProvider sample_parse (answering text_two) p = None"
  "callLLMProvider sample_parse no_key p = None"
  "callLLMProvider sample_parse timing_out p = None"
  by (simp_all add: callLLMProvider_def answering_def no_key_def timing_out_def
      jsonMatch_samples sample_parse_values)

lemma collect_one_answer:
  "collect sample_parse world_one_answer LLM_PROVIDERS =
     [\<lparr>optionATrue = True, optionBTrue = False, confidence = round_double (9 / 10),
       reasoning = ''ok'', provider = ''gemini'', model = ''gemini-1.5-flash''\<rparr>]"
  by (simp add: LLM_PROVIDERS_def world_one_answer_def call_samples MIN_CONFIDENCE_def
      num_ge_def rdn)

lemma consensus_one_answer:
  "getConsensus sample_parse world_one_answer None =
     Inr \<lparr>optionATrue = False, optionBTrue = False, confidence = round_double (9 / 10),
          reasoning = ''gemini: ok'', providers = [''gemini''],
          votes = \<lparr>optionA = 1, optionB = 0\<rparr>\<rparr>"
  by (simp add: getConsensus_def providersToUse_def collect_one_answer Let_def reduce_def tally_plugin_init_def
      plugin_step_def of_count_def CONSENSUS_THRESHOLD_def rdn)

lemma ceil_half: "int ((n + 1) div 2) = \<lceil>rat_of_nat n / 2\<rceil>"
proof -
  have "\<lceil>rat_of_nat n / 2\<rceil> = - \<lfloor>of_int (- int n) / (of_int 2 :: rat)\<rfloor>"
    by (simp add: ceiling_def)
  also have "\<dots> = - ((- int n) div 2)" by (simp only: floor_divide_of_int_eq)
  also have "\<dots> = int ((n + 1) div 2)" by linarith
  finally show ?thesis by simp
qed

lemma mean_08_075_09:
  "num_div (num_add (num_add (num_add (Finite 0) (round_double (4 / 5))) (round_double (3 / 4)))
                    (round_double (9 / 10))) (Finite 3)
   = Finite (7355879391371811 / 2 ^ 53)"
  by (simp add: rdn)

lemma js_mean_08_075_09:
  "num_div (num_add (num_add (round_double (4 / 5)) (round_double (3 / 4))) (round_double (9 / 10)))
           (Finite 3)
   = Finite (7355879391371811 / 2 ^ 53)"
  by (simp add: rdn)

lemma floor_passed:
  "num_ge (round_double (4 / 5)) MIN_CONFIDENCE"
  "num_ge (round_double (3 / 4)) MIN_CONFIDENCE"
  "num_ge (round_double (9 / 10)) MIN_CONFIDENCE"
  "num_ge (round_double (4 / 5)) (round_double (7 / 10))"
  "num_ge (round_double (3 / 4)) (round_double (7 / 10))"
  "num_ge (round_double (9 / 10)) (round_double (7 / 10))"
  by (simp_all add: MIN_CONFIDENCE_def num_ge_def rdn)

section \<open>Attempts, verdicts and the floor\<close>

lemma floor_value: "round_double (7 / 10) = Finite (6305039478318694 / 2 ^ 53)"
  by (simp add: rdn)

lemma zero_below_floor: "\<not> num_ge (Finite 0) (round_double (7 / 10))"
  by (simp add: num_ge_def rdn)

lemma attempt_cases:
  "attempt parse pc =
     (case api_verdict parse pc of
        Some r \<Rightarrow> \<lparr>entry_provider = cfg_provider (fst pc), entry_response = r, entry_error = None\<rparr>
      | None \<Rightarrow>
         \<lparr>entry_provider = cfg_provider (fst pc),
          entry_response = \<lparr>optionATrue = False, optionBTrue = False, confidence = Finite 0,
                            reasoning = ''Provider error''\<rparr>,
          entry_error = entry_error (attempt parse pc)\<rparr>)"
  by (simp add: attempt_def api_verdict_def Let_def split: sum.splits)

lemma attempt_failed:
  assumes "api_verdict parse pc = None"
  shows "\<exists>e. entry_error (attempt parse pc) = Some (message e)
           \<and> (callLLMProvider_api (fst pc) (snd pc) = Inl e
                \<or> (\<exists>t. callLLMProvider_api (fst pc) (snd pc) = Inr t
                          \<and> parseOracleResponse parse t = Inl e))"
  using assms by (auto simp: attempt_def api_verdict_def Let_def split: sum.splits)

lemma attempt_valid_iff: "valid_entry (attempt parse pc) \<longleftrightarrow> api_accepted parse pc"
proof (cases "api_verdict parse pc")
  case None
  then have "confidence (entry_response (attempt parse pc)) = Finite 0"
    by (subst attempt_cases) simp
  then show ?thesis using None zero_below_floor by (simp add: valid_entry_def api_accepted_def)
next
  case (Some r)
  then have "attempt parse pc =
      \<lparr>entry_provider = cfg_provider (fst pc), entry_response = r, entry_error = None\<rparr>"
    by (subst attempt_cases) simp
  then show ?thesis using Some by (simp add: valid_entry_def api_accepted_def)
qed

lemma valid_attempts:
  "filter valid_entry (map (attempt parse) ps) = map (attempt parse) (filter (api_accepted parse) ps)"
  by (induction ps) (simp_all add: attempt_valid_iff)

lemma valid_attempts_keep:
  assumes "\<And>pc. pc \<in> set ps \<Longrightarrow> api_accepted parse pc \<Longrightarrow> K pc"
  shows "filter valid_entry (map (attempt parse) (filter K ps))
       = filter valid_entry (map (attempt parse) ps)"
proof -
  have "filter (api_accepted parse) (filter K ps) = filter (api_accepted parse) ps"
    using assms by (auto intro: filter_cong)
  then show ?thesis by (simp only: valid_attempts)
qed

lemma consensus_of_route:
  assumes "prompt \<noteq> []"
  shows "consensus_of (consensus_route parse prompt (Some ps)) =
     (let v = filter valid_entry (map (attempt parse) ps)
      in if v = [] then None
         else Some \<lparr>optionATrue = optionATrue (api_consensus [] v),
                    optionBTrue = optionBTrue (api_consensus [] v),
                    confidence = confidence (api_consensus [] v),
                    reasoning = reasoning (api_consensus [] v),
                    providers = providers (api_consensus [] v),
                    votes = votes (api_consensus [] v)\<rparr>)"
  using assms by (simp add: consensus_route_def consensus_of_def Let_def api_consensus_def)

lemma consensus_of_route_cong:
  assumes "prompt \<noteq> []"
    and "filter valid_entry (map (attempt parse) ps) = filter valid_entry (map (attempt parse) ps')"
  shows "consensus_of (consensus_route parse prompt (Some ps))
       = consensus_of (consensus_route parse prompt (Some ps'))"
  using assms by (simp add: consensus_of_route)

lemma route_body:
  assumes "consensus_route parse prompt pso = ConsensusOk body"
  obtains ps where "pso = Some ps" "prompt \<noteq> []"
    "filter valid_entry (map (attempt parse) ps) \<noteq> []"
    "body = api_consensus (map (attempt parse) ps) (filter valid_entry (map (attempt parse) ps))"
  using assms by (auto simp: consensus_route_def Let_def split: option.splits if_splits)

lemma collect_accepted:
  "map Some (collect parse world ps) =
     filter (\<lambda>v. case v of None \<Rightarrow> False | Some r \<Rightarrow> num_ge (confidence r) MIN_CONFIDENCE)
       (map (\<lambda>p. callLLMProvider parse (world p) p) ps)"
  by (induction ps) (simp_all split: option.splits)

lemma collect_keep:
  assumes "\<And>p. p \<in> set ps \<Longrightarrow> plugin_accepted parse world p \<Longrightarrow> K p"
  shows "collect parse world (filter K ps) = collect parse world ps"
  using assms by (induction ps) (auto simp: plugin_accepted_def split: option.splits)

lemma collect_empty_iff:
  "collect parse world ps = [] \<longleftrightarrow> \<not> (\<exists>p\<in>set ps. plugin_accepted parse world p)"
  by (induction ps) (auto simp: plugin_accepted_def split: option.splits)

lemma valid_empty_iff:
  "filter valid_entry (map (attempt parse) ps) = [] \<longleftrightarrow> \<not> (\<exists>pc\<in>set ps. api_accepted parse pc)"
  by (simp add: valid_attempts filter_empty_conv)

section \<open>The two outcomes of an evaluation\<close>

lemma required_fields_None_parse:
  assumes "jsonMatch t = Some m" "parse m = Inr v" "required_fields v = None"
  shows "isl (parseOracleResponse parse t)"
  using assms
  by (cases v)
     (auto simp: parseOracleResponse_def required_fields_def
           split: option.splits json.splits sum.splits)

lemma required_fields_None_call:
  assumes "io_generateText io = Inr t" "jsonMatch t = Some m" "parse m = Inr v"
    "required_fields v = None"
  shows "callLLMProvider parse io p = None"
  using assms
  by (cases v)
     (auto simp: callLLMProvider_def required_fields_def
           split: option.splits json.splits sum.splits)

lemma getConsensus_cases:
  "getConsensus parse world enabled =
     (if \<exists>p\<in>set (providersToUse enabled). plugin_accepted parse world p
      then Inr (reduce (collect parse world (providersToUse enabled)))
      else Inl (Error ''No valid responses received from AI providers''))"
  using collect_empty_iff [of parse world "providersToUse enabled"]
  by (simp add: getConsensus_def Let_def)

lemma route_cases:
  assumes "prompt \<noteq> []"
  shows "consensus_route parse prompt (Some ps) =
     (if \<exists>pc\<in>set ps. api_accepted parse pc
      then ConsensusOk (api_consensus (map (attempt parse) ps)
                          (filter valid_entry (map (attempt parse) ps)))
      else NoValidResponses ''No valid responses from providers'' (map (attempt parse) ps))"
  using valid_empty_iff [of parse ps] assms
  by (simp add: consensus_route_def Let_def)

lemma sample_accepted:
  "\<exists>pc\<in>set sample_calls. api_accepted sample_parse pc"
  "\<exists>q\<in>set (providersToUse None). plugin_accepted sample_parse world_one_answer q"
proof -
  have "filter valid_entry (map (attempt sample_parse) sample_calls) \<noteq> []"
    by (simp add: valid_samples)
  then show "\<exists>pc\<in>set sample_calls. api_accepted sample_parse pc"
    by (simp only: valid_empty_iff not_not)
  have "collect sample_parse world_one_answer (providersToUse None) \<noteq> []"
    by (simp add: providersToUse_def collect_one_answer)
  then show "\<exists>q\<in>set (providersToUse None). plugin_accepted sample_parse world_one_answer q"
    by (simp only: collect_empty_iff not_not)
qed

section \<open>The runs without an accepted verdict\<close>

lemma none_accepted:
  "\<not> (\<exists>q\<in>set (providersToUse None). plugin_accepted sample_parse world_no_keys q)"
  "\<not> (\<exists>q\<in>set (providersToUse None). plugin_accepted sample_parse world_throwing q)"
  by (simp_all add: plugin_accepted_def world_no_keys_def world_throwing_def call_samples)

lemma failing_attempts:
  "map (attempt sample_parse) failing_calls =
     [\<lparr>entry_provider = ''openai'',
       entry_response = \<lparr>optionATrue = False, optionBTrue = False, confidence = Finite 0,
                         reasoning = ''Provider error''\<rparr>,
       entry_error = Some ''fetch failed''\<rparr>,
      \<lparr>entry_provider = ''deepseek'',
       entry_response = \<lparr>optionATrue = False, optionBTrue = False, confidence = Finite 0,
                         reasoning = ''Provider error''\<rparr>,
       entry_error = Some ''No JSON found in response''\<rparr>]"
  by (simp add: failing_calls_def sample_calls_def attempt_def callLLMProvider_api_def
      parse_samples Let_def)

lemma failing_none_accepted: "\<not> (\<exists>pc\<in>set failing_calls. api_accepted sample_parse pc)"
proof -
  have "filter valid_entry (map (attempt sample_parse) failing_calls) = []"
    by (simp add: failing_attempts valid_entry_def)
  then show ?thesis using valid_empty_iff [of sample_parse failing_calls] by simp
qed

section \<open>What the regular expression matches\<close>

lemma greedy_close_None: "greedy_close cs = None \<longleftrightarrow> CHR ''}'' \<notin> set cs"
  by (induction cs) (auto split: option.splits)

lemma greedy_close_Some:
  "greedy_close cs = Some m \<longleftrightarrow>
     (\<exists>mid post. cs = mid @ CHR ''}'' # post \<and> CHR ''}'' \<notin> set post \<and> m = mid @ [CHR ''}''])"
proof (induction cs arbitrary: m)
  case Nil
  then show ?case by simp
next
  case (Cons c cs)
  show ?case
  proof (cases "greedy_close cs")
    case None
    then have no: "CHR ''}'' \<notin> set cs" by (simp add: greedy_close_None)
    show ?thesis
    proof
      assume "greedy_close (c # cs) = Some m"
      with None have "c = CHR ''}''" "m = [c]" by (auto split: if_splits)
      then have "c # cs = [] @ CHR ''}'' # cs \<and> CHR ''}'' \<notin> set cs \<and> m = [] @ [CHR ''}'']"
        using no by simp
      then show "\<exists>mid post. c # cs = mid @ CHR ''}'' # post \<and> CHR ''}'' \<notin> set post
          \<and> m = mid @ [CHR ''}'']" by blast
    next
      assume "\<exists>mid post. c # cs = mid @ CHR ''}'' # post \<and> CHR ''}'' \<notin> set post
          \<and> m = mid @ [CHR ''}'']"
      then obtain mid post where d: "c # cs = mid @ CHR ''}'' # post" "CHR ''}'' \<notin> set post"
        "m = mid @ [CHR ''}'']" by blast
      have "mid = []"
      proof (cases mid)
        case Nil then show ?thesis .
      next
        case (Cons a mid')
        with d(1) have "cs = mid' @ CHR ''}'' # post" by simp
        with no show ?thesis by simp
      qed
      with d show "greedy_close (c # cs) = Some m" using None by simp
    qed
  next
    case (Some m')
    then obtain mid post where d: "cs = mid @ CHR ''}'' # post" "CHR ''}'' \<notin> set post"
      "m' = mid @ [CHR ''}'']"
      using Cons.IH [of m'] by blast
    show ?thesis
    proof
      assume "greedy_close (c # cs) = Some m"
      with Some have "m = c # m'" by simp
      with d have "c # cs = (c # mid) @ CHR ''}'' # post \<and> CHR ''}'' \<notin> set post
          \<and> m = (c # mid) @ [CHR ''}'']" by simp
      then show "\<exists>mid post. c # cs = mid @ CHR ''}'' # post \<and> CHR ''}'' \<notin> set post
          \<and> m = mid @ [CHR ''}'']" by blast
    next
      assume "\<exists>mid post. c # cs = mid @ CHR ''}'' # post \<and> CHR ''}'' \<notin> set post
          \<and> m = mid @ [CHR ''}'']"
      then obtain mid2 post2 where e: "c # cs = mid2 @ CHR ''}'' # post2"
        "CHR ''}'' \<notin> set post2" "m = mid2 @ [CHR ''}'']" by blast
      have "mid2 \<noteq> []"
      proof
        assume "mid2 = []"
        with e(1) have "cs = post2" by simp
        with e(2) d(1) show False by simp
      qed
      then obtain mid3 where m3: "mid2 = c # mid3" using e(1) by (cases mid2) auto
      with e(1) have "cs = mid3 @ CHR ''}'' # post2" by simp
      with e(2) have "greedy_close cs = Some (mid3 @ [CHR ''}''])"
        using Cons.IH [of "mid3 @ [CHR ''}'']"] by blast
      with Some have "m' = mid3 @ [CHR ''}'']" by simp
      with Some e(3) m3 show "greedy_close (c # cs) = Some m" by simp
    qed
  qed
qed

lemma jsonMatch_Some:
  "jsonMatch str = Some m \<longleftrightarrow>
     (\<exists>pre mid post. str = pre @ CHR ''{'' # mid @ CHR ''}'' # post
        \<and> CHR ''{'' \<notin> set pre \<and> CHR ''}'' \<notin> set post
        \<and> m = CHR ''{'' # mid @ [CHR ''}''])"
proof (induction str)
  case Nil
  then show ?case by simp
next
  case (Cons c cs)
  show ?case
  proof (cases "c = CHR ''{''")
    case False
    show ?thesis
    proof
      assume "jsonMatch (c # cs) = Some m"
      with False have "jsonMatch cs = Some m" by simp
      then obtain pre mid post where d: "cs = pre @ CHR ''{'' # mid @ CHR ''}'' # post"
        "CHR ''{'' \<notin> set pre" "CHR ''}'' \<notin> set post" "m = CHR ''{'' # mid @ [CHR ''}'']"
        using Cons.IH by blast
      then have "c # cs = (c # pre) @ CHR ''{'' # mid @ CHR ''}'' # post
          \<and> CHR ''{'' \<notin> set (c # pre) \<and> CHR ''}'' \<notin> set post
          \<and> m = CHR ''{'' # mid @ [CHR ''}'']"
        using False by auto
      then show "\<exists>pre mid post. c # cs = pre @ CHR ''{'' # mid @ CHR ''}'' # post
          \<and> CHR ''{'' \<notin> set pre \<and> CHR ''}'' \<notin> set post
          \<and> m = CHR ''{'' # mid @ [CHR ''}'']" by blast
    next
      assume "\<exists>pre mid post. c # cs = pre @ CHR ''{'' # mid @ CHR ''}'' # post
          \<and> CHR ''{'' \<notin> set pre \<and> CHR ''}'' \<notin> set post
          \<and> m = CHR ''{'' # mid @ [CHR ''}'']"
      then obtain pre mid post where d: "c # cs = pre @ CHR ''{'' # mid @ CHR ''}'' # post"
        "CHR ''{'' \<notin> set pre" "CHR ''}'' \<notin> set post" "m = CHR ''{'' # mid @ [CHR ''}'']"
        by blast
      from d(1) False obtain pre' where p: "pre = c # pre'" by (cases pre) auto
      with d have "cs = pre' @ CHR ''{'' # mid @ CHR ''}'' # post" "CHR ''{'' \<notin> set pre'"
        by auto
      with d(3,4) have "jsonMatch cs = Some m" using Cons.IH by blast
      with False show "jsonMatch (c # cs) = Some m" by simp
    qed
  next
    case True
    show ?thesis
    proof
      assume a: "jsonMatch (c # cs) = Some m"
      show "\<exists>pre mid post. c # cs = pre @ CHR ''{'' # mid @ CHR ''}'' # post
          \<and> CHR ''{'' \<notin> set pre \<and> CHR ''}'' \<notin> set post
          \<and> m = CHR ''{'' # mid @ [CHR ''}'']"
      proof (cases "greedy_close cs")
        case None
        with a True have "jsonMatch cs = Some m" by simp
        then obtain pre mid post where "cs = pre @ CHR ''{'' # mid @ CHR ''}'' # post"
          using Cons.IH by blast
        then have "CHR ''}'' \<in> set cs" by simp
        with None show ?thesis by (simp add: greedy_close_None)
      next
        case (Some m')
        then obtain mid post where d: "cs = mid @ CHR ''}'' # post" "CHR ''}'' \<notin> set post"
          "m' = mid @ [CHR ''}'']"
          using greedy_close_Some [of cs m'] by blast
        from a True Some have "m = c # m'" by simp
        with d True have "c # cs = [] @ CHR ''{'' # mid @ CHR ''}'' # post
            \<and> CHR ''{'' \<notin> set [] \<and> CHR ''}'' \<notin> set post
            \<and> m = CHR ''{'' # mid @ [CHR ''}'']" by simp
        then show ?thesis by blast
      qed
    next
      assume "\<exists>pre mid post. c # cs = pre @ CHR ''{'' # mid @ CHR ''}'' # post
          \<and> CHR ''{'' \<notin> set pre \<and> CHR ''}'' \<notin> set post
          \<and> m = CHR ''{'' # mid @ [CHR ''}'']"
      then obtain pre mid post where d: "c # cs = pre @ CHR ''{'' # mid @ CHR ''}'' # post"
        "CHR ''{'' \<notin> set pre" "CHR ''}'' \<notin> set post" "m = CHR ''{'' # mid @ [CHR ''}'']"
        by blast
      have "pre = []"
      proof (cases pre)
        case Nil then show ?thesis .
      next
        case (Cons a pre')
        with d(1) have "a = c" by simp
        with Cons d(2) True show ?thesis by simp
      qed
      with d(1) have "cs = mid @ CHR ''}'' # post" by simp
      with d(3) have "greedy_close cs = Some (mid @ [CHR ''}''])"
        using greedy_close_Some [of cs "mid @ [CHR ''}'']"] by blast
      with True d(4) show "jsonMatch (c # cs) = Some m" by simp
    qed
  qed
qed

lemma jsonMatch_None:
  "jsonMatch str = None \<longleftrightarrow>
     \<not> (\<exists>pre mid post. str = pre @ CHR ''{'' # mid @ CHR ''}'' # post)"
proof
  assume n: "jsonMatch str = None"
  show "\<not> (\<exists>pre mid post. str = pre @ CHR ''{'' # mid @ CHR ''}'' # post)"
  proof
    assume "\<exists>pre mid post. str = pre @ CHR ''{'' # mid @ CHR ''}'' # post"
    then obtain pre mid post where d: "str = pre @ CHR ''{'' # mid @ CHR ''}'' # post" by blast
    have "\<exists>m. jsonMatch str = Some m" unfolding d
    proof (induction pre)
      case Nil
      have "CHR ''}'' \<in> set (mid @ CHR ''}'' # post)" by simp
      then obtain m' where "greedy_close (mid @ CHR ''}'' # post) = Some m'"
        using greedy_close_None [of "mid @ CHR ''}'' # post"] by (cases "greedy_close (mid @ CHR ''}'' # post)") auto
      then show ?case by simp
    next
      case (Cons a pre)
      then obtain m where m: "jsonMatch (pre @ CHR ''{'' # mid @ CHR ''}'' # post) = Some m" by blast
      have "CHR ''}'' \<in> set (pre @ CHR ''{'' # mid @ CHR ''}'' # post)" by simp
      then obtain m' where "greedy_close (pre @ CHR ''{'' # mid @ CHR ''}'' # post) = Some m'"
        using greedy_close_None [of "pre @ CHR ''{'' # mid @ CHR ''}'' # post"]
        by (cases "greedy_close (pre @ CHR ''{'' # mid @ CHR ''}'' # post)") auto
      with m show ?case by simp
    qed
    with n show False by simp
  qed
next
  assume "\<not> (\<exists>pre mid post. str = pre @ CHR ''{'' # mid @ CHR ''}'' # post)"
  then show "jsonMatch str = None"
    using jsonMatch_Some [of str] by (cases "jsonMatch str") auto
qed

section \<open>The parser on a parsed value\<close>

lemma required_fields_Some:
  assumes "required_fields v = Some (a, b, c, r)"
  shows "get_prop v ''optionATrue'' = Inr (Some (JBool a))"
    "get_prop v ''optionBTrue'' = Inr (Some (JBool b))"
    "get_prop v ''confidence'' = Inr (Some (JNumber c))"
    "get_prop v ''reasoning'' = Inr (Some (JString r))"
  using assms
  by (auto simp: required_fields_def split: sum.splits option.splits json.splits)

lemma get_prop_not_null: "v \<noteq> JNull \<Longrightarrow> \<exists>x. get_prop v k = Inr x"
  by (cases v) simp_all

lemma invalid_structure:
  assumes "jsonMatch str = Some m" "parse m = Inr v" "v \<noteq> JNull" "required_fields v = None"
  shows "parseOracleResponse parse str = Inl (Error ''Invalid response structure'')"
proof -
  obtain x1 x2 x3 x4 where g: "get_prop v ''optionATrue'' = Inr x1"
    "get_prop v ''optionBTrue'' = Inr x2" "get_prop v ''confidence'' = Inr x3"
    "get_prop v ''reasoning'' = Inr x4"
    using get_prop_not_null [OF assms(3)] by metis
  show ?thesis
    using assms(1,2,4) g
    by (auto simp: parseOracleResponse_def required_fields_def
          split: option.splits json.splits)
qed

lemma service_confidence_range:
  assumes "parseOracleResponse parse str = Inr r"
  shows "num_le (Finite 0) (confidence r) \<and> num_le (confidence r) (Finite 1)"
proof -
  have clamp: "num_le (Finite 0) (Math_max (Finite 0) (Math_min (Finite 1) x))
      \<and> num_le (Math_max (Finite 0) (Math_min (Finite 1) x)) (Finite 1)" if "x \<noteq> NaN" for x
    using that by (cases x) auto
  from assms obtain c where "confidence r = Math_max (Finite 0) (Math_min (Finite 1) (round_double c))"
    by (auto simp: parseOracleResponse_def split: option.splits sum.splits json.splits)
  then show ?thesis using clamp [OF round_double_not_NaN [of c]] by simp
qed

section \<open>Rounding error of the mean\<close>



lemma bernoulli_lower:
  assumes "0 \<le> (u::rat)" "u \<le> 1"
  shows "1 - of_nat n * u \<le> (1 - u) ^ n"
proof (induction n)
  case 0
  then show ?case by simp
next
  case (Suc n)
  have "1 - of_nat (Suc n) * u \<le> (1 - of_nat n * u) * (1 - u)"
    using assms by (simp add: algebra_simps)
  also have "\<dots> \<le> (1 - u) ^ n * (1 - u)"
    using Suc assms by (intro mult_right_mono) simp_all
  finally show ?case by (simp add: mult.commute)
qed



lemma shrink_at_least_half:
  assumes "n \<le> 2 ^ 32"
  shows "(1 / 2 :: rat) \<le> (1 - 1 / 2 ^ 53) ^ n"
proof -
  have "(of_nat n :: rat) \<le> 2 ^ 32" using assms by (metis of_nat_le_iff of_nat_numeral of_nat_power)
  then have "(of_nat n :: rat) * (1 / 2 ^ 53) \<le> 2 ^ 32 * (1 / 2 ^ 53)"
    by (intro mult_right_mono) simp_all
  also have "\<dots> \<le> 1 / 2" by simp
  finally have "1 / 2 \<le> 1 - (of_nat n :: rat) * (1 / 2 ^ 53)" by simp
  also have "\<dots> \<le> (1 - 1 / 2 ^ 53) ^ n"
    by (rule bernoulli_lower) simp_all
  finally show ?thesis .
qed



section \<open>The runs at the floor\<close>







section \<open>The mean within its rounding band\<close>

lemma round_double_finite:
  assumes "2 powi (- 1022) \<le> (y::rat)" "y \<le> 2 powi 1023"
  shows "\<exists>r. round_double y = Finite r \<and> y * (1 - 1 / 2 ^ 53) \<le> r \<and> r \<le> y * (1 + 1 / 2 ^ 53)"
proof -
  have u: "(2::rat) powi (- 53) = 1 / 2 ^ 53" by (simp add: power_int_minus)
  have y0: "0 < y"
  proof -
    have "0 < (2::rat) powi (- 1022)" by (rule zero_less_power_int) simp
    with assms(1) show ?thesis by linarith
  qed
  define ulp :: rat where "ulp = 2 powi (ilog2 y - 52)"
  define cand where "cand = of_int (round_half_even (y / ulp)) * ulp"
  have e: "max (ilog2 y) (- 1022) = ilog2 y" using ilog2_normal [OF assms(1)] by simp
  have u0: "0 < ulp" by (simp add: ulp_def)
  have "of_int (round_half_even (y / ulp)) \<le> y / ulp + 1 / 2" by (rule rhe_upper)
  then have "cand \<le> (y / ulp + 1 / 2) * ulp"
    unfolding cand_def using u0 by (simp only: mult_right_mono less_imp_le)
  moreover have "(y / ulp + 1 / 2) * ulp = y + ulp / 2" using u0 by (simp add: field_simps)
  moreover have "ulp / 2 \<le> y * 2 powi (- 53)" unfolding ulp_def by (rule half_ulp [OF y0])
  ultimately have up: "cand \<le> y * (1 + 2 powi (- 53))" by (simp add: algebra_simps)
  have "y * (1 + 2 powi (- 53)) \<le> 2 powi 1023 * (1 + 2 powi (- 53))"
    using assms(2) by (intro mult_right_mono) simp_all
  also have "\<dots> < 2 powi 1023 * (2::rat)"
    by (intro mult_strict_left_mono) (simp_all add: power_int_minus)
  also have "\<dots> = 2 powi 1024" by simp
  finally have small: "cand < 2 powi 1024" using up by linarith
  from y0 show ?thesis
  proof (cases rule: round_double_pos_cases)
    case 1
    have "round_double y \<noteq> PosInf"
      unfolding round_double_def Let_def
      using y0 small by (simp only: e abs_of_pos if_False cand_def ulp_def) (simp add: not_le)
    with 1 show ?thesis by simp
  next
    case (2 r)
    have lo: "y * (1 - 1 / 2 ^ 53) \<le> r"
      using round_double_lower [OF assms(1)] 2(1) by (simp add: u)
    have "r \<le> y * (1 + 2 powi (- 53))" using round_double_upper [OF assms(1) 2(1)] .
    with lo 2(1) show ?thesis by (simp add: u)
  qed
qed

text \<open>
  The sum and the mean of finite numbers between \<open>c\<close> and an upper limit, within the
  accumulated relative error, for any rounding with relative error \<open>u\<close> between
  \<open>w\<close> and \<open>W\<close>.
\<close>

lemma sum_band_gen:
  fixes u w W c a :: rat
  assumes u: "0 < u" "u < 1" and w: "0 < w"
    and R: "\<And>y. w \<le> y \<Longrightarrow> y \<le> W \<Longrightarrow>
              \<exists>r. round_double y = Finite r \<and> y * (1 - u) \<le> r \<and> r \<le> y * (1 + u)"
    and c: "w \<le> c"
    and "\<forall>x\<in>set xs. c \<le> x" "0 \<le> a" "(a + sum_list xs) * (1 + u) ^ length xs \<le> W"
  shows "\<exists>t. foldl num_add (Finite a) (map Finite xs) = Finite t
           \<and> (a + sum_list xs) * (1 - u) ^ length xs \<le> t
           \<and> t \<le> (a + sum_list xs) * (1 + u) ^ length xs"
  using assms(6-)
proof (induction xs arbitrary: a)
  case Nil
  then show ?case by simp
next
  case (Cons x xs)
  let ?n = "length xs"
  let ?S = "sum_list xs"
  have c0: "0 < c" using w c by linarith
  have x: "c \<le> x" and rest: "\<forall>x\<in>set xs. c \<le> x" using Cons.prems(1) by simp_all
  have S0: "0 \<le> ?S" using rest c0 by (intro sum_list_nonneg) force
  define y where "y = a + x"
  have y0: "0 < y" "w \<le> y" using x c c0 Cons.prems(2) by (simp_all add: y_def)
  have p1: "1 \<le> (1 + u) ^ Suc ?n" using u by (intro one_le_power) simp
  have W: "(y + ?S) * (1 + u) ^ Suc ?n \<le> W" using Cons.prems(3) by (simp add: y_def add.assoc)
  have "y \<le> y + ?S" using S0 by simp
  also have "\<dots> = (y + ?S) * 1" by simp
  also have "\<dots> \<le> (y + ?S) * (1 + u) ^ Suc ?n"
    using p1 y0 S0 by (intro mult_left_mono) simp_all
  finally have "y \<le> W" using W by linarith
  from R [OF y0(2) this] obtain t1 where t1: "round_double y = Finite t1"
    "y * (1 - u) \<le> t1" "t1 \<le> y * (1 + u)" by blast
  have t10: "0 \<le> t1"
  proof -
    have "0 \<le> y * (1 - u)" using y0 u by simp
    with t1(2) show ?thesis by linarith
  qed
  have pn: "0 \<le> (1 + u) ^ ?n" "0 \<le> (1 - u) ^ ?n" using u by simp_all
  have up1: "t1 + ?S \<le> (y + ?S) * (1 + u)"
  proof -
    have "0 \<le> ?S * u" using S0 u by simp
    with t1(3) show ?thesis by (simp add: algebra_simps)
  qed
  have lo1: "(y + ?S) * (1 - u) \<le> t1 + ?S"
  proof -
    have "0 \<le> ?S * u" using S0 u by simp
    with t1(2) show ?thesis by (simp add: algebra_simps)
  qed
  have up2: "(t1 + ?S) * (1 + u) ^ ?n \<le> (y + ?S) * (1 + u) ^ Suc ?n"
  proof -
    have "(t1 + ?S) * (1 + u) ^ ?n \<le> (y + ?S) * (1 + u) * (1 + u) ^ ?n"
      using up1 pn(1) by (rule mult_right_mono)
    then show ?thesis by (simp add: mult.assoc)
  qed
  have lo2: "(y + ?S) * (1 - u) ^ Suc ?n \<le> (t1 + ?S) * (1 - u) ^ ?n"
  proof -
    have "(y + ?S) * (1 - u) * (1 - u) ^ ?n \<le> (t1 + ?S) * (1 - u) ^ ?n"
      using lo1 pn(2) by (rule mult_right_mono)
    then show ?thesis by (simp add: mult.assoc)
  qed
  have "(t1 + ?S) * (1 + u) ^ ?n \<le> W" using up2 W by linarith
  from Cons.IH [OF rest t10 this] obtain t where t:
    "foldl num_add (Finite t1) (map Finite xs) = Finite t"
    "(t1 + ?S) * (1 - u) ^ ?n \<le> t" "t \<le> (t1 + ?S) * (1 + u) ^ ?n" by blast
  have "foldl num_add (Finite a) (map Finite (x # xs)) = Finite t"
    using t(1) t1(1) by (simp add: y_def)
  moreover have "(a + sum_list (x # xs)) * (1 - u) ^ length (x # xs) \<le> t"
    using lo2 t(2) by (simp add: y_def add.assoc)
  moreover have "t \<le> (a + sum_list (x # xs)) * (1 + u) ^ length (x # xs)"
    using up2 t(3) by (simp add: y_def add.assoc)
  ultimately show ?case by blast
qed

lemma mean_band_gen:
  fixes u w W c :: rat
  assumes u: "0 < u" "u < 1" and w: "0 < w"
    and R: "\<And>y. w \<le> y \<Longrightarrow> y \<le> W \<Longrightarrow>
              \<exists>r. round_double y = Finite r \<and> y * (1 - u) \<le> r \<and> r \<le> y * (1 + u)"
    and c: "2 * w \<le> c" and ne: "xs \<noteq> []" and half: "1 / 2 \<le> (1 - u) ^ length xs"
    and all: "\<forall>x\<in>set xs. c \<le> x" and W: "sum_list xs * (1 + u) ^ length xs \<le> W"
  shows "\<exists>r. num_div (foldl num_add (Finite 0) (map Finite xs)) (of_count (length xs)) = Finite r
           \<and> sum_list xs / of_nat (length xs) * (1 - u) ^ (length xs + 1) \<le> r
           \<and> r \<le> sum_list xs / of_nat (length xs) * (1 + u) ^ (length xs + 1)"
proof -
  let ?n = "length xs"
  let ?S = "sum_list xs"
  let ?N = "of_nat ?n :: rat"
  have c1: "w \<le> c" and c0: "0 < c" using c w by linarith+
  have n0: "0 < ?n" using ne by simp
  then have N1: "1 \<le> ?N" by (simp add: Suc_leI)
  have N0: "0 < ?N" using n0 by simp
  from sum_band_gen [where a = 0, OF u w R c1 all] W obtain t where t:
    "foldl num_add (Finite 0) (map Finite xs) = Finite t"
    "?S * (1 - u) ^ ?n \<le> t" "t \<le> ?S * (1 + u) ^ ?n" by auto
  have Sn: "?N * c \<le> ?S" using all by (induction xs) (auto simp: algebra_simps)
  have pn: "0 \<le> (1 - u) ^ ?n" using u by simp
  have "?N * c * (1 - u) ^ ?n \<le> ?S * (1 - u) ^ ?n" using Sn pn by (rule mult_right_mono)
  then have "?N * (c * (1 - u) ^ ?n) \<le> t" using t(2) by (simp add: mult.assoc)
  then have q: "c * (1 - u) ^ ?n \<le> t / ?N"
    using N0 by (simp add: pos_le_divide_eq mult.commute)
  have "c * (1 / 2) \<le> c * (1 - u) ^ ?n" using half c0 by (intro mult_left_mono) simp_all
  then have lo: "w \<le> t / ?N" using q c by linarith
  have "0 \<le> ?N * c" using c0 by simp
  with Sn have "0 \<le> ?S" by linarith
  then have "0 \<le> ?S * (1 - u) ^ ?n" using pn by simp
  with t(2) have t0: "0 \<le> t" by linarith
  have "t / ?N \<le> t / 1" using t0 N1 ne by (intro divide_left_mono) simp_all
  then have "t / ?N \<le> t" by simp
  then have hi: "t / ?N \<le> W" using t(3) W by linarith
  from R [OF lo hi] obtain r where r: "round_double (t / ?N) = Finite r"
    "t / ?N * (1 - u) \<le> r" "r \<le> t / ?N * (1 + u)" by blast
  have d: "num_div (foldl num_add (Finite 0) (map Finite xs)) (of_count ?n) = Finite r"
    using t(1) r(1) n0 by (simp add: of_count_def)
  have "?S * (1 - u) ^ ?n / ?N \<le> t / ?N" using t(2) N0 by (simp add: divide_right_mono)
  then have "?S * (1 - u) ^ ?n / ?N * (1 - u) \<le> t / ?N * (1 - u)"
    using u by (intro mult_right_mono) simp_all
  then have l: "?S / ?N * (1 - u) ^ (?n + 1) \<le> r" using r(2) by (simp add: field_simps)
  have "t / ?N \<le> ?S * (1 + u) ^ ?n / ?N" using t(3) N0 by (simp add: divide_right_mono)
  then have "t / ?N * (1 + u) \<le> ?S * (1 + u) ^ ?n / ?N * (1 + u)"
    using u by (intro mult_right_mono) simp_all
  then have h: "r \<le> ?S / ?N * (1 + u) ^ (?n + 1)" using r(3) by (simp add: field_simps)
  from d l h show ?thesis by blast
qed

lemma grow_at_most_double:
  assumes "n \<le> 2 ^ 32"
  shows "(1 + 1 / 2 ^ 53 :: rat) ^ n \<le> 2"
proof -
  let ?u = "1 / 2 ^ 53 :: rat"
  have "((1 + ?u) * (1 - ?u)) ^ n \<le> 1" by (intro power_le_one) simp_all
  then have "(1 + ?u) ^ n * (1 - ?u) ^ n \<le> 1" by (simp only: power_mult_distrib)
  moreover have "1 / 2 \<le> (1 - ?u) ^ n" by (rule shrink_at_least_half [OF assms])
  moreover have "0 \<le> (1 + ?u) ^ n" by simp
  ultimately have "(1 + ?u) ^ n * (1 / 2) \<le> 1"
    by (meson mult_left_mono order_trans)
  then show ?thesis by simp
qed

lemma mean_band:
  fixes xs :: "rat list"
  assumes "xs \<noteq> []" "length xs \<le> 2 ^ 32"
    and "\<forall>x\<in>set xs. 6305039478318694 / 2 ^ 53 \<le> x \<and> x \<le> 1"
  shows "\<exists>r. num_div (foldl num_add (Finite 0) (map Finite xs)) (of_count (length xs)) = Finite r
           \<and> sum_list xs / of_nat (length xs) * (1 - 1 / 2 ^ 53) ^ (length xs + 1) \<le> r
           \<and> r \<le> sum_list xs / of_nat (length xs) * (1 + 1 / 2 ^ 53) ^ (length xs + 1)"
proof (rule mean_band_gen [where w = "2 powi (- 1022)" and W = "2 powi 1023"
      and c = "6305039478318694 / 2 ^ 53"])
  show "(0::rat) < 1 / 2 ^ 53" "(1::rat) / 2 ^ 53 < 1" by simp_all
  show "(0::rat) < 2 powi (- 1022)" by (rule zero_less_power_int) simp
  show "\<exists>r. round_double y = Finite r \<and> y * (1 - 1 / 2 ^ 53) \<le> r \<and> r \<le> y * (1 + 1 / 2 ^ 53)"
    if "2 powi (- 1022) \<le> y" "y \<le> 2 powi 1023" for y
    using that by (rule round_double_finite)
  have "(2::rat) * 2 powi (- 1022) = 2 powi (- 1021)"
    by (simp add: power_int_minus)
  also have "\<dots> \<le> 2 powi (- 1)" by (rule power_int_increasing) simp_all
  also have "\<dots> \<le> 6305039478318694 / 2 ^ 53" by (simp add: power_int_minus)
  finally show "(2::rat) * 2 powi (- 1022) \<le> 6305039478318694 / 2 ^ 53" .
  show "xs \<noteq> []" by (rule assms(1))
  show "1 / 2 \<le> (1 - 1 / 2 ^ 53 :: rat) ^ length xs"
    by (rule shrink_at_least_half [OF assms(2)])
  show "\<forall>x\<in>set xs. 6305039478318694 / 2 ^ 53 \<le> x" using assms(3) by simp
  have "sum_list xs \<le> of_nat (length xs)" using assms(3) by (induction xs) auto
  also have "\<dots> \<le> 2 ^ 32" using assms(2) by (metis of_nat_le_iff of_nat_numeral of_nat_power)
  finally have S: "sum_list xs \<le> 2 ^ 32" .
  have S0: "0 \<le> sum_list xs" using assms(3) by (intro sum_list_nonneg) force
  have "sum_list xs * (1 + 1 / 2 ^ 53) ^ length xs \<le> 2 ^ 32 * 2"
    using S S0 grow_at_most_double [OF assms(2)] by (intro mult_mono) simp_all
  also have "\<dots> = (2::rat) powi 33" by simp
  also have "\<dots> \<le> 2 powi 1023" by (rule power_int_increasing) simp_all
  finally show "sum_list xs * (1 + 1 / 2 ^ 53) ^ length xs \<le> 2 powi 1023" .
qed

section \<open>Collecting in another order\<close>

lemma filter_length_perm: "mset xs = mset ys \<Longrightarrow> length (filter P xs) = length (filter P ys)"
  by (metis mset_filter size_mset)

lemma map_perm: "mset xs = mset ys \<Longrightarrow> mset (map f xs) = mset (map f ys)"
  by (metis mset_map)

lemma sum_list_perm:
  fixes f :: "'a \<Rightarrow> rat"
  shows "mset xs = mset ys \<Longrightarrow> sum_list (map f xs) = sum_list (map f ys)"
  by (metis mset_map sum_mset_sum_list)

lemma in_range_Finite: "in_range c \<Longrightarrow> c = Finite (exact c)"
  by (cases c) (simp_all add: in_range_def)

lemma in_range_bounds:
  "in_range c \<Longrightarrow> 6305039478318694 / 2 ^ 53 \<le> exact c \<and> exact c \<le> 1"
  by (cases c) (simp_all add: in_range_def)

lemma mean_band_numbers:
  assumes "cs \<noteq> []" "length cs \<le> 2 ^ 32" "list_all in_range cs"
  shows "\<exists>r. num_div (foldl num_add (Finite 0) cs) (of_count (length cs)) = Finite r
     \<and> sum_list (map exact cs) / of_nat (length cs) * (1 - 1 / 2 ^ 53) ^ (length cs + 1) \<le> r
     \<and> r \<le> sum_list (map exact cs) / of_nat (length cs) * (1 + 1 / 2 ^ 53) ^ (length cs + 1)"
proof -
  have cs: "cs = map Finite (map exact cs)"
    using assms(3) by (induction cs) (auto dest: in_range_Finite)
  have "6305039478318694 / 2 ^ 53 \<le> x \<and> x \<le> 1" if "x \<in> set (map exact cs)" for x
  proof -
    from that obtain c where c: "c \<in> set cs" "x = exact c" by auto
    with assms(3) have "in_range c" by (simp add: list_all_iff)
    then show ?thesis unfolding c(2) by (rule in_range_bounds)
  qed
  then have "\<forall>x\<in>set (map exact cs). 6305039478318694 / 2 ^ 53 \<le> x \<and> x \<le> 1" by blast
  from mean_band [of "map exact cs", OF _ _ this] assms(1,2)
  have "\<exists>r. num_div (foldl num_add (Finite 0) (map Finite (map exact cs)))
              (of_count (length (map exact cs))) = Finite r
     \<and> sum_list (map exact cs) / of_nat (length (map exact cs))
          * (1 - 1 / 2 ^ 53) ^ (length (map exact cs) + 1) \<le> r
     \<and> r \<le> sum_list (map exact cs) / of_nat (length (map exact cs))
          * (1 + 1 / 2 ^ 53) ^ (length (map exact cs) + 1)"
    by simp
  then show ?thesis using cs by (simp only: length_map)
qed


lemma reduce_perm:
  assumes "mset xs = mset ys"
  shows "votes (reduce xs) = votes (reduce ys)"
    "optionATrue (reduce xs) = optionATrue (reduce ys)"
    "optionBTrue (reduce xs) = optionBTrue (reduce ys)"
    "mset (providers (reduce xs)) = mset (providers (reduce ys))"
proof -
  show v: "votes (reduce xs) = votes (reduce ys)"
    using filter_length_perm [OF assms] by (simp add: reduce_votes)
  show "optionATrue (reduce xs) = optionATrue (reduce ys)"
    "optionBTrue (reduce xs) = optionBTrue (reduce ys)"
    by (simp_all add: reduce_flags v)
  show "mset (providers (reduce xs)) = mset (providers (reduce ys))"
    using map_perm [OF assms] by (simp add: reduce_providers)
qed

lemma api_perm:
  assumes "mset es = mset fs"
  shows "votes (api_consensus all es) = votes (api_consensus all' fs)"
    "optionATrue (api_consensus all es) = optionATrue (api_consensus all' fs)"
    "optionBTrue (api_consensus all es) = optionBTrue (api_consensus all' fs)"
    "mset (providers (api_consensus all es)) = mset (providers (api_consensus all' fs))"
proof -
  have l: "length es = length fs" using assms by (rule mset_eq_length)
  show v: "votes (api_consensus all es) = votes (api_consensus all' fs)"
    using filter_length_perm [OF assms] by (simp add: api_votes)
  show "optionATrue (api_consensus all es) = optionATrue (api_consensus all' fs)"
    "optionBTrue (api_consensus all es) = optionBTrue (api_consensus all' fs)"
    by (simp_all add: api_flags v l)
  show "mset (providers (api_consensus all es)) = mset (providers (api_consensus all' fs))"
    using map_perm [OF assms] by (simp add: api_providers)
qed

lemma band_perm:
  fixes cs ds :: "number list"
  assumes "mset cs = mset ds" "cs \<noteq> []" "length cs \<le> 2 ^ 32" "list_all in_range cs"
  shows "\<exists>a b. num_div (foldl num_add (Finite 0) cs) (of_count (length cs)) = Finite a
     \<and> num_div (foldl num_add (Finite 0) ds) (of_count (length ds)) = Finite b
     \<and> sum_list (map exact cs) / of_nat (length cs) * (1 - 1 / 2 ^ 53) ^ (length cs + 1) \<le> a
     \<and> a \<le> sum_list (map exact cs) / of_nat (length cs) * (1 + 1 / 2 ^ 53) ^ (length cs + 1)
     \<and> sum_list (map exact cs) / of_nat (length cs) * (1 - 1 / 2 ^ 53) ^ (length cs + 1) \<le> b
     \<and> b \<le> sum_list (map exact cs) / of_nat (length cs) * (1 + 1 / 2 ^ 53) ^ (length cs + 1)"
proof -
  have l: "length ds = length cs" using assms(1) by (metis mset_eq_length)
  have s: "sum_list (map exact ds) = sum_list (map exact cs)"
    using sum_list_perm [OF assms(1)] by simp
  have "set ds = set cs" using assms(1) by (metis mset_eq_setD)
  then have d: "ds \<noteq> []" "length ds \<le> 2 ^ 32" "list_all in_range ds"
    using assms(2-) l by (auto simp: list_all_iff)
  from mean_band_numbers [OF assms(2-)] mean_band_numbers [OF d] show ?thesis
    unfolding l s by blast
qed

lemma orders_perm: "mset order_a = mset order_b" "mset entries_a = mset entries_b"
  by (simp_all add: order_a_def order_b_def entries_a_def entries_b_def)

lemma orders_in_range:
  "list_all (\<lambda>r. in_range (confidence r)) order_a"
  "list_all (\<lambda>e. in_range (confidence (entry_response e))) entries_a"
  by (simp_all add: order_a_def entries_a_def verdict_def entry_def in_range_def rdn)

section \<open>The consensus sets\<close>

lemma collect_consensus_set:
  "collect parse world ps = plugin_consensus_set parse world ps"
  by (induction ps)
     (simp_all add: plugin_consensus_set_def plugin_verdicts_def map_filter_simps
        split: option.splits)

lemma valid_consensus_set:
  "filter valid_entry (map (attempt parse) ps) =
     map (\<lambda>v. \<lparr>entry_provider = fst v, entry_response = snd v, entry_error = None\<rparr>)
       (api_consensus_set parse ps)"
proof (induction ps)
  case Nil
  show ?case by (simp add: api_consensus_set_def api_verdicts_def map_filter_simps)
next
  case (Cons pc ps)
  show ?case
  proof (cases "api_verdict parse pc")
    case None
    then have "\<not> valid_entry (attempt parse pc)"
      by (simp add: attempt_valid_iff api_accepted_def)
    moreover have "api_consensus_set parse (pc # ps) = api_consensus_set parse ps"
      using None by (simp add: api_consensus_set_def api_verdicts_def map_filter_simps)
    ultimately show ?thesis using Cons by simp
  next
    case (Some r)
    then have a: "attempt parse pc =
        \<lparr>entry_provider = cfg_provider (fst pc), entry_response = r, entry_error = None\<rparr>"
      by (subst attempt_cases) simp
    have v: "valid_entry (attempt parse pc) \<longleftrightarrow> num_ge (confidence r) (round_double (7 / 10))"
      using Some by (simp add: attempt_valid_iff api_accepted_def)
    have s: "api_consensus_set parse (pc # ps) =
        (if num_ge (confidence r) (round_double (7 / 10))
         then (cfg_provider (fst pc), r) # api_consensus_set parse ps
         else api_consensus_set parse ps)"
      using Some by (simp add: api_consensus_set_def api_verdicts_def map_filter_simps)
    show ?thesis using Cons by (simp add: a s valid_entry_def)
  qed
qed

lemma route_closed:
  assumes "consensus_route parse prompt (Some ps) = ConsensusOk body"
  shows "providers body = map fst (api_consensus_set parse ps)"
    and "votes body =
       \<lparr>optionA = length (filter (\<lambda>v. optionATrue (snd v) \<and> \<not> optionBTrue (snd v))
                            (api_consensus_set parse ps)),
        optionB = length (filter (\<lambda>v. optionBTrue (snd v) \<and> \<not> optionATrue (snd v))
                            (api_consensus_set parse ps))\<rparr>"
    and "confidence body =
       num_div (foldl num_add (Finite 0) (map (\<lambda>v. confidence (snd v)) (api_consensus_set parse ps)))
               (of_count (length (api_consensus_set parse ps)))"
    and "reasoning body =
       join ''; '' (map (\<lambda>v. fst v @ '': '' @ reasoning (snd v)) (api_consensus_set parse ps))"
    and "allResponses body = map (attempt parse) ps"
    and "optionATrue body = ((length (api_consensus_set parse ps) + 1) div 2 \<le> optionA (votes body))"
    and "optionBTrue body = ((length (api_consensus_set parse ps) + 1) div 2 \<le> optionB (votes body))"
    and "api_consensus_set parse ps \<noteq> []"
proof -
  let ?S = "api_consensus_set parse ps"
  let ?E = "map (\<lambda>v. \<lparr>entry_provider = fst v, entry_response = snd v, entry_error = None\<rparr>) ?S"
  from assms have b: "body = api_consensus (map (attempt parse) ps) ?E" and ne: "?E \<noteq> []"
    by (auto elim!: route_body simp: valid_consensus_set)
  show "providers body = map fst ?S"
    by (simp add: b api_providers comp_def)
  show "votes body =
       \<lparr>optionA = length (filter (\<lambda>v. optionATrue (snd v) \<and> \<not> optionBTrue (snd v)) ?S),
        optionB = length (filter (\<lambda>v. optionBTrue (snd v) \<and> \<not> optionATrue (snd v)) ?S)\<rparr>"
    by (simp add: b api_votes filter_map comp_def)
  show "confidence body =
       num_div (foldl num_add (Finite 0) (map (\<lambda>v. confidence (snd v)) ?S)) (of_count (length ?S))"
    by (simp add: b api_confidence comp_def)
  show "reasoning body = join ''; '' (map (\<lambda>v. fst v @ '': '' @ reasoning (snd v)) ?S)"
    by (simp add: b api_reasoning comp_def)
  show "allResponses body = map (attempt parse) ps"
    by (simp add: b api_consensus_def Let_def)
  show "optionATrue body = ((length ?S + 1) div 2 \<le> optionA (votes body))"
    using api_flags(1) [of "map (attempt parse) ps" ?E] by (simp add: b)
  show "optionBTrue body = ((length ?S + 1) div 2 \<le> optionB (votes body))"
    using api_flags(2) [of "map (attempt parse) ps" ?E] by (simp add: b)
  show "?S \<noteq> []" using ne by simp
qed

lemma getConsensus_closed:
  assumes "getConsensus parse world enabled = Inr res"
  shows "providers res = map provider (plugin_consensus_set parse world (providersToUse enabled))"
    and "votes res =
       \<lparr>optionA = length (filter (\<lambda>r. optionATrue r \<and> \<not> optionBTrue r)
                            (plugin_consensus_set parse world (providersToUse enabled))),
        optionB = length (filter (\<lambda>r. optionBTrue r \<and> \<not> optionATrue r)
                            (plugin_consensus_set parse world (providersToUse enabled)))\<rparr>"
    and "confidence res =
       num_div (foldl num_add (Finite 0)
                  (map confidence (plugin_consensus_set parse world (providersToUse enabled))))
               (of_count (length (plugin_consensus_set parse world (providersToUse enabled))))"
    and "reasoning res =
       join ''; '' (map (\<lambda>r. provider r @ '': '' @ reasoning r)
                      (plugin_consensus_set parse world (providersToUse enabled)))"
    and "optionATrue res = (CONSENSUS_THRESHOLD \<le> optionA (votes res))"
    and "optionBTrue res = (CONSENSUS_THRESHOLD \<le> optionB (votes res))"
    and "plugin_consensus_set parse world (providersToUse enabled) \<noteq> []"
proof -
  let ?S = "plugin_consensus_set parse world (providersToUse enabled)"
  from assms have b: "res = reduce ?S" and ne: "?S \<noteq> []"
    by (auto simp: getConsensus_def Let_def collect_consensus_set split: if_splits)
  show "providers res = map provider ?S" by (simp add: b reduce_providers)
  show "votes res =
       \<lparr>optionA = length (filter (\<lambda>r. optionATrue r \<and> \<not> optionBTrue r) ?S),
        optionB = length (filter (\<lambda>r. optionBTrue r \<and> \<not> optionATrue r) ?S)\<rparr>"
    by (simp add: b reduce_votes)
  show "confidence res =
       num_div (foldl num_add (Finite 0) (map confidence ?S)) (of_count (length ?S))"
    by (simp add: b reduce_confidence)
  show "reasoning res = join ''; '' (map (\<lambda>r. provider r @ '': '' @ reasoning r) ?S)"
    by (simp add: b reduce_reasoning)
  show "optionATrue res = (CONSENSUS_THRESHOLD \<le> optionA (votes res))"
    by (simp add: b reduce_flags(1))
  show "optionBTrue res = (CONSENSUS_THRESHOLD \<le> optionB (votes res))"
    by (simp add: b reduce_flags(2))
  show "?S \<noteq> []" by (rule ne)
qed

section \<open>Enabling the accepted providers only\<close>

lemma provider_names_inj: "inj_on llm_name (set LLM_PROVIDERS)"
  by (simp add: LLM_PROVIDERS_def)

lemma providersToUse_filter: "\<exists>Q. providersToUse enabled = filter Q LLM_PROVIDERS"
proof (cases enabled)
  case None
  then have "providersToUse enabled = filter (\<lambda>p. True) LLM_PROVIDERS"
    by (simp add: providersToUse_def)
  then show ?thesis by blast
next
  case (Some names)
  then show ?thesis by (auto simp: providersToUse_def)
qed

lemma providersToUse_named:
  "providersToUse (Some (map llm_name (filter P (providersToUse enabled))))
     = filter P (providersToUse enabled)"
proof -
  obtain Q where q: "providersToUse enabled = filter Q LLM_PROVIDERS"
    using providersToUse_filter by blast
  have "filter (\<lambda>p. llm_name p \<in> set (map llm_name (filter P (filter Q LLM_PROVIDERS)))) LLM_PROVIDERS
      = filter (\<lambda>p. Q p \<and> P p) LLM_PROVIDERS"
  proof (rule filter_cong [OF refl])
    fix p assume p: "p \<in> set LLM_PROVIDERS"
    show "(llm_name p \<in> set (map llm_name (filter P (filter Q LLM_PROVIDERS)))) = (Q p \<and> P p)"
    proof
      assume "llm_name p \<in> set (map llm_name (filter P (filter Q LLM_PROVIDERS)))"
      then obtain q where "q \<in> set LLM_PROVIDERS" "Q q" "P q" "llm_name q = llm_name p"
        by auto
      with p provider_names_inj show "Q p \<and> P p" by (auto dest: inj_onD)
    next
      assume "Q p \<and> P p"
      with p show "llm_name p \<in> set (map llm_name (filter P (filter Q LLM_PROVIDERS)))"
        by auto
    qed
  qed
  then have "filter (\<lambda>p. llm_name p \<in> set (map llm_name (filter P (filter Q LLM_PROVIDERS)))) LLM_PROVIDERS
      = filter P (filter Q LLM_PROVIDERS)"
    by simp
  moreover have "providersToUse (Some ns) = filter (\<lambda>p. llm_name p \<in> set ns) LLM_PROVIDERS" for ns
    by (simp add: providersToUse_def)
  ultimately show ?thesis by (simp only: q)
qed

lemma getConsensus_accepted_only:
  "getConsensus parse world enabled
     = getConsensus parse world
         (Some (map llm_name (filter (plugin_accepted parse world) (providersToUse enabled))))"
  by (simp add: getConsensus_def Let_def providersToUse_named collect_keep)

lemma collect_names:
  "map provider (collect parse world ps) = map llm_name (filter (plugin_accepted parse world) ps)"
proof (induction ps)
  case Nil
  show ?case by simp
next
  case (Cons p ps)
  have "callLLMProvider parse (world p) p = Some r \<Longrightarrow> provider r = llm_name p" for r
    by (auto simp: callLLMProvider_def split: option.splits if_splits sum.splits json.splits)
  with Cons show ?case by (auto simp: plugin_accepted_def split: option.splits)
qed

lemma rejected_not_named:
  assumes "p \<in> set (providersToUse enabled)" "\<not> plugin_accepted parse world p"
    and "getConsensus parse world enabled = Inr res"
  shows "llm_name p \<notin> set (providers res)"
proof
  assume "llm_name p \<in> set (providers res)"
  moreover from assms(3) have "providers res = map provider (collect parse world (providersToUse enabled))"
    by (auto simp: getConsensus_def Let_def reduce_providers split: if_splits)
  ultimately obtain q where q: "q \<in> set (providersToUse enabled)" "plugin_accepted parse world q"
      "llm_name q = llm_name p"
    by (auto simp: collect_names)
  obtain Q where "providersToUse enabled = filter Q LLM_PROVIDERS"
    using providersToUse_filter by blast
  with q(1) assms(1) have "q \<in> set LLM_PROVIDERS" "p \<in> set LLM_PROVIDERS" by auto
  with q(3) provider_names_inj have "q = p" by (auto dest: inj_onD)
  with q(2) assms(2) show False by simp
qed

section \<open>The runs with a verdict below the floor\<close>

lemma rdn_19: "round_double (1 / 2) = Finite (1 / 2)"
proof -
  have "round_double (1 / 2) = Finite (of_int 4503599627370496 * 2 powi (-1 - 52))"
    by (rule round_double_eval) (simp_all add: round_half_even_near power_int_minus)
  then show ?thesis by (simp add: power_int_minus)
qed

lemma rdn_20: "round_double (8106479329266893 / 4503599627370496) = Finite (8106479329266893 / 4503599627370496)"
proof -
  have "round_double (8106479329266893 / 4503599627370496) = Finite (of_int 8106479329266893 * 2 powi (0 - 52))"
    by (rule round_double_eval) (simp_all add: round_half_even_near power_int_minus)
  then show ?thesis by (simp add: power_int_minus)
qed

lemma low_text:
  "jsonMatch text_low = Some text_low"
  "sample_parse text_low =
     Inr (JObject [(''optionATrue'', JBool False), (''optionBTrue'', JBool True),
                   (''confidence'', JNumber (1 / 2)), (''reasoning'', JString ''unsure'')])"
  by (simp_all add: text_low_def sample_parse_def text_sure_def text_ok_def text_floor_def
      text_partial_def)

lemma low_verdicts:
  "callLLMProvider sample_parse (answering text_low) p =
     Some \<lparr>optionATrue = False, optionBTrue = True, confidence = Finite (1 / 2),
           reasoning = ''unsure'', provider = llm_name p, model = llm_model p\<rparr>"
  "parseOracleResponse sample_parse text_low =
     Inr \<lparr>optionATrue = False, optionBTrue = True, confidence = Finite (1 / 2),
          reasoning = ''unsure''\<rparr>"
  "\<not> num_ge (Finite (1 / 2)) MIN_CONFIDENCE"
  "\<not> num_ge (Finite (1 / 2)) (round_double (7 / 10))"
  by (simp_all add: callLLMProvider_def parseOracleResponse_def answering_def low_text rdn_19
      MIN_CONFIDENCE_def num_ge_def rdn)

lemma plugin_verdicts_low:
  "plugin_verdicts sample_parse world_low (providersToUse None) =
     [\<lparr>optionATrue = False, optionBTrue = True, confidence = Finite (1 / 2),
       reasoning = ''unsure'', provider = ''openai'', model = ''gpt-4''\<rparr>,
      \<lparr>optionATrue = True, optionBTrue = False, confidence = round_double (9 / 10),
       reasoning = ''ok'', provider = ''deepseek'', model = ''deepseek-chat''\<rparr>,
      \<lparr>optionATrue = True, optionBTrue = False, confidence = round_double (9 / 10),
       reasoning = ''ok'', provider = ''gemini'', model = ''gemini-1.5-flash''\<rparr>]"
  by (simp add: plugin_verdicts_def providersToUse_def LLM_PROVIDERS_def world_low_def
      map_filter_simps low_verdicts call_samples)

lemma plugin_set_low:
  "plugin_consensus_set sample_parse world_low (providersToUse None) =
     [\<lparr>optionATrue = True, optionBTrue = False, confidence = round_double (9 / 10),
       reasoning = ''ok'', provider = ''deepseek'', model = ''deepseek-chat''\<rparr>,
      \<lparr>optionATrue = True, optionBTrue = False, confidence = round_double (9 / 10),
       reasoning = ''ok'', provider = ''gemini'', model = ''gemini-1.5-flash''\<rparr>]"
  by (simp add: plugin_consensus_set_def plugin_verdicts_low low_verdicts floor_passed)

lemma mean_09_09:
  "num_div (num_add (num_add (Finite 0) (round_double (9 / 10))) (round_double (9 / 10))) (Finite 2)
     = round_double (9 / 10)"
  by (simp add: rdn rdn_20)

lemma consensus_low:
  "getConsensus sample_parse world_low None =
     Inr \<lparr>optionATrue = True, optionBTrue = False, confidence = round_double (9 / 10),
          reasoning = ''deepseek: ok; gemini: ok'', providers = [''deepseek'', ''gemini''],
          votes = \<lparr>optionA = 2, optionB = 0\<rparr>\<rparr>"
  by (simp add: getConsensus_def Let_def collect_consensus_set plugin_set_low reduce_def
      tally_plugin_init_def plugin_step_def of_count_def CONSENSUS_THRESHOLD_def mean_09_09)

lemma api_verdicts_low:
  "api_verdicts sample_parse low_calls =
     [(''openai'', \<lparr>optionATrue = False, optionBTrue = True, confidence = Finite (1 / 2),
                    reasoning = ''unsure''\<rparr>),
      (''deepseek'', \<lparr>optionATrue = True, optionBTrue = False, confidence = round_double (9 / 10),
                      reasoning = ''ok''\<rparr>),
      (''gemini'', \<lparr>optionATrue = True, optionBTrue = False, confidence = round_double (9 / 10),
                    reasoning = ''ok''\<rparr>)]"
  by (simp add: api_verdicts_def api_verdict_def low_calls_def callLLMProvider_api_def
      map_filter_simps low_verdicts parse_samples)

lemma api_set_low:
  "api_consensus_set sample_parse low_calls =
     [(''deepseek'', \<lparr>optionATrue = True, optionBTrue = False, confidence = round_double (9 / 10),
                      reasoning = ''ok''\<rparr>),
      (''gemini'', \<lparr>optionATrue = True, optionBTrue = False, confidence = round_double (9 / 10),
                    reasoning = ''ok''\<rparr>)]"
  by (simp add: api_consensus_set_def api_verdicts_low low_verdicts floor_passed)

lemma attempts_low:
  "map (attempt sample_parse) low_calls =
     [\<lparr>entry_provider = ''openai'',
       entry_response = \<lparr>optionATrue = False, optionBTrue = True, confidence = Finite (1 / 2),
                         reasoning = ''unsure''\<rparr>,
       entry_error = None\<rparr>,
      \<lparr>entry_provider = ''deepseek'',
       entry_response = \<lparr>optionATrue = True, optionBTrue = False,
                         confidence = round_double (9 / 10), reasoning = ''ok''\<rparr>,
       entry_error = None\<rparr>,
      \<lparr>entry_provider = ''gemini'',
       entry_response = \<lparr>optionATrue = True, optionBTrue = False,
                         confidence = round_double (9 / 10), reasoning = ''ok''\<rparr>,
       entry_error = None\<rparr>]"
  by (simp add: low_calls_def attempt_def callLLMProvider_api_def parse_samples low_verdicts Let_def)

lemma route_low:
  "consensus_route sample_parse ''Will it rain?'' (Some low_calls) =
     ConsensusOk
       \<lparr>optionATrue = True, optionBTrue = False, confidence = round_double (9 / 10),
        reasoning = ''deepseek: ok; gemini: ok'', providers = [''deepseek'', ''gemini''],
        votes = \<lparr>optionA = 2, optionB = 0\<rparr>,
        allResponses = map (attempt sample_parse) low_calls\<rparr>"
  by (simp add: consensus_route_def Let_def valid_consensus_set api_set_low api_consensus_def
      tally_init_def api_step_def of_count_def mean_09_09)

section \<open>The consensus set without the failing providers\<close>

lemma api_set_remaining:
  "api_consensus_set parse (filter (\<lambda>pc. api_verdict parse pc \<noteq> None) ps)
     = api_consensus_set parse ps"
  by (induction ps)
     (auto simp: api_consensus_set_def api_verdicts_def map_filter_simps split: option.splits)

lemma plugin_set_remaining:
  "plugin_consensus_set parse world (filter (\<lambda>q. callLLMProvider parse (world q) q \<noteq> None) ps)
     = plugin_consensus_set parse world ps"
  by (induction ps)
     (auto simp: plugin_consensus_set_def plugin_verdicts_def map_filter_simps split: option.splits)

lemma sets_one_answer:
  "api_consensus_set sample_parse (filter (\<lambda>pc. api_verdict sample_parse pc \<noteq> None) sample_calls) =
     [(''gemini'', \<lparr>optionATrue = True, optionBTrue = False, confidence = round_double (9 / 10),
                    reasoning = ''ok''\<rparr>)]"
  "plugin_consensus_set sample_parse world_one_answer
       (filter (\<lambda>q. callLLMProvider sample_parse (world_one_answer q) q \<noteq> None) (providersToUse None)) =
     [\<lparr>optionATrue = True, optionBTrue = False, confidence = round_double (9 / 10),
       reasoning = ''ok'', provider = ''gemini'', model = ''gemini-1.5-flash''\<rparr>]"
proof -
  show "api_consensus_set sample_parse (filter (\<lambda>pc. api_verdict sample_parse pc \<noteq> None) sample_calls) =
     [(''gemini'', \<lparr>optionATrue = True, optionBTrue = False, confidence = round_double (9 / 10),
                    reasoning = ''ok''\<rparr>)]"
    by (simp add: api_set_remaining api_consensus_set_def api_verdicts_def api_verdict_def
        sample_calls_def callLLMProvider_api_def map_filter_simps parse_samples floor_passed)
  show "plugin_consensus_set sample_parse world_one_answer
       (filter (\<lambda>q. callLLMProvider sample_parse (world_one_answer q) q \<noteq> None) (providersToUse None)) =
     [\<lparr>optionATrue = True, optionBTrue = False, confidence = round_double (9 / 10),
       reasoning = ''ok'', provider = ''gemini'', model = ''gemini-1.5-flash''\<rparr>]"
    using collect_one_answer
    by (simp only: plugin_set_remaining collect_consensus_set providersToUse_def option.case)
qed

section \<open>The vote rule\<close>

text \<open>
  Claim C1. In both tally loops an accepted verdict adds one vote for A exactly when its
  \<^verbatim>\<open>optionATrue\<close> is true and its \<^verbatim>\<open>optionBTrue\<close> is false, one vote for B exactly
  when \<^verbatim>\<open>optionBTrue\<close> is true and \<^verbatim>\<open>optionATrue\<close> is false, and no vote otherwise
  (both flags true, or both false); whatever its flags, its confidence is added to the total
  and its reasoning is appended to the trail. Over the whole reduction: the vote counts are
  the numbers of one-sided verdicts, while the mean and the reasoning trail range over every
  accepted verdict.
\<close>

theorem vote_rule:
  "optionAVotes (plugin_step s r)
     = optionAVotes s + (if optionATrue r \<and> \<not> optionBTrue r then 1 else 0)
   \<and> optionBVotes (plugin_step s r)
     = optionBVotes s + (if optionBTrue r \<and> \<not> optionATrue r then 1 else 0)
   \<and> totalConfidence (plugin_step s r) = num_add (totalConfidence s) (confidence r)
   \<and> reasonings (plugin_step s r) = reasonings s @ [provider r @ '': '' @ reasoning r]
   \<and> optionAVotes (api_step t e)
     = optionAVotes t
       + (if optionATrue (entry_response e) \<and> \<not> optionBTrue (entry_response e) then 1 else 0)
   \<and> optionBVotes (api_step t e)
     = optionBVotes t
       + (if optionBTrue (entry_response e) \<and> \<not> optionATrue (entry_response e) then 1 else 0)
   \<and> totalConfidence (api_step t e) = num_add (totalConfidence t) (confidence (entry_response e))
   \<and> reasonings (api_step t e)
     = reasonings t @ [entry_provider e @ '': '' @ reasoning (entry_response e)]
   \<and> votes (reduce rs) =
       \<lparr>optionA = length (filter (\<lambda>r. optionATrue r \<and> \<not> optionBTrue r) rs),
        optionB = length (filter (\<lambda>r. optionBTrue r \<and> \<not> optionATrue r) rs)\<rparr>
   \<and> confidence (reduce rs)
     = num_div (foldl num_add (Finite 0) (map confidence rs)) (of_count (length rs))
   \<and> reasoning (reduce rs) = join ''; '' (map (\<lambda>r. provider r @ '': '' @ reasoning r) rs)
   \<and> votes (api_consensus all es) =
       \<lparr>optionA = length (filter (\<lambda>e. optionATrue (entry_response e)
                                        \<and> \<not> optionBTrue (entry_response e)) es),
        optionB = length (filter (\<lambda>e. optionBTrue (entry_response e)
                                        \<and> \<not> optionATrue (entry_response e)) es)\<rparr>
   \<and> confidence (api_consensus all es)
     = num_div (foldl num_add (Finite 0) (map (\<lambda>e. confidence (entry_response e)) es))
               (of_count (length es))
   \<and> reasoning (api_consensus all es)
     = join ''; '' (map (\<lambda>e. entry_provider e @ '': '' @ reasoning (entry_response e)) es)"
proof -
  have "optionAVotes (plugin_step s r)
     = optionAVotes s + (if optionATrue r \<and> \<not> optionBTrue r then 1 else 0)"
    "optionBVotes (plugin_step s r)
     = optionBVotes s + (if optionBTrue r \<and> \<not> optionATrue r then 1 else 0)"
    "totalConfidence (plugin_step s r) = num_add (totalConfidence s) (confidence r)"
    "reasonings (plugin_step s r) = reasonings s @ [provider r @ '': '' @ reasoning r]"
    by (simp_all add: plugin_step_def Let_def)
  moreover have "optionAVotes (api_step t e)
     = optionAVotes t
       + (if optionATrue (entry_response e) \<and> \<not> optionBTrue (entry_response e) then 1 else 0)"
    "optionBVotes (api_step t e)
     = optionBVotes t
       + (if optionBTrue (entry_response e) \<and> \<not> optionATrue (entry_response e) then 1 else 0)"
    "totalConfidence (api_step t e) = num_add (totalConfidence t) (confidence (entry_response e))"
    "reasonings (api_step t e)
     = reasonings t @ [entry_provider e @ '': '' @ reasoning (entry_response e)]"
    by (simp_all add: api_step_def Let_def)
  ultimately show ?thesis
    using reduce_votes [of rs] reduce_confidence [of rs] reduce_reasoning [of rs]
      api_votes [of all es] api_confidence [of all es] api_reasoning [of all es]
    by (simp only: simp_thms)
qed

section \<open>The worked example\<close>

text \<open>
  Claim C2. Three accepted verdicts, A at 0.8, A at 0.75 and B at 0.9, under the threshold 2
  (the constant of the plugin, and \<open>ceil(3 / 2)\<close> on the HTTP service): the result has
  \<^verbatim>\<open>optionATrue\<close> true, \<^verbatim>\<open>optionBTrue\<close> false, two votes for A and one for B,
  and its confidence is the value of \<^verbatim>\<open>(0.8 + 0.75 + 0.9) / 3\<close>, which is the double
  \<open>7355879391371811 / 2^53\<close>, within one unit in the last place of the exact mean.
  Whatever the providers' names and reasonings.
\<close>

theorem worked_example:
  fixes r1 r2 r3 p1 p2 p3 m1 m2 m3 :: string and all :: "response_entry list"
  defines "rs \<equiv>
     [\<lparr>optionATrue = True, optionBTrue = False, confidence = round_double (4 / 5),
       reasoning = r1, provider = p1, model = m1\<rparr>,
      \<lparr>optionATrue = True, optionBTrue = False, confidence = round_double (3 / 4),
       reasoning = r2, provider = p2, model = m2\<rparr>,
      \<lparr>optionATrue = False, optionBTrue = True, confidence = round_double (9 / 10),
       reasoning = r3, provider = p3, model = m3\<rparr>]"
    and "es \<equiv>
     [\<lparr>entry_provider = p1,
       entry_response = \<lparr>optionATrue = True, optionBTrue = False,
                         confidence = round_double (4 / 5), reasoning = r1\<rparr>,
       entry_error = None\<rparr>,
      \<lparr>entry_provider = p2,
       entry_response = \<lparr>optionATrue = True, optionBTrue = False,
                         confidence = round_double (3 / 4), reasoning = r2\<rparr>,
       entry_error = None\<rparr>,
      \<lparr>entry_provider = p3,
       entry_response = \<lparr>optionATrue = False, optionBTrue = True,
                         confidence = round_double (9 / 10), reasoning = r3\<rparr>,
       entry_error = None\<rparr>]"
  shows "CONSENSUS_THRESHOLD = 2 \<and> (length es + 1) div 2 = 2
    \<and> list_all (\<lambda>r. num_ge (confidence r) MIN_CONFIDENCE) rs
    \<and> list_all valid_entry es
    \<and> optionATrue (reduce rs) \<and> \<not> optionBTrue (reduce rs)
    \<and> votes (reduce rs) = \<lparr>optionA = 2, optionB = 1\<rparr>
    \<and> confidence (reduce rs)
        = num_div (num_add (num_add (round_double (4 / 5)) (round_double (3 / 4)))
                           (round_double (9 / 10))) (Finite 3)
    \<and> optionATrue (api_consensus all es) \<and> \<not> optionBTrue (api_consensus all es)
    \<and> votes (api_consensus all es) = \<lparr>optionA = 2, optionB = 1\<rparr>
    \<and> confidence (api_consensus all es)
        = num_div (num_add (num_add (round_double (4 / 5)) (round_double (3 / 4)))
                           (round_double (9 / 10))) (Finite 3)
    \<and> confidence (reduce rs) = Finite (7355879391371811 / 2 ^ 53)
    \<and> \<bar>7355879391371811 / 2 ^ 53 - (4 / 5 + 3 / 4 + 9 / 10) / 3\<bar> < (1 / 2 ^ 53 :: rat)"
proof -
  have thr: "CONSENSUS_THRESHOLD = 2" "(length es + 1) div 2 = 2"
    by (simp_all add: CONSENSUS_THRESHOLD_def es_def)
  have acc: "list_all (\<lambda>r. num_ge (confidence r) MIN_CONFIDENCE) rs" "list_all valid_entry es"
    by (simp_all add: rs_def es_def valid_entry_def floor_passed)
  have pv: "votes (reduce rs) = \<lparr>optionA = 2, optionB = 1\<rparr>"
    by (simp add: reduce_votes rs_def)
  have pf: "optionATrue (reduce rs)" "\<not> optionBTrue (reduce rs)"
    by (simp_all add: reduce_flags pv CONSENSUS_THRESHOLD_def)
  have pc: "confidence (reduce rs)
      = num_div (num_add (num_add (num_add (Finite 0) (round_double (4 / 5))) (round_double (3 / 4)))
                    (round_double (9 / 10))) (Finite 3)"
    by (simp add: reduce_confidence rs_def of_count_def)
  have av: "votes (api_consensus all es) = \<lparr>optionA = 2, optionB = 1\<rparr>"
    by (simp add: api_votes es_def)
  have af: "optionATrue (api_consensus all es)" "\<not> optionBTrue (api_consensus all es)"
    by (simp_all add: api_flags av) (simp_all add: es_def)
  have ac: "confidence (api_consensus all es)
      = num_div (num_add (num_add (num_add (Finite 0) (round_double (4 / 5))) (round_double (3 / 4)))
                    (round_double (9 / 10))) (Finite 3)"
    by (simp add: api_confidence es_def of_count_def)
  have near: "\<bar>7355879391371811 / 2 ^ 53 - (4 / 5 + 3 / 4 + 9 / 10) / 3\<bar> < (1 / 2 ^ 53 :: rat)"
    by simp
  show ?thesis
    using thr acc pv pf av af near
    by (simp only: pc ac mean_08_075_09 js_mean_08_075_09 simp_thms)
qed

section \<open>No accepted verdict\<close>

text \<open>
  Claim C3, amended. When no verdict is accepted the evaluation fails and no consensus is
  returned: a returned consensus always has an accepted provider behind it. On the HTTP
  service the failure carries every attempt, each failed one with the message of its error.
  In the plugin the failure is the error with the fixed message
  \<^verbatim>\<open>No valid responses received from AI providers\<close> and nothing else.
\<close>

theorem no_accepted_verdict:
  "(prompt \<noteq> [] \<and> \<not> (\<exists>pc\<in>set ps. api_accepted parse pc) \<longrightarrow>
      consensus_route parse prompt (Some ps)
        = NoValidResponses ''No valid responses from providers'' (map (attempt parse) ps))
   \<and> (api_verdict parse pc = None \<longrightarrow>
        (\<exists>e. entry_error (attempt parse pc) = Some (message e)
             \<and> (callLLMProvider_api (fst pc) (snd pc) = Inl e
                \<or> (\<exists>t. callLLMProvider_api (fst pc) (snd pc) = Inr t
                          \<and> parseOracleResponse parse t = Inl e))))
   \<and> (consensus_route parse prompt pso = ConsensusOk body \<longrightarrow>
        (\<exists>qs. pso = Some qs \<and> (\<exists>pc\<in>set qs. api_accepted parse pc)) \<and> providers body \<noteq> [])
   \<and> (\<not> (\<exists>q\<in>set (providersToUse enabled). plugin_accepted parse world q) \<longrightarrow>
        getConsensus parse world enabled
          = Inl (Error ''No valid responses received from AI providers''))
   \<and> (getConsensus parse world enabled = Inr c \<longrightarrow>
        (\<exists>q\<in>set (providersToUse enabled). plugin_accepted parse world q) \<and> providers c \<noteq> [])"
proof -
  have a: "prompt \<noteq> [] \<and> \<not> (\<exists>pc\<in>set ps. api_accepted parse pc) \<longrightarrow>
      consensus_route parse prompt (Some ps)
        = NoValidResponses ''No valid responses from providers'' (map (attempt parse) ps)"
    by (simp add: route_cases)
  have b: "api_verdict parse pc = None \<longrightarrow>
        (\<exists>e. entry_error (attempt parse pc) = Some (message e)
             \<and> (callLLMProvider_api (fst pc) (snd pc) = Inl e
                \<or> (\<exists>t. callLLMProvider_api (fst pc) (snd pc) = Inr t
                          \<and> parseOracleResponse parse t = Inl e)))"
    using attempt_failed [of parse pc] by blast
  have c: "consensus_route parse prompt pso = ConsensusOk body \<longrightarrow>
        (\<exists>qs. pso = Some qs \<and> (\<exists>pc\<in>set qs. api_accepted parse pc)) \<and> providers body \<noteq> []"
  proof
    assume "consensus_route parse prompt pso = ConsensusOk body"
    then obtain qs where q: "pso = Some qs"
      "filter valid_entry (map (attempt parse) qs) \<noteq> []"
      "body = api_consensus (map (attempt parse) qs) (filter valid_entry (map (attempt parse) qs))"
      by (rule route_body)
    from q(2) have "\<exists>pc\<in>set qs. api_accepted parse pc" by (simp only: valid_empty_iff not_not)
    moreover from q(2,3) have "providers body \<noteq> []" by (simp add: api_providers)
    ultimately show "(\<exists>qs. pso = Some qs \<and> (\<exists>pc\<in>set qs. api_accepted parse pc))
        \<and> providers body \<noteq> []"
      using q(1) by blast
  qed
  have d: "\<not> (\<exists>q\<in>set (providersToUse enabled). plugin_accepted parse world q) \<longrightarrow>
        getConsensus parse world enabled
          = Inl (Error ''No valid responses received from AI providers'')"
    by (simp add: getConsensus_cases)
  have e: "getConsensus parse world enabled = Inr c \<longrightarrow>
        (\<exists>q\<in>set (providersToUse enabled). plugin_accepted parse world q) \<and> providers c \<noteq> []"
  proof
    assume r: "getConsensus parse world enabled = Inr c"
    then have ex: "\<exists>q\<in>set (providersToUse enabled). plugin_accepted parse world q"
      by (simp add: getConsensus_cases split: if_splits)
    with r have "c = reduce (collect parse world (providersToUse enabled))"
      by (simp add: getConsensus_cases)
    moreover have "collect parse world (providersToUse enabled) \<noteq> []"
      using ex by (simp only: collect_empty_iff not_not)
    ultimately have "providers c \<noteq> []" by (simp add: reduce_providers)
    with ex show "(\<exists>q\<in>set (providersToUse enabled). plugin_accepted parse world q)
        \<and> providers c \<noteq> []" by blast
  qed
  from a b c d e show ?thesis by (intro conjI)
qed

theorem no_accepted_verdict_witness:
  "consensus_route sample_parse ''Will it rain?'' (Some failing_calls)
     = NoValidResponses ''No valid responses from providers''
         [\<lparr>entry_provider = ''openai'',
           entry_response = \<lparr>optionATrue = False, optionBTrue = False, confidence = Finite 0,
                             reasoning = ''Provider error''\<rparr>,
           entry_error = Some ''fetch failed''\<rparr>,
          \<lparr>entry_provider = ''deepseek'',
           entry_response = \<lparr>optionATrue = False, optionBTrue = False, confidence = Finite 0,
                             reasoning = ''Provider error''\<rparr>,
           entry_error = Some ''No JSON found in response''\<rparr>]
   \<and> getConsensus sample_parse world_no_keys None
     = Inl (Error ''No valid responses received from AI providers'')
   \<and> (\<exists>q\<in>set (providersToUse None). plugin_accepted sample_parse world_one_answer q)"
proof -
  note t = no_accepted_verdict [where parse = sample_parse and prompt = "''Will it rain?''"
      and ps = failing_calls and world = world_no_keys and enabled = None]
  note u = no_accepted_verdict [where parse = sample_parse and world = world_one_answer
      and enabled = None
      and c = "\<lparr>optionATrue = False, optionBTrue = False, confidence = round_double (9 / 10),
          reasoning = ''gemini: ok'', providers = [''gemini''],
          votes = \<lparr>optionA = 1, optionB = 0\<rparr>\<rparr>"]
  have p: "''Will it rain?'' \<noteq> []" by simp
  have "consensus_route sample_parse ''Will it rain?'' (Some failing_calls)
     = NoValidResponses ''No valid responses from providers''
         (map (attempt sample_parse) failing_calls)"
    using t p failing_none_accepted by blast
  then have 1: "consensus_route sample_parse ''Will it rain?'' (Some failing_calls)
     = NoValidResponses ''No valid responses from providers''
         [\<lparr>entry_provider = ''openai'',
           entry_response = \<lparr>optionATrue = False, optionBTrue = False, confidence = Finite 0,
                             reasoning = ''Provider error''\<rparr>,
           entry_error = Some ''fetch failed''\<rparr>,
          \<lparr>entry_provider = ''deepseek'',
           entry_response = \<lparr>optionATrue = False, optionBTrue = False, confidence = Finite 0,
                             reasoning = ''Provider error''\<rparr>,
           entry_error = Some ''No JSON found in response''\<rparr>]"
    by (simp only: failing_attempts)
  have 2: "getConsensus sample_parse world_no_keys None
     = Inl (Error ''No valid responses received from AI providers'')"
    using t none_accepted(1) by blast
  have 3: "\<exists>q\<in>set (providersToUse None). plugin_accepted sample_parse world_one_answer q"
    using u consensus_one_answer by blast
  from 1 2 3 show ?thesis by (intro conjI)
qed

text \<open>
  The claim as stated has the plugin's error carry the per-provider failures. It does not:
  missing keys and thrown calls end in the same error value.
\<close>

theorem plugin_error_counterexample:
  "getConsensus sample_parse world_no_keys None
     = Inl (Error ''No valid responses received from AI providers'')
   \<and> getConsensus sample_parse world_throwing None
     = Inl (Error ''No valid responses received from AI providers'')
   \<and> callLLMProvider sample_parse (world_no_keys openai) openai = None
   \<and> callLLMProvider sample_parse (world_throwing openai) openai = None
   \<and> io_apiKey (world_no_keys openai) = None
   \<and> io_generateText (world_throwing openai) = Inl (Error ''timeout'')"
  by (simp add: getConsensus_cases none_accepted world_no_keys_def world_throwing_def
      call_samples) (simp add: no_key_def timing_out_def)

section \<open>The confidence of a verdict of the plugin\<close>

text \<open>
  Claim C4 has every verdict's confidence clamped into [0, 1]. \<^verbatim>\<open>parseOracleResponse\<close>
  of the HTTP service clamps (\<open>service_confidence_range\<close>); \<^verbatim>\<open>callLLMProvider\<close>
  of the plugin copies \<^verbatim>\<open>parsed.confidence\<close> as it is. On a provider text with the
  confidence 1.5 the plugin's verdict has the confidence 1.5, it passes the floor, and the
  consensus reports 1.5; the service gives 1 on the same text.
\<close>

theorem plugin_unclamped:
  "callLLMProvider sample_parse (answering text_sure) openai
     = Some \<lparr>optionATrue = True, optionBTrue = False, confidence = Finite (3 / 2),
             reasoning = ''sure'', provider = ''openai'', model = ''gpt-4''\<rparr>
   \<and> \<not> num_le (Finite (3 / 2)) (Finite 1)
   \<and> parseOracleResponse sample_parse text_sure
     = Inr \<lparr>optionATrue = True, optionBTrue = False, confidence = Finite 1,
            reasoning = ''sure''\<rparr>
   \<and> getConsensus sample_parse world_overconfident None
     = Inr \<lparr>optionATrue = False, optionBTrue = False, confidence = Finite (3 / 2),
            reasoning = ''openai: sure'', providers = [''openai''],
            votes = \<lparr>optionA = 1, optionB = 0\<rparr>\<rparr>"
proof -
  have c: "collect sample_parse world_overconfident LLM_PROVIDERS
     = [\<lparr>optionATrue = True, optionBTrue = False, confidence = Finite (3 / 2),
         reasoning = ''sure'', provider = ''openai'', model = ''gpt-4''\<rparr>]"
    by (simp add: LLM_PROVIDERS_def world_overconfident_def call_samples MIN_CONFIDENCE_def
        num_ge_def rdn)
  have "getConsensus sample_parse world_overconfident None
     = Inr \<lparr>optionATrue = False, optionBTrue = False, confidence = Finite (3 / 2),
            reasoning = ''openai: sure'', providers = [''openai''],
            votes = \<lparr>optionA = 1, optionB = 0\<rparr>\<rparr>"
    by (simp add: getConsensus_def providersToUse_def c Let_def reduce_def tally_plugin_init_def
      plugin_step_def of_count_def CONSENSUS_THRESHOLD_def rdn)
  then show ?thesis
    by (simp add: call_samples parse_samples openai_def rdn)
qed

section \<open>What the parser extracts, and how it fails\<close>

text \<open>
  Claim C5, amended. The parser takes the substring from the first opening brace of the
  text to its last closing brace, not the first balanced object. When the text has no
  opening brace followed by a closing brace, \<^verbatim>\<open>parseOracleResponse\<close> fails with
  \<^verbatim>\<open>No JSON found in response\<close>; when the substring does not parse, with the
  \<^verbatim>\<open>SyntaxError\<close> of \<^verbatim>\<open>JSON.parse\<close>; when one of the four fields is missing or
  of the wrong type, with \<^verbatim>\<open>Invalid response structure\<close>; otherwise it returns the
  verdict. In the plugin each of the three failures makes \<^verbatim>\<open>callLLMProvider\<close> return
  \<^verbatim>\<open>null\<close>.
\<close>

theorem parser_outcomes:
  "(jsonMatch str = Some m \<longleftrightarrow>
      (\<exists>pre mid post. str = pre @ CHR ''{'' # mid @ CHR ''}'' # post
         \<and> CHR ''{'' \<notin> set pre \<and> CHR ''}'' \<notin> set post
         \<and> m = CHR ''{'' # mid @ [CHR ''}'']))
   \<and> (jsonMatch str = None \<longleftrightarrow>
        \<not> (\<exists>pre mid post. str = pre @ CHR ''{'' # mid @ CHR ''}'' # post))
   \<and> (jsonMatch str = None \<longrightarrow>
        parseOracleResponse parse str = Inl (Error ''No JSON found in response'')
        \<and> (io_generateText io = Inr str \<longrightarrow> callLLMProvider parse io p = None))
   \<and> (jsonMatch str = Some m \<and> parse m = Inl msg \<longrightarrow>
        parseOracleResponse parse str = Inl (SyntaxError msg)
        \<and> (io_generateText io = Inr str \<longrightarrow> callLLMProvider parse io p = None))
   \<and> (jsonMatch str = Some m \<and> parse m = Inr v \<and> v \<noteq> JNull \<and> required_fields v = None \<longrightarrow>
        parseOracleResponse parse str = Inl (Error ''Invalid response structure'')
        \<and> (io_generateText io = Inr str \<longrightarrow> callLLMProvider parse io p = None))
   \<and> (jsonMatch str = Some m \<and> parse m = Inr v \<and> required_fields v = Some (a, b, c, r) \<longrightarrow>
        parseOracleResponse parse str
          = Inr \<lparr>optionATrue = a, optionBTrue = b,
                 confidence = Math_max (Finite 0) (Math_min (Finite 1) (round_double c)),
                 reasoning = r\<rparr>
        \<and> (io_generateText io = Inr str \<and> io_apiKey io = Some k \<and> k \<noteq> [] \<longrightarrow>
             callLLMProvider parse io p
               = Some \<lparr>optionATrue = a, optionBTrue = b, confidence = round_double c,
                       reasoning = r, provider = llm_name p, model = llm_model p\<rparr>))"
proof -
  have n: "jsonMatch str = None \<longrightarrow>
        parseOracleResponse parse str = Inl (Error ''No JSON found in response'')
        \<and> (io_generateText io = Inr str \<longrightarrow> callLLMProvider parse io p = None)"
    by (auto simp: parseOracleResponse_def callLLMProvider_def split: option.splits)
  have s: "jsonMatch str = Some m \<and> parse m = Inl msg \<longrightarrow>
        parseOracleResponse parse str = Inl (SyntaxError msg)
        \<and> (io_generateText io = Inr str \<longrightarrow> callLLMProvider parse io p = None)"
    by (auto simp: parseOracleResponse_def callLLMProvider_def split: option.splits)
  have i: "jsonMatch str = Some m \<and> parse m = Inr v \<and> v \<noteq> JNull \<and> required_fields v = None \<longrightarrow>
        parseOracleResponse parse str = Inl (Error ''Invalid response structure'')
        \<and> (io_generateText io = Inr str \<longrightarrow> callLLMProvider parse io p = None)"
    using invalid_structure [of str m parse v] required_fields_None_call [of io str m parse v p]
    by blast
  have ok: "jsonMatch str = Some m \<and> parse m = Inr v \<and> required_fields v = Some (a, b, c, r) \<longrightarrow>
        parseOracleResponse parse str
          = Inr \<lparr>optionATrue = a, optionBTrue = b,
                 confidence = Math_max (Finite 0) (Math_min (Finite 1) (round_double c)),
                 reasoning = r\<rparr>
        \<and> (io_generateText io = Inr str \<and> io_apiKey io = Some k \<and> k \<noteq> [] \<longrightarrow>
             callLLMProvider parse io p
               = Some \<lparr>optionATrue = a, optionBTrue = b, confidence = round_double c,
                       reasoning = r, provider = llm_name p, model = llm_model p\<rparr>)"
  proof (intro impI conjI)
    assume h: "jsonMatch str = Some m \<and> parse m = Inr v \<and> required_fields v = Some (a, b, c, r)"
    note f = required_fields_Some [of v a b c r]
    from h f show "parseOracleResponse parse str
          = Inr \<lparr>optionATrue = a, optionBTrue = b,
                 confidence = Math_max (Finite 0) (Math_min (Finite 1) (round_double c)),
                 reasoning = r\<rparr>"
      by (simp add: parseOracleResponse_def)
    assume "io_generateText io = Inr str \<and> io_apiKey io = Some k \<and> k \<noteq> []"
    with h f show "callLLMProvider parse io p
               = Some \<lparr>optionATrue = a, optionBTrue = b, confidence = round_double c,
                       reasoning = r, provider = llm_name p, model = llm_model p\<rparr>"
      by (simp add: callLLMProvider_def)
  qed
  from jsonMatch_Some [of str m] jsonMatch_None [of str] n s i ok show ?thesis by (intro conjI)
qed

theorem parser_outcomes_witness:
  "parseOracleResponse sample_parse text_prose = Inl (Error ''No JSON found in response'')
   \<and> callLLMProvider sample_parse (answering text_prose) openai = None
   \<and> parseOracleResponse sample_parse text_two = Inl (SyntaxError ''Unexpected token'')
   \<and> callLLMProvider sample_parse (answering text_two) openai = None
   \<and> parseOracleResponse sample_parse text_partial = Inl (Error ''Invalid response structure'')
   \<and> callLLMProvider sample_parse (answering text_partial) openai = None
   \<and> parseOracleResponse sample_parse text_ok
     = Inr \<lparr>optionATrue = True, optionBTrue = False,
            confidence = Math_max (Finite 0) (Math_min (Finite 1) (round_double (9 / 10))),
            reasoning = ''ok''\<rparr>
   \<and> callLLMProvider sample_parse (answering text_ok) openai
     = Some \<lparr>optionATrue = True, optionBTrue = False, confidence = round_double (9 / 10),
             reasoning = ''ok'', provider = llm_name openai, model = llm_model openai\<rparr>
   \<and> (\<exists>pre mid post. text_two = pre @ CHR ''{'' # mid @ CHR ''}'' # post
         \<and> CHR ''{'' \<notin> set pre \<and> CHR ''}'' \<notin> set post
         \<and> text_ok @ '' (schema: {}'' = CHR ''{'' # mid @ [CHR ''}''])"
proof -
  have g: "io_generateText (answering t) = Inr t" "io_apiKey (answering t) = Some ''sk-test''" for t
    by (simp_all add: answering_def)
  have k: "''sk-test'' \<noteq> []" by simp
  have rf: "required_fields (JObject [(''optionATrue'', JBool True)]) = None"
    "JObject [(''optionATrue'', JBool True)] \<noteq> JNull"
    "required_fields (JObject [(''optionATrue'', JBool True), (''optionBTrue'', JBool False),
                   (''confidence'', JNumber (9 / 10)), (''reasoning'', JString ''ok'')])
      = Some (True, False, 9 / 10, ''ok'')"
    by (simp_all add: required_fields_def)
  note prose = parser_outcomes [where parse = sample_parse and str = text_prose
      and io = "answering text_prose" and p = openai]
  note two = parser_outcomes [where parse = sample_parse and str = text_two
      and m = "text_ok @ '' (schema: {}''" and msg = "''Unexpected token''"
      and io = "answering text_two" and p = openai]
  note partial = parser_outcomes [where parse = sample_parse and str = text_partial
      and m = text_partial and v = "JObject [(''optionATrue'', JBool True)]"
      and io = "answering text_partial" and p = openai]
  note good = parser_outcomes [where parse = sample_parse and str = text_ok
      and m = text_ok
      and v = "JObject [(''optionATrue'', JBool True), (''optionBTrue'', JBool False),
                   (''confidence'', JNumber (9 / 10)), (''reasoning'', JString ''ok'')]"
      and a = True and b = False and c = "9 / 10" and r = "''ok''"
      and io = "answering text_ok" and k = "''sk-test''" and p = openai]
  have 1: "parseOracleResponse sample_parse text_prose = Inl (Error ''No JSON found in response'')"
    "callLLMProvider sample_parse (answering text_prose) openai = None"
    using prose jsonMatch_samples(4) g(1) [of text_prose] by blast+
  have 2: "parseOracleResponse sample_parse text_two = Inl (SyntaxError ''Unexpected token'')"
    "callLLMProvider sample_parse (answering text_two) openai = None"
    using two jsonMatch_samples(5) sample_parse_values(4) g(1) [of text_two] by blast+
  have 3: "parseOracleResponse sample_parse text_partial = Inl (Error ''Invalid response structure'')"
    "callLLMProvider sample_parse (answering text_partial) openai = None"
    using partial jsonMatch_samples(3) sample_parse_values(3) rf(1,2) g(1) [of text_partial]
    by blast+
  have 4: "parseOracleResponse sample_parse text_ok
     = Inr \<lparr>optionATrue = True, optionBTrue = False,
            confidence = Math_max (Finite 0) (Math_min (Finite 1) (round_double (9 / 10))),
            reasoning = ''ok''\<rparr>"
    "callLLMProvider sample_parse (answering text_ok) openai
     = Some \<lparr>optionATrue = True, optionBTrue = False, confidence = round_double (9 / 10),
             reasoning = ''ok'', provider = llm_name openai, model = llm_model openai\<rparr>"
    using good jsonMatch_samples(1) sample_parse_values(1) rf(3) g [of text_ok] k by blast+
  have 5: "\<exists>pre mid post. text_two = pre @ CHR ''{'' # mid @ CHR ''}'' # post
         \<and> CHR ''{'' \<notin> set pre \<and> CHR ''}'' \<notin> set post
         \<and> text_ok @ '' (schema: {}'' = CHR ''{'' # mid @ [CHR ''}'']"
    using two jsonMatch_samples(5) by blast
  from 1 2 3 4 5 show ?thesis by (intro conjI)
qed

text \<open>
  The claim as stated fails on a text with a second pair of braces after the object: the
  first balanced object is a verdict that parses, the substring the code takes is not.
\<close>

theorem first_object_counterexample:
  "first_balanced_object text_two = Some text_ok
   \<and> jsonMatch text_two = Some (text_ok @ '' (schema: {}'')
   \<and> text_ok @ '' (schema: {}'' \<noteq> text_ok
   \<and> sample_parse text_ok
     = Inr (JObject [(''optionATrue'', JBool True), (''optionBTrue'', JBool False),
                     (''confidence'', JNumber (9 / 10)), (''reasoning'', JString ''ok'')])
   \<and> parseOracleResponse sample_parse text_two = Inl (SyntaxError ''Unexpected token'')
   \<and> callLLMProvider sample_parse (answering text_two) openai = None"
proof -
  have "first_balanced_object text_two = Some text_ok"
    by (simp add: text_two_def text_ok_def)
  then show ?thesis
    by (simp add: jsonMatch_samples sample_parse_values parse_samples call_samples)
qed

section \<open>The confidence floor\<close>

text \<open>
  Claim C6. A verdict enters the consensus set exactly when its confidence is at least the
  floor 0.7 (the double \<open>6305039478318694 / 2^53\<close>): on the HTTP service the valid
  responses are the attempts of the accepted providers, in the plugin the collected
  responses are the verdicts that pass the floor, in order. A verdict below the floor is
  dropped before the reduction. In the result of the route and in the result of
  \<^verbatim>\<open>getConsensus\<close> the \<^verbatim>\<open>providers\<close> list, the vote counts, the mean
  confidence and the reasoning trail are those of the consensus set alone, so a verdict
  below the floor is in none of them (on the service it still appears in
  \<^verbatim>\<open>allResponses\<close>); the consensus is the same as if its provider had not been
  asked, respectively not been enabled, and in the plugin the \<^verbatim>\<open>providers\<close> list
  does not name it.
\<close>

theorem confidence_floor:
  "(valid_entry (attempt parse pc) \<longleftrightarrow>
      (case api_verdict parse pc of
         None \<Rightarrow> False
       | Some r \<Rightarrow> num_ge (confidence r) (round_double (7 / 10))))
   \<and> filter valid_entry (map (attempt parse) ps)
       = map (attempt parse) (filter (api_accepted parse) ps)
   \<and> (prompt \<noteq> [] \<longrightarrow>
        consensus_of (consensus_route parse prompt (Some ps))
        = consensus_of (consensus_route parse prompt (Some (filter (api_accepted parse) ps))))
   \<and> (consensus_route parse prompt (Some ps) = ConsensusOk body \<longrightarrow>
        providers body = map (\<lambda>pc. cfg_provider (fst pc)) (filter (api_accepted parse) ps))
   \<and> (consensus_route parse prompt (Some ps) = ConsensusOk body \<longrightarrow>
        (let S = api_consensus_set parse ps
         in providers body = map fst S
            \<and> votes body =
                \<lparr>optionA = length (filter (\<lambda>v. optionATrue (snd v) \<and> \<not> optionBTrue (snd v)) S),
                 optionB = length (filter (\<lambda>v. optionBTrue (snd v) \<and> \<not> optionATrue (snd v)) S)\<rparr>
            \<and> confidence body =
                num_div (foldl num_add (Finite 0) (map (\<lambda>v. confidence (snd v)) S))
                        (of_count (length S))
            \<and> reasoning body = join ''; '' (map (\<lambda>v. fst v @ '': '' @ reasoning (snd v)) S)
            \<and> allResponses body = map (attempt parse) ps))
   \<and> map Some (collect parse world qs)
       = filter (\<lambda>v. case v of None \<Rightarrow> False
                              | Some r \<Rightarrow> num_ge (confidence r) MIN_CONFIDENCE)
           (map (\<lambda>p. callLLMProvider parse (world p) p) qs)
   \<and> collect parse world qs = collect parse world (filter (plugin_accepted parse world) qs)
   \<and> (getConsensus parse world enabled = Inr res \<longrightarrow>
        (let S = plugin_consensus_set parse world (providersToUse enabled)
         in providers res = map provider S
            \<and> votes res =
                \<lparr>optionA = length (filter (\<lambda>r. optionATrue r \<and> \<not> optionBTrue r) S),
                 optionB = length (filter (\<lambda>r. optionBTrue r \<and> \<not> optionATrue r) S)\<rparr>
            \<and> confidence res =
                num_div (foldl num_add (Finite 0) (map confidence S)) (of_count (length S))
            \<and> reasoning res = join ''; '' (map (\<lambda>r. provider r @ '': '' @ reasoning r) S)))
   \<and> (getConsensus parse world enabled = Inr res \<longrightarrow>
        (\<forall>p\<in>set (providersToUse enabled).
           \<not> plugin_accepted parse world p \<longrightarrow> llm_name p \<notin> set (providers res)))
   \<and> getConsensus parse world enabled
       = getConsensus parse world
           (Some (map llm_name (filter (plugin_accepted parse world) (providersToUse enabled))))
   \<and> MIN_CONFIDENCE = round_double (7 / 10)
   \<and> round_double (7 / 10) = Finite (6305039478318694 / 2 ^ 53)"
proof -
  have a: "valid_entry (attempt parse pc) \<longleftrightarrow>
      (case api_verdict parse pc of
         None \<Rightarrow> False
       | Some r \<Rightarrow> num_ge (confidence r) (round_double (7 / 10)))"
    by (simp add: attempt_valid_iff api_accepted_def)
  have b: "prompt \<noteq> [] \<longrightarrow>
        consensus_of (consensus_route parse prompt (Some ps))
        = consensus_of (consensus_route parse prompt (Some (filter (api_accepted parse) ps)))"
  proof
    assume p: "prompt \<noteq> []"
    have "filter valid_entry (map (attempt parse) (filter (api_accepted parse) ps))
        = filter valid_entry (map (attempt parse) ps)"
      by (rule valid_attempts_keep)
    then show "consensus_of (consensus_route parse prompt (Some ps))
        = consensus_of (consensus_route parse prompt (Some (filter (api_accepted parse) ps)))"
      using consensus_of_route_cong [OF p] by metis
  qed
  have c: "consensus_route parse prompt (Some ps) = ConsensusOk body \<longrightarrow>
        providers body = map (\<lambda>pc. cfg_provider (fst pc)) (filter (api_accepted parse) ps)"
  proof
    assume "consensus_route parse prompt (Some ps) = ConsensusOk body"
    then have "body = api_consensus (map (attempt parse) ps)
        (filter valid_entry (map (attempt parse) ps))"
      by (rule route_body) simp
    then have "providers body = map entry_provider (map (attempt parse) (filter (api_accepted parse) ps))"
      by (simp add: api_providers valid_attempts)
    also have "\<dots> = map (\<lambda>pc. cfg_provider (fst pc)) (filter (api_accepted parse) ps)"
      by (simp add: attempt_def Let_def split: sum.splits)
    finally show "providers body
        = map (\<lambda>pc. cfg_provider (fst pc)) (filter (api_accepted parse) ps)" .
  qed
  have c': "consensus_route parse prompt (Some ps) = ConsensusOk body \<longrightarrow>
        (let S = api_consensus_set parse ps
         in providers body = map fst S
            \<and> votes body =
                \<lparr>optionA = length (filter (\<lambda>v. optionATrue (snd v) \<and> \<not> optionBTrue (snd v)) S),
                 optionB = length (filter (\<lambda>v. optionBTrue (snd v) \<and> \<not> optionATrue (snd v)) S)\<rparr>
            \<and> confidence body =
                num_div (foldl num_add (Finite 0) (map (\<lambda>v. confidence (snd v)) S))
                        (of_count (length S))
            \<and> reasoning body = join ''; '' (map (\<lambda>v. fst v @ '': '' @ reasoning (snd v)) S)
            \<and> allResponses body = map (attempt parse) ps)"
    unfolding Let_def
  proof (intro impI conjI)
    assume r: "consensus_route parse prompt (Some ps) = ConsensusOk body"
    show "providers body = map fst (api_consensus_set parse ps)"
      using r by (rule route_closed(1))
    show "votes body =
       \<lparr>optionA = length (filter (\<lambda>v. optionATrue (snd v) \<and> \<not> optionBTrue (snd v))
                            (api_consensus_set parse ps)),
        optionB = length (filter (\<lambda>v. optionBTrue (snd v) \<and> \<not> optionATrue (snd v))
                            (api_consensus_set parse ps))\<rparr>"
      using r by (rule route_closed(2))
    show "confidence body =
       num_div (foldl num_add (Finite 0) (map (\<lambda>v. confidence (snd v)) (api_consensus_set parse ps)))
               (of_count (length (api_consensus_set parse ps)))"
      using r by (rule route_closed(3))
    show "reasoning body =
       join ''; '' (map (\<lambda>v. fst v @ '': '' @ reasoning (snd v)) (api_consensus_set parse ps))"
      using r by (rule route_closed(4))
    show "allResponses body = map (attempt parse) ps"
      using r by (rule route_closed(5))
  qed
  have d: "collect parse world qs = collect parse world (filter (plugin_accepted parse world) qs)"
    by (rule collect_keep [symmetric])
  have e: "getConsensus parse world enabled = Inr res \<longrightarrow>
        (let S = plugin_consensus_set parse world (providersToUse enabled)
         in providers res = map provider S
            \<and> votes res =
                \<lparr>optionA = length (filter (\<lambda>r. optionATrue r \<and> \<not> optionBTrue r) S),
                 optionB = length (filter (\<lambda>r. optionBTrue r \<and> \<not> optionATrue r) S)\<rparr>
            \<and> confidence res =
                num_div (foldl num_add (Finite 0) (map confidence S)) (of_count (length S))
            \<and> reasoning res = join ''; '' (map (\<lambda>r. provider r @ '': '' @ reasoning r) S))"
    unfolding Let_def
  proof (intro impI conjI)
    assume r: "getConsensus parse world enabled = Inr res"
    show "providers res = map provider (plugin_consensus_set parse world (providersToUse enabled))"
      using r by (rule getConsensus_closed(1))
    show "votes res =
       \<lparr>optionA = length (filter (\<lambda>r. optionATrue r \<and> \<not> optionBTrue r)
                            (plugin_consensus_set parse world (providersToUse enabled))),
        optionB = length (filter (\<lambda>r. optionBTrue r \<and> \<not> optionATrue r)
                            (plugin_consensus_set parse world (providersToUse enabled)))\<rparr>"
      using r by (rule getConsensus_closed(2))
    show "confidence res =
       num_div (foldl num_add (Finite 0)
                  (map confidence (plugin_consensus_set parse world (providersToUse enabled))))
               (of_count (length (plugin_consensus_set parse world (providersToUse enabled))))"
      using r by (rule getConsensus_closed(3))
    show "reasoning res =
       join ''; '' (map (\<lambda>r. provider r @ '': '' @ reasoning r)
                      (plugin_consensus_set parse world (providersToUse enabled)))"
      using r by (rule getConsensus_closed(4))
  qed
  have f: "getConsensus parse world enabled = Inr res \<longrightarrow>
        (\<forall>p\<in>set (providersToUse enabled).
           \<not> plugin_accepted parse world p \<longrightarrow> llm_name p \<notin> set (providers res))"
    using rejected_not_named [of _ enabled parse world res] by blast
  have g: "getConsensus parse world enabled
       = getConsensus parse world
           (Some (map llm_name (filter (plugin_accepted parse world) (providersToUse enabled))))"
    by (rule getConsensus_accepted_only)
  have h: "MIN_CONFIDENCE = round_double (7 / 10)" by (simp only: MIN_CONFIDENCE_def)
  from a valid_attempts [of parse ps] b c c' collect_accepted [of parse world qs] d e f g h
    floor_value
  show ?thesis by (intro conjI)
qed

theorem confidence_floor_witness:
  "''Will it rain?'' \<noteq> []
   \<and> api_verdicts sample_parse low_calls =
       [(''openai'', \<lparr>optionATrue = False, optionBTrue = True, confidence = Finite (1 / 2),
                      reasoning = ''unsure''\<rparr>),
        (''deepseek'', \<lparr>optionATrue = True, optionBTrue = False,
                        confidence = round_double (9 / 10), reasoning = ''ok''\<rparr>),
        (''gemini'', \<lparr>optionATrue = True, optionBTrue = False,
                      confidence = round_double (9 / 10), reasoning = ''ok''\<rparr>)]
   \<and> \<not> num_ge (Finite (1 / 2)) (round_double (7 / 10))
   \<and> consensus_route sample_parse ''Will it rain?'' (Some low_calls)
     = ConsensusOk
       \<lparr>optionATrue = True, optionBTrue = False, confidence = round_double (9 / 10),
        reasoning = ''deepseek: ok; gemini: ok'', providers = [''deepseek'', ''gemini''],
        votes = \<lparr>optionA = 2, optionB = 0\<rparr>,
        allResponses = map (attempt sample_parse) low_calls\<rparr>
   \<and> consensus_of (consensus_route sample_parse ''Will it rain?'' (Some low_calls))
     = consensus_of (consensus_route sample_parse ''Will it rain?''
         (Some (filter (api_accepted sample_parse) low_calls)))
   \<and> [''deepseek'', ''gemini'']
     = map (\<lambda>pc. cfg_provider (fst pc)) (filter (api_accepted sample_parse) low_calls)
   \<and> [''deepseek'', ''gemini''] = map fst (api_consensus_set sample_parse low_calls)
   \<and> \<lparr>optionA = 2, optionB = 0\<rparr> =
       \<lparr>optionA = length (filter (\<lambda>v. optionATrue (snd v) \<and> \<not> optionBTrue (snd v))
                            (api_consensus_set sample_parse low_calls)),
        optionB = length (filter (\<lambda>v. optionBTrue (snd v) \<and> \<not> optionATrue (snd v))
                            (api_consensus_set sample_parse low_calls))\<rparr>
   \<and> round_double (9 / 10) =
       num_div (foldl num_add (Finite 0)
                  (map (\<lambda>v. confidence (snd v)) (api_consensus_set sample_parse low_calls)))
               (of_count (length (api_consensus_set sample_parse low_calls)))
   \<and> ''deepseek: ok; gemini: ok'' =
       join ''; '' (map (\<lambda>v. fst v @ '': '' @ reasoning (snd v))
                      (api_consensus_set sample_parse low_calls))
   \<and> plugin_verdicts sample_parse world_low (providersToUse None) =
       [\<lparr>optionATrue = False, optionBTrue = True, confidence = Finite (1 / 2),
         reasoning = ''unsure'', provider = ''openai'', model = ''gpt-4''\<rparr>,
        \<lparr>optionATrue = True, optionBTrue = False, confidence = round_double (9 / 10),
         reasoning = ''ok'', provider = ''deepseek'', model = ''deepseek-chat''\<rparr>,
        \<lparr>optionATrue = True, optionBTrue = False, confidence = round_double (9 / 10),
         reasoning = ''ok'', provider = ''gemini'', model = ''gemini-1.5-flash''\<rparr>]
   \<and> \<not> num_ge (Finite (1 / 2)) MIN_CONFIDENCE
   \<and> getConsensus sample_parse world_low None
     = Inr \<lparr>optionATrue = True, optionBTrue = False, confidence = round_double (9 / 10),
            reasoning = ''deepseek: ok; gemini: ok'', providers = [''deepseek'', ''gemini''],
            votes = \<lparr>optionA = 2, optionB = 0\<rparr>\<rparr>
   \<and> [''deepseek'', ''gemini'']
     = map provider (plugin_consensus_set sample_parse world_low (providersToUse None))
   \<and> \<lparr>optionA = 2, optionB = 0\<rparr> =
       \<lparr>optionA = length (filter (\<lambda>r. optionATrue r \<and> \<not> optionBTrue r)
                            (plugin_consensus_set sample_parse world_low (providersToUse None))),
        optionB = length (filter (\<lambda>r. optionBTrue r \<and> \<not> optionATrue r)
                            (plugin_consensus_set sample_parse world_low (providersToUse None)))\<rparr>
   \<and> round_double (9 / 10) =
       num_div (foldl num_add (Finite 0)
                  (map confidence (plugin_consensus_set sample_parse world_low (providersToUse None))))
               (of_count (length (plugin_consensus_set sample_parse world_low (providersToUse None))))
   \<and> ''deepseek: ok; gemini: ok'' =
       join ''; '' (map (\<lambda>r. provider r @ '': '' @ reasoning r)
                      (plugin_consensus_set sample_parse world_low (providersToUse None)))
   \<and> openai \<in> set (providersToUse None)
   \<and> \<not> plugin_accepted sample_parse world_low openai
   \<and> llm_name openai \<notin> set [''deepseek'', ''gemini'']"
proof -
  let ?b = "\<lparr>optionATrue = True, optionBTrue = False, confidence = round_double (9 / 10),
        reasoning = ''deepseek: ok; gemini: ok'', providers = [''deepseek'', ''gemini''],
        votes = \<lparr>optionA = 2, optionB = 0\<rparr>,
        allResponses = map (attempt sample_parse) low_calls\<rparr>"
  let ?r = "\<lparr>optionATrue = True, optionBTrue = False, confidence = round_double (9 / 10),
            reasoning = ''deepseek: ok; gemini: ok'', providers = [''deepseek'', ''gemini''],
            votes = \<lparr>optionA = 2, optionB = 0\<rparr>\<rparr>"
  let ?S = "api_consensus_set sample_parse low_calls"
  let ?T = "plugin_consensus_set sample_parse world_low (providersToUse None)"
  note t = confidence_floor [where parse = sample_parse and prompt = "''Will it rain?''"
      and ps = low_calls and body = ?b and world = world_low and enabled = None and res = ?r,
      unfolded Let_def]
  have p: "''Will it rain?'' \<noteq> []" by simp
  have r: "consensus_route sample_parse ''Will it rain?'' (Some low_calls) = ConsensusOk ?b"
    by (rule route_low)
  have g: "getConsensus sample_parse world_low None = Inr ?r"
    by (rule consensus_low)
  from t p have c1: "consensus_of (consensus_route sample_parse ''Will it rain?'' (Some low_calls))
     = consensus_of (consensus_route sample_parse ''Will it rain?''
         (Some (filter (api_accepted sample_parse) low_calls)))"
    by blast
  from t r have "providers ?b
     = map (\<lambda>pc. cfg_provider (fst pc)) (filter (api_accepted sample_parse) low_calls)"
    by blast
  then have c2: "[''deepseek'', ''gemini'']
     = map (\<lambda>pc. cfg_provider (fst pc)) (filter (api_accepted sample_parse) low_calls)"
    by simp
  from t r have "providers ?b = map fst ?S" by blast
  then have c3: "[''deepseek'', ''gemini''] = map fst ?S" by simp
  from t r have "votes ?b =
       \<lparr>optionA = length (filter (\<lambda>v. optionATrue (snd v) \<and> \<not> optionBTrue (snd v)) ?S),
        optionB = length (filter (\<lambda>v. optionBTrue (snd v) \<and> \<not> optionATrue (snd v)) ?S)\<rparr>"
    by blast
  then have c4: "\<lparr>optionA = 2, optionB = 0\<rparr> =
       \<lparr>optionA = length (filter (\<lambda>v. optionATrue (snd v) \<and> \<not> optionBTrue (snd v)) ?S),
        optionB = length (filter (\<lambda>v. optionBTrue (snd v) \<and> \<not> optionATrue (snd v)) ?S)\<rparr>"
    by (simp only: ConsensusResult.select_convs)
  from t r have "confidence ?b =
       num_div (foldl num_add (Finite 0) (map (\<lambda>v. confidence (snd v)) ?S)) (of_count (length ?S))"
    by blast
  then have c5: "round_double (9 / 10) =
       num_div (foldl num_add (Finite 0) (map (\<lambda>v. confidence (snd v)) ?S)) (of_count (length ?S))"
    by (simp only: OracleResponse.select_convs)
  from t r have "reasoning ?b = join ''; '' (map (\<lambda>v. fst v @ '': '' @ reasoning (snd v)) ?S)"
    by blast
  then have c6: "''deepseek: ok; gemini: ok'' =
       join ''; '' (map (\<lambda>v. fst v @ '': '' @ reasoning (snd v)) ?S)"
    by (simp only: OracleResponse.select_convs)
  from t g have "providers ?r = map provider ?T" by blast
  then have d1: "[''deepseek'', ''gemini''] = map provider ?T"
    by (simp only: ConsensusResult.select_convs)
  from t g have "votes ?r =
       \<lparr>optionA = length (filter (\<lambda>r. optionATrue r \<and> \<not> optionBTrue r) ?T),
        optionB = length (filter (\<lambda>r. optionBTrue r \<and> \<not> optionATrue r) ?T)\<rparr>"
    by blast
  then have d2: "\<lparr>optionA = 2, optionB = 0\<rparr> =
       \<lparr>optionA = length (filter (\<lambda>r. optionATrue r \<and> \<not> optionBTrue r) ?T),
        optionB = length (filter (\<lambda>r. optionBTrue r \<and> \<not> optionATrue r) ?T)\<rparr>"
    by (simp only: ConsensusResult.select_convs)
  from t g have "confidence ?r =
       num_div (foldl num_add (Finite 0) (map confidence ?T)) (of_count (length ?T))"
    by blast
  then have d3: "round_double (9 / 10) =
       num_div (foldl num_add (Finite 0) (map confidence ?T)) (of_count (length ?T))"
    by (simp only: OracleResponse.select_convs)
  from t g have "reasoning ?r = join ''; '' (map (\<lambda>r. provider r @ '': '' @ reasoning r) ?T)"
    by blast
  then have d4: "''deepseek: ok; gemini: ok'' =
       join ''; '' (map (\<lambda>r. provider r @ '': '' @ reasoning r) ?T)"
    by (simp only: OracleResponse.select_convs)
  have o: "openai \<in> set (providersToUse None)"
    by (simp add: providersToUse_def LLM_PROVIDERS_def openai_def)
  have n: "\<not> plugin_accepted sample_parse world_low openai"
    by (simp add: plugin_accepted_def world_low_def openai_def low_verdicts)
  from t g o n have "llm_name openai \<notin> set (providers ?r)" by blast
  then have d5: "llm_name openai \<notin> set [''deepseek'', ''gemini'']"
    by simp
  from p api_verdicts_low low_verdicts(4) r c1 c2 c3 c4 c5 c6 plugin_verdicts_low
    low_verdicts(3) g d1 d2 d3 d4 o n d5
  show ?thesis by (intro conjI)
qed

section \<open>The consensus threshold\<close>

text \<open>
  Claim C7. In every consensus that is returned, \<^verbatim>\<open>optionATrue\<close> holds exactly when the
  votes for A reach the threshold, and \<^verbatim>\<open>optionBTrue\<close> exactly when the votes for B do.
  On the HTTP service the threshold is \<open>ceil(n / 2)\<close> for the \<open>n\<close> accepted
  verdicts (the length of \<^verbatim>\<open>providers\<close>); in the plugin it is the constant 2. Both
  flags can be false at once: one accepted verdict for A in the plugin, one accepted verdict
  with both flags true on the service.
\<close>

theorem threshold_rule:
  "(consensus_route parse prompt ps = ConsensusOk body \<longrightarrow>
      (optionATrue body \<longleftrightarrow> (length (providers body) + 1) div 2 \<le> optionA (votes body))
      \<and> (optionBTrue body \<longleftrightarrow> (length (providers body) + 1) div 2 \<le> optionB (votes body))
      \<and> providers body = map entry_provider (filter valid_entry (allResponses body)))
   \<and> int ((n + 1) div 2) = \<lceil>rat_of_nat n / 2\<rceil>
   \<and> (getConsensus parse world enabled = Inr c \<longrightarrow>
      CONSENSUS_THRESHOLD = 2
      \<and> (optionATrue c \<longleftrightarrow> CONSENSUS_THRESHOLD \<le> optionA (votes c))
      \<and> (optionBTrue c \<longleftrightarrow> CONSENSUS_THRESHOLD \<le> optionB (votes c)))
   \<and> \<not> optionATrue (reduce [verdict ''openai'' True False (9 / 10)])
   \<and> \<not> optionBTrue (reduce [verdict ''openai'' True False (9 / 10)])
   \<and> \<not> optionATrue (api_consensus all [entry ''openai'' True True (9 / 10)])
   \<and> \<not> optionBTrue (api_consensus all [entry ''openai'' True True (9 / 10)])"
proof -
  have api: "consensus_route parse prompt ps = ConsensusOk body \<longrightarrow>
      (optionATrue body \<longleftrightarrow> (length (providers body) + 1) div 2 \<le> optionA (votes body))
      \<and> (optionBTrue body \<longleftrightarrow> (length (providers body) + 1) div 2 \<le> optionB (votes body))
      \<and> providers body = map entry_provider (filter valid_entry (allResponses body))"
  proof
    assume r: "consensus_route parse prompt ps = ConsensusOk body"
    then obtain l where l: "ps = Some l" "prompt \<noteq> []"
      by (auto simp: consensus_route_def split: option.splits if_splits)
    define responses where "responses = map (attempt parse) l"
    have body: "body = api_consensus responses (filter valid_entry responses)"
      using r l by (simp add: consensus_route_def Let_def responses_def split: if_splits)
    have "allResponses body = responses" by (simp add: body api_consensus_def Let_def)
    then show "(optionATrue body \<longleftrightarrow> (length (providers body) + 1) div 2 \<le> optionA (votes body))
      \<and> (optionBTrue body \<longleftrightarrow> (length (providers body) + 1) div 2 \<le> optionB (votes body))
      \<and> providers body = map entry_provider (filter valid_entry (allResponses body))"
      using api_flags [of responses "filter valid_entry responses"]
      by (simp add: body api_providers)
  qed
  have plugin: "getConsensus parse world enabled = Inr c \<longrightarrow>
      CONSENSUS_THRESHOLD = 2
      \<and> (optionATrue c \<longleftrightarrow> CONSENSUS_THRESHOLD \<le> optionA (votes c))
      \<and> (optionBTrue c \<longleftrightarrow> CONSENSUS_THRESHOLD \<le> optionB (votes c))"
  proof
    assume "getConsensus parse world enabled = Inr c"
    then obtain rs where "c = reduce rs"
      by (auto simp: getConsensus_def Let_def split: if_splits)
    then show "CONSENSUS_THRESHOLD = 2
      \<and> (optionATrue c \<longleftrightarrow> CONSENSUS_THRESHOLD \<le> optionA (votes c))
      \<and> (optionBTrue c \<longleftrightarrow> CONSENSUS_THRESHOLD \<le> optionB (votes c))"
      using reduce_flags [of rs] by (simp add: CONSENSUS_THRESHOLD_def)
  qed
  have ex1: "\<not> optionATrue (reduce [verdict ''openai'' True False (9 / 10)])"
    "\<not> optionBTrue (reduce [verdict ''openai'' True False (9 / 10)])"
    by (simp_all add: reduce_flags reduce_votes verdict_def CONSENSUS_THRESHOLD_def)
  have ex2: "\<not> optionATrue (api_consensus all [entry ''openai'' True True (9 / 10)])"
    "\<not> optionBTrue (api_consensus all [entry ''openai'' True True (9 / 10)])"
    by (simp_all add: api_flags api_votes entry_def)
  from api plugin ex1 ex2 ceil_half [of n] show ?thesis by (simp only: simp_thms)
qed

theorem threshold_rule_witness:
  "consensus_route sample_parse ''Will it rain?'' (Some sample_calls)
     = ConsensusOk
       \<lparr>optionATrue = True, optionBTrue = False, confidence = round_double (9 / 10),
        reasoning = ''gemini: ok'', providers = [''gemini''],
        votes = \<lparr>optionA = 1, optionB = 0\<rparr>,
        allResponses = map (attempt sample_parse) sample_calls\<rparr>
   \<and> (length [''gemini''] + 1) div 2 \<le> (1::nat)
   \<and> getConsensus sample_parse world_one_answer None
     = Inr \<lparr>optionATrue = False, optionBTrue = False, confidence = round_double (9 / 10),
          reasoning = ''gemini: ok'', providers = [''gemini''],
          votes = \<lparr>optionA = 1, optionB = 0\<rparr>\<rparr>
   \<and> \<not> CONSENSUS_THRESHOLD \<le> 1"
  using threshold_rule [where parse = sample_parse and prompt = "''Will it rain?''"
      and ps = "Some sample_calls" and n = 0 and world = world_one_answer and enabled = None
      and body = "\<lparr>optionATrue = True, optionBTrue = False, confidence = round_double (9 / 10),
        reasoning = ''gemini: ok'', providers = [''gemini''],
        votes = \<lparr>optionA = 1, optionB = 0\<rparr>,
        allResponses = map (attempt sample_parse) sample_calls\<rparr>"
      and c = "\<lparr>optionATrue = False, optionBTrue = False, confidence = round_double (9 / 10),
          reasoning = ''gemini: ok'', providers = [''gemini''],
          votes = \<lparr>optionA = 1, optionB = 0\<rparr>\<rparr>"]
  by (simp add: route_sample consensus_one_answer valid_samples CONSENSUS_THRESHOLD_def)

section \<open>A failing provider does not abort the evaluation\<close>

text \<open>
  Claim C8. A provider whose call fails (the network or the HTTP status, a missing key,
  a text without a JSON object, a text that does not parse, a field that is missing or has
  the wrong type) produces no verdict: on the HTTP service its attempt is recorded with the
  error message and is not valid, in the plugin its call returns \<^verbatim>\<open>null\<close>. Whenever
  at least one provider is accepted, the evaluation does not fail: the route answers a
  consensus and \<^verbatim>\<open>getConsensus\<close> returns one. That result is the consensus of the
  accepted verdicts of the remaining providers: its \<^verbatim>\<open>providers\<close> list names them,
  its vote counts are the numbers of their one-sided verdicts, its flags compare these counts
  with the threshold, its confidence is their mean and its reasoning is their trail; on the
  service \<^verbatim>\<open>allResponses\<close> holds every attempt, the failed ones too. It is the
  consensus obtained without the failing providers.
\<close>

theorem failures_absorbed:
  "api_verdict parse (c, Thrown e) = None
   \<and> api_verdict parse (c, NotOk status statusText) = None
   \<and> (jsonMatch t = None \<longrightarrow> api_verdict parse (c, Content t) = None)
   \<and> (jsonMatch t = Some m \<and> parse m = Inl msg \<longrightarrow> api_verdict parse (c, Content t) = None)
   \<and> (jsonMatch t = Some m \<and> parse m = Inr v \<and> required_fields v = None \<longrightarrow>
        api_verdict parse (c, Content t) = None)
   \<and> (api_verdict parse pc = None \<longrightarrow>
        (\<exists>e. entry_error (attempt parse pc) = Some (message e))
        \<and> \<not> valid_entry (attempt parse pc))
   \<and> (prompt \<noteq> [] \<and> (\<exists>pc\<in>set ps. api_accepted parse pc) \<longrightarrow>
        consensus_route parse prompt (Some ps)
          = ConsensusOk (api_consensus (map (attempt parse) ps)
                           (filter valid_entry (map (attempt parse) ps)))
        \<and> consensus_of (consensus_route parse prompt (Some ps))
          = consensus_of (consensus_route parse prompt
              (Some (filter (\<lambda>pc. api_verdict parse pc \<noteq> None) ps))))
   \<and> (prompt \<noteq> [] \<and> (\<exists>pc\<in>set ps. api_accepted parse pc) \<longrightarrow>
        (case consensus_route parse prompt (Some ps) of
           ConsensusOk body \<Rightarrow>
             (let S = api_consensus_set parse (filter (\<lambda>pc. api_verdict parse pc \<noteq> None) ps)
              in S \<noteq> []
                 \<and> providers body = map fst S
                 \<and> votes body =
                     \<lparr>optionA = length (filter (\<lambda>v. optionATrue (snd v) \<and> \<not> optionBTrue (snd v)) S),
                      optionB = length (filter (\<lambda>v. optionBTrue (snd v) \<and> \<not> optionATrue (snd v)) S)\<rparr>
                 \<and> optionATrue body = ((length S + 1) div 2 \<le> optionA (votes body))
                 \<and> optionBTrue body = ((length S + 1) div 2 \<le> optionB (votes body))
                 \<and> confidence body =
                     num_div (foldl num_add (Finite 0) (map (\<lambda>v. confidence (snd v)) S))
                             (of_count (length S))
                 \<and> reasoning body = join ''; '' (map (\<lambda>v. fst v @ '': '' @ reasoning (snd v)) S)
                 \<and> allResponses body = map (attempt parse) ps)
         | _ \<Rightarrow> False))
   \<and> (io_apiKey io = None \<or> io_apiKey io = Some [] \<longrightarrow> callLLMProvider parse io p = None)
   \<and> (io_generateText io = Inl e \<longrightarrow> callLLMProvider parse io p = None)
   \<and> (io_generateText io = Inr t \<and> jsonMatch t = None \<longrightarrow> callLLMProvider parse io p = None)
   \<and> (io_generateText io = Inr t \<and> jsonMatch t = Some m \<and> parse m = Inl msg \<longrightarrow>
        callLLMProvider parse io p = None)
   \<and> (io_generateText io = Inr t \<and> jsonMatch t = Some m \<and> parse m = Inr v
        \<and> required_fields v = None \<longrightarrow> callLLMProvider parse io p = None)
   \<and> ((\<exists>q\<in>set (providersToUse enabled). plugin_accepted parse world q) \<longrightarrow>
        getConsensus parse world enabled
          = Inr (reduce (collect parse world (providersToUse enabled)))
        \<and> collect parse world (providersToUse enabled)
          = collect parse world
              (filter (\<lambda>q. callLLMProvider parse (world q) q \<noteq> None) (providersToUse enabled)))
   \<and> ((\<exists>q\<in>set (providersToUse enabled). plugin_accepted parse world q) \<longrightarrow>
        (case getConsensus parse world enabled of
           Inr res \<Rightarrow>
             (let S = plugin_consensus_set parse world
                        (filter (\<lambda>q. callLLMProvider parse (world q) q \<noteq> None)
                           (providersToUse enabled))
              in S \<noteq> []
                 \<and> providers res = map provider S
                 \<and> votes res =
                     \<lparr>optionA = length (filter (\<lambda>r. optionATrue r \<and> \<not> optionBTrue r) S),
                      optionB = length (filter (\<lambda>r. optionBTrue r \<and> \<not> optionATrue r) S)\<rparr>
                 \<and> optionATrue res = (CONSENSUS_THRESHOLD \<le> optionA (votes res))
                 \<and> optionBTrue res = (CONSENSUS_THRESHOLD \<le> optionB (votes res))
                 \<and> confidence res =
                     num_div (foldl num_add (Finite 0) (map confidence S)) (of_count (length S))
                 \<and> reasoning res = join ''; '' (map (\<lambda>r. provider r @ '': '' @ reasoning r) S))
         | Inl err \<Rightarrow> False))"
proof -
  have a1: "api_verdict parse (c, Thrown e) = None"
    "api_verdict parse (c, NotOk status statusText) = None"
    by (simp_all add: api_verdict_def callLLMProvider_api_def)
  have a2: "jsonMatch t = None \<longrightarrow> api_verdict parse (c, Content t) = None"
    "jsonMatch t = Some m \<and> parse m = Inl msg \<longrightarrow> api_verdict parse (c, Content t) = None"
    by (simp_all add: api_verdict_def callLLMProvider_api_def parseOracleResponse_def)
  have a3: "jsonMatch t = Some m \<and> parse m = Inr v \<and> required_fields v = None \<longrightarrow>
        api_verdict parse (c, Content t) = None"
  proof
    assume "jsonMatch t = Some m \<and> parse m = Inr v \<and> required_fields v = None"
    then have "isl (parseOracleResponse parse t)"
      using required_fields_None_parse [of t m parse v] by blast
    then obtain e where "parseOracleResponse parse t = Inl e"
      by (cases "parseOracleResponse parse t") simp_all
    then show "api_verdict parse (c, Content t) = None"
      by (simp add: api_verdict_def callLLMProvider_api_def)
  qed
  have a4: "api_verdict parse pc = None \<longrightarrow>
        (\<exists>e. entry_error (attempt parse pc) = Some (message e))
        \<and> \<not> valid_entry (attempt parse pc)"
    using attempt_failed [of parse pc] by (auto simp: attempt_valid_iff api_accepted_def)
  have a5: "prompt \<noteq> [] \<and> (\<exists>pc\<in>set ps. api_accepted parse pc) \<longrightarrow>
        consensus_route parse prompt (Some ps)
          = ConsensusOk (api_consensus (map (attempt parse) ps)
                           (filter valid_entry (map (attempt parse) ps)))
        \<and> consensus_of (consensus_route parse prompt (Some ps))
          = consensus_of (consensus_route parse prompt
              (Some (filter (\<lambda>pc. api_verdict parse pc \<noteq> None) ps)))"
  proof (intro impI conjI)
    assume h: "prompt \<noteq> [] \<and> (\<exists>pc\<in>set ps. api_accepted parse pc)"
    then show "consensus_route parse prompt (Some ps)
          = ConsensusOk (api_consensus (map (attempt parse) ps)
                           (filter valid_entry (map (attempt parse) ps)))"
      by (simp add: route_cases)
    have "filter valid_entry (map (attempt parse) (filter (\<lambda>pc. api_verdict parse pc \<noteq> None) ps))
        = filter valid_entry (map (attempt parse) ps)"
      by (rule valid_attempts_keep) (auto simp: api_accepted_def split: option.splits)
    then show "consensus_of (consensus_route parse prompt (Some ps))
          = consensus_of (consensus_route parse prompt
              (Some (filter (\<lambda>pc. api_verdict parse pc \<noteq> None) ps)))"
      using h consensus_of_route_cong [of prompt parse] by metis
  qed
  have a6: "prompt \<noteq> [] \<and> (\<exists>pc\<in>set ps. api_accepted parse pc) \<longrightarrow>
        (case consensus_route parse prompt (Some ps) of
           ConsensusOk body \<Rightarrow>
             (let S = api_consensus_set parse (filter (\<lambda>pc. api_verdict parse pc \<noteq> None) ps)
              in S \<noteq> []
                 \<and> providers body = map fst S
                 \<and> votes body =
                     \<lparr>optionA = length (filter (\<lambda>v. optionATrue (snd v) \<and> \<not> optionBTrue (snd v)) S),
                      optionB = length (filter (\<lambda>v. optionBTrue (snd v) \<and> \<not> optionATrue (snd v)) S)\<rparr>
                 \<and> optionATrue body = ((length S + 1) div 2 \<le> optionA (votes body))
                 \<and> optionBTrue body = ((length S + 1) div 2 \<le> optionB (votes body))
                 \<and> confidence body =
                     num_div (foldl num_add (Finite 0) (map (\<lambda>v. confidence (snd v)) S))
                             (of_count (length S))
                 \<and> reasoning body = join ''; '' (map (\<lambda>v. fst v @ '': '' @ reasoning (snd v)) S)
                 \<and> allResponses body = map (attempt parse) ps)
         | _ \<Rightarrow> False)"
  proof
    assume h: "prompt \<noteq> [] \<and> (\<exists>pc\<in>set ps. api_accepted parse pc)"
    define body where "body = api_consensus (map (attempt parse) ps)
        (filter valid_entry (map (attempt parse) ps))"
    from h have r: "consensus_route parse prompt (Some ps) = ConsensusOk body"
      by (simp add: route_cases body_def)
    note f = route_closed [OF r]
    show "case consensus_route parse prompt (Some ps) of
           ConsensusOk body \<Rightarrow>
             (let S = api_consensus_set parse (filter (\<lambda>pc. api_verdict parse pc \<noteq> None) ps)
              in S \<noteq> []
                 \<and> providers body = map fst S
                 \<and> votes body =
                     \<lparr>optionA = length (filter (\<lambda>v. optionATrue (snd v) \<and> \<not> optionBTrue (snd v)) S),
                      optionB = length (filter (\<lambda>v. optionBTrue (snd v) \<and> \<not> optionATrue (snd v)) S)\<rparr>
                 \<and> optionATrue body = ((length S + 1) div 2 \<le> optionA (votes body))
                 \<and> optionBTrue body = ((length S + 1) div 2 \<le> optionB (votes body))
                 \<and> confidence body =
                     num_div (foldl num_add (Finite 0) (map (\<lambda>v. confidence (snd v)) S))
                             (of_count (length S))
                 \<and> reasoning body = join ''; '' (map (\<lambda>v. fst v @ '': '' @ reasoning (snd v)) S)
                 \<and> allResponses body = map (attempt parse) ps)
         | _ \<Rightarrow> False"
      unfolding r http_result.case Let_def api_set_remaining
      using f(8) f(1) f(2) f(6) f(7) f(3) f(4) f(5) by (intro conjI)
  qed
  have b1: "io_apiKey io = None \<or> io_apiKey io = Some [] \<longrightarrow> callLLMProvider parse io p = None"
    "io_generateText io = Inl e \<longrightarrow> callLLMProvider parse io p = None"
    "io_generateText io = Inr t \<and> jsonMatch t = None \<longrightarrow> callLLMProvider parse io p = None"
    "io_generateText io = Inr t \<and> jsonMatch t = Some m \<and> parse m = Inl msg \<longrightarrow>
        callLLMProvider parse io p = None"
    by (auto simp: callLLMProvider_def split: option.splits)
  have b2: "io_generateText io = Inr t \<and> jsonMatch t = Some m \<and> parse m = Inr v
        \<and> required_fields v = None \<longrightarrow> callLLMProvider parse io p = None"
    using required_fields_None_call [of io t m parse v p] by blast
  have b3: "(\<exists>q\<in>set (providersToUse enabled). plugin_accepted parse world q) \<longrightarrow>
        getConsensus parse world enabled
          = Inr (reduce (collect parse world (providersToUse enabled)))
        \<and> collect parse world (providersToUse enabled)
          = collect parse world
              (filter (\<lambda>q. callLLMProvider parse (world q) q \<noteq> None) (providersToUse enabled))"
  proof (intro impI conjI)
    assume "\<exists>q\<in>set (providersToUse enabled). plugin_accepted parse world q"
    then show "getConsensus parse world enabled
          = Inr (reduce (collect parse world (providersToUse enabled)))"
      by (simp add: getConsensus_cases)
    show "collect parse world (providersToUse enabled)
          = collect parse world
              (filter (\<lambda>q. callLLMProvider parse (world q) q \<noteq> None) (providersToUse enabled))"
      by (rule collect_keep [symmetric]) (auto simp: plugin_accepted_def split: option.splits)
  qed
  have b4: "(\<exists>q\<in>set (providersToUse enabled). plugin_accepted parse world q) \<longrightarrow>
        (case getConsensus parse world enabled of
           Inr res \<Rightarrow>
             (let S = plugin_consensus_set parse world
                        (filter (\<lambda>q. callLLMProvider parse (world q) q \<noteq> None)
                           (providersToUse enabled))
              in S \<noteq> []
                 \<and> providers res = map provider S
                 \<and> votes res =
                     \<lparr>optionA = length (filter (\<lambda>r. optionATrue r \<and> \<not> optionBTrue r) S),
                      optionB = length (filter (\<lambda>r. optionBTrue r \<and> \<not> optionATrue r) S)\<rparr>
                 \<and> optionATrue res = (CONSENSUS_THRESHOLD \<le> optionA (votes res))
                 \<and> optionBTrue res = (CONSENSUS_THRESHOLD \<le> optionB (votes res))
                 \<and> confidence res =
                     num_div (foldl num_add (Finite 0) (map confidence S)) (of_count (length S))
                 \<and> reasoning res = join ''; '' (map (\<lambda>r. provider r @ '': '' @ reasoning r) S))
         | Inl err \<Rightarrow> False)"
  proof
    assume h: "\<exists>q\<in>set (providersToUse enabled). plugin_accepted parse world q"
    define res where "res = reduce (collect parse world (providersToUse enabled))"
    from h have r: "getConsensus parse world enabled = Inr res"
      by (simp add: getConsensus_cases res_def)
    note f = getConsensus_closed [OF r]
    show "case getConsensus parse world enabled of
           Inr res \<Rightarrow>
             (let S = plugin_consensus_set parse world
                        (filter (\<lambda>q. callLLMProvider parse (world q) q \<noteq> None)
                           (providersToUse enabled))
              in S \<noteq> []
                 \<and> providers res = map provider S
                 \<and> votes res =
                     \<lparr>optionA = length (filter (\<lambda>r. optionATrue r \<and> \<not> optionBTrue r) S),
                      optionB = length (filter (\<lambda>r. optionBTrue r \<and> \<not> optionATrue r) S)\<rparr>
                 \<and> optionATrue res = (CONSENSUS_THRESHOLD \<le> optionA (votes res))
                 \<and> optionBTrue res = (CONSENSUS_THRESHOLD \<le> optionB (votes res))
                 \<and> confidence res =
                     num_div (foldl num_add (Finite 0) (map confidence S)) (of_count (length S))
                 \<and> reasoning res = join ''; '' (map (\<lambda>r. provider r @ '': '' @ reasoning r) S))
         | Inl err \<Rightarrow> False"
      unfolding r sum.case Let_def plugin_set_remaining
      using f(7) f(1) f(2) f(5) f(6) f(3) f(4) by (intro conjI)
  qed
  from a1 a2 a3 a4 a5 a6 b1 b2 b3 b4 show ?thesis by (intro conjI)
qed

theorem failures_absorbed_witness:
  "api_verdict sample_parse (fst (hd sample_calls), Content text_prose) = None
   \<and> api_verdict sample_parse (fst (hd sample_calls), Content text_two) = None
   \<and> api_verdict sample_parse (fst (hd sample_calls), Content text_partial) = None
   \<and> callLLMProvider sample_parse no_key openai = None
   \<and> callLLMProvider sample_parse timing_out openai = None
   \<and> callLLMProvider sample_parse (answering text_prose) openai = None
   \<and> callLLMProvider sample_parse (answering text_two) openai = None
   \<and> callLLMProvider sample_parse (answering text_partial) openai = None
   \<and> ''Will it rain?'' \<noteq> []
   \<and> (\<exists>pc\<in>set sample_calls. api_accepted sample_parse pc)
   \<and> consensus_route sample_parse ''Will it rain?'' (Some sample_calls)
     = ConsensusOk
       \<lparr>optionATrue = True, optionBTrue = False, confidence = round_double (9 / 10),
        reasoning = ''gemini: ok'', providers = [''gemini''],
        votes = \<lparr>optionA = 1, optionB = 0\<rparr>,
        allResponses =
          [\<lparr>entry_provider = ''openai'',
            entry_response = \<lparr>optionATrue = False, optionBTrue = False, confidence = Finite 0,
                              reasoning = ''Provider error''\<rparr>,
            entry_error = Some ''fetch failed''\<rparr>,
           \<lparr>entry_provider = ''deepseek'',
            entry_response = \<lparr>optionATrue = False, optionBTrue = False, confidence = Finite 0,
                              reasoning = ''Provider error''\<rparr>,
            entry_error = Some ''No JSON found in response''\<rparr>,
           \<lparr>entry_provider = ''gemini'',
            entry_response = \<lparr>optionATrue = True, optionBTrue = False,
                              confidence = round_double (9 / 10), reasoning = ''ok''\<rparr>,
            entry_error = None\<rparr>]\<rparr>
   \<and> consensus_route sample_parse ''Will it rain?'' (Some sample_calls)
     = ConsensusOk (api_consensus (map (attempt sample_parse) sample_calls)
                      (filter valid_entry (map (attempt sample_parse) sample_calls)))
   \<and> (case consensus_route sample_parse ''Will it rain?'' (Some sample_calls) of
        ConsensusOk body \<Rightarrow>
          providers body = map fst
            (api_consensus_set sample_parse
               (filter (\<lambda>pc. api_verdict sample_parse pc \<noteq> None) sample_calls))
          \<and> providers body = [''gemini'']
          \<and> votes body = \<lparr>optionA = 1, optionB = 0\<rparr>
          \<and> optionATrue body \<and> \<not> optionBTrue body
          \<and> confidence body = round_double (9 / 10)
          \<and> reasoning body = ''gemini: ok''
      | _ \<Rightarrow> False)
   \<and> (\<exists>q\<in>set (providersToUse None). plugin_accepted sample_parse world_one_answer q)
   \<and> getConsensus sample_parse world_one_answer None
     = Inr \<lparr>optionATrue = False, optionBTrue = False, confidence = round_double (9 / 10),
            reasoning = ''gemini: ok'', providers = [''gemini''],
            votes = \<lparr>optionA = 1, optionB = 0\<rparr>\<rparr>
   \<and> getConsensus sample_parse world_one_answer None
     = Inr (reduce (collect sample_parse world_one_answer (providersToUse None)))
   \<and> (case getConsensus sample_parse world_one_answer None of
        Inr res \<Rightarrow>
          providers res = map provider
            (plugin_consensus_set sample_parse world_one_answer
               (filter (\<lambda>q. callLLMProvider sample_parse (world_one_answer q) q \<noteq> None)
                  (providersToUse None)))
          \<and> providers res = [''gemini'']
          \<and> votes res = \<lparr>optionA = 1, optionB = 0\<rparr>
          \<and> \<not> optionATrue res \<and> \<not> optionBTrue res
          \<and> confidence res = round_double (9 / 10)
          \<and> reasoning res = ''gemini: ok''
      | Inl err \<Rightarrow> False)"
proof -
  let ?c = "fst (hd sample_calls)"
  have rf: "required_fields (JObject [(''optionATrue'', JBool True)]) = None"
    by (simp add: required_fields_def)
  note prose = failures_absorbed [where parse = sample_parse and t = text_prose and c = ?c
      and io = "answering text_prose" and p = openai]
  note two = failures_absorbed [where parse = sample_parse and t = text_two and c = ?c
      and m = "text_ok @ '' (schema: {}''" and msg = "''Unexpected token''"
      and io = "answering text_two" and p = openai]
  note partial = failures_absorbed [where parse = sample_parse and t = text_partial and c = ?c
      and m = text_partial and v = "JObject [(''optionATrue'', JBool True)]"
      and io = "answering text_partial" and p = openai]
  note key = failures_absorbed [where parse = sample_parse and io = no_key and p = openai]
  note thrown = failures_absorbed [where parse = sample_parse and io = timing_out
      and e = "Error ''timeout''" and p = openai]
  note run = failures_absorbed [where parse = sample_parse and prompt = "''Will it rain?''"
      and ps = sample_calls and world = world_one_answer and enabled = None]
  note run_route = run [THEN conjunct2, THEN conjunct2, THEN conjunct2, THEN conjunct2, THEN conjunct2, THEN conjunct2, THEN conjunct1]
  note run_body = run [THEN conjunct2, THEN conjunct2, THEN conjunct2, THEN conjunct2, THEN conjunct2, THEN conjunct2, THEN conjunct2, THEN conjunct1]
  note run_plugin = run [THEN conjunct2, THEN conjunct2, THEN conjunct2, THEN conjunct2, THEN conjunct2, THEN conjunct2, THEN conjunct2, THEN conjunct2, THEN conjunct2, THEN conjunct2, THEN conjunct2, THEN conjunct2, THEN conjunct2, THEN conjunct1]
  note run_result = run [THEN conjunct2, THEN conjunct2, THEN conjunct2, THEN conjunct2, THEN conjunct2, THEN conjunct2, THEN conjunct2, THEN conjunct2, THEN conjunct2, THEN conjunct2, THEN conjunct2, THEN conjunct2, THEN conjunct2, THEN conjunct2]
  have 1: "api_verdict sample_parse (?c, Content text_prose) = None"
    using prose jsonMatch_samples(4) by blast
  have 2: "api_verdict sample_parse (?c, Content text_two) = None"
    using two jsonMatch_samples(5) sample_parse_values(4) by blast
  have 3: "api_verdict sample_parse (?c, Content text_partial) = None"
    using partial jsonMatch_samples(3) sample_parse_values(3) rf by blast
  have "io_apiKey no_key = None" by (simp add: no_key_def)
  with key have 4: "callLLMProvider sample_parse no_key openai = None" by blast
  have "io_generateText timing_out = Inl (Error ''timeout'')" by (simp add: timing_out_def)
  with thrown have 5: "callLLMProvider sample_parse timing_out openai = None" by blast
  have g: "io_generateText (answering t) = Inr t" for t by (simp add: answering_def)
  have 6: "callLLMProvider sample_parse (answering text_prose) openai = None"
    using prose g [of text_prose] jsonMatch_samples(4) by blast
  have 7: "callLLMProvider sample_parse (answering text_two) openai = None"
    using two g [of text_two] jsonMatch_samples(5) sample_parse_values(4) by blast
  have 8: "callLLMProvider sample_parse (answering text_partial) openai = None"
    using partial g [of text_partial] jsonMatch_samples(3) sample_parse_values(3) rf by blast
  have p: "''Will it rain?'' \<noteq> []" by simp
  have 9: "consensus_route sample_parse ''Will it rain?'' (Some sample_calls)
     = ConsensusOk (api_consensus (map (attempt sample_parse) sample_calls)
                      (filter valid_entry (map (attempt sample_parse) sample_calls)))"
    using run_route p sample_accepted(1) by blast
  have r: "consensus_route sample_parse ''Will it rain?'' (Some sample_calls)
     = ConsensusOk
       \<lparr>optionATrue = True, optionBTrue = False, confidence = round_double (9 / 10),
        reasoning = ''gemini: ok'', providers = [''gemini''],
        votes = \<lparr>optionA = 1, optionB = 0\<rparr>,
        allResponses =
          [\<lparr>entry_provider = ''openai'',
            entry_response = \<lparr>optionATrue = False, optionBTrue = False, confidence = Finite 0,
                              reasoning = ''Provider error''\<rparr>,
            entry_error = Some ''fetch failed''\<rparr>,
           \<lparr>entry_provider = ''deepseek'',
            entry_response = \<lparr>optionATrue = False, optionBTrue = False, confidence = Finite 0,
                              reasoning = ''Provider error''\<rparr>,
            entry_error = Some ''No JSON found in response''\<rparr>,
           \<lparr>entry_provider = ''gemini'',
            entry_response = \<lparr>optionATrue = True, optionBTrue = False,
                              confidence = round_double (9 / 10), reasoning = ''ok''\<rparr>,
            entry_error = None\<rparr>]\<rparr>"
    using route_sample by (simp only: attempt_samples)
  have "case consensus_route sample_parse ''Will it rain?'' (Some sample_calls) of
        ConsensusOk body \<Rightarrow>
          (let S = api_consensus_set sample_parse
                     (filter (\<lambda>pc. api_verdict sample_parse pc \<noteq> None) sample_calls)
           in S \<noteq> []
              \<and> providers body = map fst S
              \<and> votes body =
                  \<lparr>optionA = length (filter (\<lambda>v. optionATrue (snd v) \<and> \<not> optionBTrue (snd v)) S),
                   optionB = length (filter (\<lambda>v. optionBTrue (snd v) \<and> \<not> optionATrue (snd v)) S)\<rparr>
              \<and> optionATrue body = ((length S + 1) div 2 \<le> optionA (votes body))
              \<and> optionBTrue body = ((length S + 1) div 2 \<le> optionB (votes body))
              \<and> confidence body =
                  num_div (foldl num_add (Finite 0) (map (\<lambda>v. confidence (snd v)) S))
                          (of_count (length S))
              \<and> reasoning body = join ''; '' (map (\<lambda>v. fst v @ '': '' @ reasoning (snd v)) S)
              \<and> allResponses body = map (attempt sample_parse) sample_calls)
      | _ \<Rightarrow> False"
    using p sample_accepted(1) by (intro run_body [THEN mp] conjI)
  then have 10: "case consensus_route sample_parse ''Will it rain?'' (Some sample_calls) of
        ConsensusOk body \<Rightarrow>
          providers body = map fst
            (api_consensus_set sample_parse
               (filter (\<lambda>pc. api_verdict sample_parse pc \<noteq> None) sample_calls))
          \<and> providers body = [''gemini'']
          \<and> votes body = \<lparr>optionA = 1, optionB = 0\<rparr>
          \<and> optionATrue body \<and> \<not> optionBTrue body
          \<and> confidence body = round_double (9 / 10)
          \<and> reasoning body = ''gemini: ok''
      | _ \<Rightarrow> False"
    by (simp add: r Let_def sets_one_answer of_count_def rdn)
  have c: "getConsensus sample_parse world_one_answer None
     = Inr \<lparr>optionATrue = False, optionBTrue = False, confidence = round_double (9 / 10),
            reasoning = ''gemini: ok'', providers = [''gemini''],
            votes = \<lparr>optionA = 1, optionB = 0\<rparr>\<rparr>"
    by (rule consensus_one_answer)
  have 11: "getConsensus sample_parse world_one_answer None
     = Inr (reduce (collect sample_parse world_one_answer (providersToUse None)))"
    using run_plugin sample_accepted(2) by blast
  have "case getConsensus sample_parse world_one_answer None of
        Inr res \<Rightarrow>
          (let S = plugin_consensus_set sample_parse world_one_answer
                     (filter (\<lambda>q. callLLMProvider sample_parse (world_one_answer q) q \<noteq> None)
                        (providersToUse None))
           in S \<noteq> []
              \<and> providers res = map provider S
              \<and> votes res =
                  \<lparr>optionA = length (filter (\<lambda>r. optionATrue r \<and> \<not> optionBTrue r) S),
                   optionB = length (filter (\<lambda>r. optionBTrue r \<and> \<not> optionATrue r) S)\<rparr>
              \<and> optionATrue res = (CONSENSUS_THRESHOLD \<le> optionA (votes res))
              \<and> optionBTrue res = (CONSENSUS_THRESHOLD \<le> optionB (votes res))
              \<and> confidence res =
                  num_div (foldl num_add (Finite 0) (map confidence S)) (of_count (length S))
              \<and> reasoning res = join ''; '' (map (\<lambda>r. provider r @ '': '' @ reasoning r) S))
      | Inl err \<Rightarrow> False"
    using sample_accepted(2) by (intro run_result [THEN mp])
  then have 12: "case getConsensus sample_parse world_one_answer None of
        Inr res \<Rightarrow>
          providers res = map provider
            (plugin_consensus_set sample_parse world_one_answer
               (filter (\<lambda>q. callLLMProvider sample_parse (world_one_answer q) q \<noteq> None)
                  (providersToUse None)))
          \<and> providers res = [''gemini'']
          \<and> votes res = \<lparr>optionA = 1, optionB = 0\<rparr>
          \<and> \<not> optionATrue res \<and> \<not> optionBTrue res
          \<and> confidence res = round_double (9 / 10)
          \<and> reasoning res = ''gemini: ok''
      | Inl err \<Rightarrow> False"
    by (simp add: c Let_def sets_one_answer of_count_def rdn)
  from 1 2 3 4 5 6 7 8 p sample_accepted(1) r 9 10 sample_accepted(2) c 11 12
  show ?thesis by (intro conjI)
qed

section \<open>The order of collection\<close>

text \<open>
  Claim C9, amended. When the same accepted verdicts are collected in another order, the
  vote counts and the two flags of the consensus are the same; the \<^verbatim>\<open>providers\<close> list
  and the reasoning trail hold the same entries but follow the order of collection; the
  confidence is summed in that order, so it can differ in its last bits. For finite
  confidences between the floor and 1 both orders report a confidence within the factors
  \<open>(1 - 2^-53)^(n + 1)\<close> and \<open>(1 + 2^-53)^(n + 1)\<close> of the exact mean of the \<open>n\<close>
  confidences.
\<close>

theorem permuted_collection:
  fixes xs ys :: "ProviderResponse list" and es fs all all' :: "response_entry list"
  shows
  "(mset xs = mset ys \<longrightarrow>
      votes (reduce xs) = votes (reduce ys)
      \<and> optionATrue (reduce xs) = optionATrue (reduce ys)
      \<and> optionBTrue (reduce xs) = optionBTrue (reduce ys)
      \<and> mset (providers (reduce xs)) = mset (providers (reduce ys))
      \<and> (xs \<noteq> [] \<and> length xs \<le> 2 ^ 32 \<and> list_all (\<lambda>r. in_range (confidence r)) xs \<longrightarrow>
          (\<exists>a b. confidence (reduce xs) = Finite a \<and> confidence (reduce ys) = Finite b
             \<and> sum_list (map (\<lambda>r. exact (confidence r)) xs) / of_nat (length xs)
                  * (1 - 1 / 2 ^ 53) ^ (length xs + 1) \<le> min a b
             \<and> max a b \<le> sum_list (map (\<lambda>r. exact (confidence r)) xs) / of_nat (length xs)
                  * (1 + 1 / 2 ^ 53) ^ (length xs + 1))))
   \<and> providers (reduce xs) = map provider xs
   \<and> reasoning (reduce xs) = join ''; '' (map (\<lambda>r. provider r @ '': '' @ reasoning r) xs)
   \<and> (mset es = mset fs \<longrightarrow>
      votes (api_consensus all es) = votes (api_consensus all' fs)
      \<and> optionATrue (api_consensus all es) = optionATrue (api_consensus all' fs)
      \<and> optionBTrue (api_consensus all es) = optionBTrue (api_consensus all' fs)
      \<and> mset (providers (api_consensus all es)) = mset (providers (api_consensus all' fs))
      \<and> (es \<noteq> [] \<and> length es \<le> 2 ^ 32
           \<and> list_all (\<lambda>e. in_range (confidence (entry_response e))) es \<longrightarrow>
          (\<exists>a b. confidence (api_consensus all es) = Finite a
             \<and> confidence (api_consensus all' fs) = Finite b
             \<and> sum_list (map (\<lambda>e. exact (confidence (entry_response e))) es) / of_nat (length es)
                  * (1 - 1 / 2 ^ 53) ^ (length es + 1) \<le> min a b
             \<and> max a b
                \<le> sum_list (map (\<lambda>e. exact (confidence (entry_response e))) es) / of_nat (length es)
                  * (1 + 1 / 2 ^ 53) ^ (length es + 1))))
   \<and> providers (api_consensus all es) = map entry_provider es
   \<and> reasoning (api_consensus all es)
     = join ''; '' (map (\<lambda>e. entry_provider e @ '': '' @ reasoning (entry_response e)) es)"
proof -
  have plugin: "mset xs = mset ys \<longrightarrow>
      votes (reduce xs) = votes (reduce ys)
      \<and> optionATrue (reduce xs) = optionATrue (reduce ys)
      \<and> optionBTrue (reduce xs) = optionBTrue (reduce ys)
      \<and> mset (providers (reduce xs)) = mset (providers (reduce ys))
      \<and> (xs \<noteq> [] \<and> length xs \<le> 2 ^ 32 \<and> list_all (\<lambda>r. in_range (confidence r)) xs \<longrightarrow>
          (\<exists>a b. confidence (reduce xs) = Finite a \<and> confidence (reduce ys) = Finite b
             \<and> sum_list (map (\<lambda>r. exact (confidence r)) xs) / of_nat (length xs)
                  * (1 - 1 / 2 ^ 53) ^ (length xs + 1) \<le> min a b
             \<and> max a b \<le> sum_list (map (\<lambda>r. exact (confidence r)) xs) / of_nat (length xs)
                  * (1 + 1 / 2 ^ 53) ^ (length xs + 1)))"
  proof (intro impI conjI)
    assume p: "mset xs = mset ys"
    show "votes (reduce xs) = votes (reduce ys)"
      "optionATrue (reduce xs) = optionATrue (reduce ys)"
      "optionBTrue (reduce xs) = optionBTrue (reduce ys)"
      "mset (providers (reduce xs)) = mset (providers (reduce ys))"
      by (rule reduce_perm [OF p])+
    assume h: "xs \<noteq> [] \<and> length xs \<le> 2 ^ 32 \<and> list_all (\<lambda>r. in_range (confidence r)) xs"
    have "mset (map confidence xs) = mset (map confidence ys)" by (rule map_perm [OF p])
    from band_perm [OF this] h
    show "\<exists>a b. confidence (reduce xs) = Finite a \<and> confidence (reduce ys) = Finite b
             \<and> sum_list (map (\<lambda>r. exact (confidence r)) xs) / of_nat (length xs)
                  * (1 - 1 / 2 ^ 53) ^ (length xs + 1) \<le> min a b
             \<and> max a b \<le> sum_list (map (\<lambda>r. exact (confidence r)) xs) / of_nat (length xs)
                  * (1 + 1 / 2 ^ 53) ^ (length xs + 1)"
      by (simp add: reduce_confidence list_all_iff comp_def) blast
  qed
  have api: "mset es = mset fs \<longrightarrow>
      votes (api_consensus all es) = votes (api_consensus all' fs)
      \<and> optionATrue (api_consensus all es) = optionATrue (api_consensus all' fs)
      \<and> optionBTrue (api_consensus all es) = optionBTrue (api_consensus all' fs)
      \<and> mset (providers (api_consensus all es)) = mset (providers (api_consensus all' fs))
      \<and> (es \<noteq> [] \<and> length es \<le> 2 ^ 32
           \<and> list_all (\<lambda>e. in_range (confidence (entry_response e))) es \<longrightarrow>
          (\<exists>a b. confidence (api_consensus all es) = Finite a
             \<and> confidence (api_consensus all' fs) = Finite b
             \<and> sum_list (map (\<lambda>e. exact (confidence (entry_response e))) es) / of_nat (length es)
                  * (1 - 1 / 2 ^ 53) ^ (length es + 1) \<le> min a b
             \<and> max a b
                \<le> sum_list (map (\<lambda>e. exact (confidence (entry_response e))) es) / of_nat (length es)
                  * (1 + 1 / 2 ^ 53) ^ (length es + 1)))"
  proof (intro impI conjI)
    assume p: "mset es = mset fs"
    show "votes (api_consensus all es) = votes (api_consensus all' fs)"
      "optionATrue (api_consensus all es) = optionATrue (api_consensus all' fs)"
      "optionBTrue (api_consensus all es) = optionBTrue (api_consensus all' fs)"
      "mset (providers (api_consensus all es)) = mset (providers (api_consensus all' fs))"
      by (rule api_perm [OF p])+
    assume h: "es \<noteq> [] \<and> length es \<le> 2 ^ 32
           \<and> list_all (\<lambda>e. in_range (confidence (entry_response e))) es"
    have "mset (map (\<lambda>e. confidence (entry_response e)) es)
        = mset (map (\<lambda>e. confidence (entry_response e)) fs)" by (rule map_perm [OF p])
    from band_perm [OF this] h
    show "\<exists>a b. confidence (api_consensus all es) = Finite a
             \<and> confidence (api_consensus all' fs) = Finite b
             \<and> sum_list (map (\<lambda>e. exact (confidence (entry_response e))) es) / of_nat (length es)
                  * (1 - 1 / 2 ^ 53) ^ (length es + 1) \<le> min a b
             \<and> max a b
                \<le> sum_list (map (\<lambda>e. exact (confidence (entry_response e))) es) / of_nat (length es)
                  * (1 + 1 / 2 ^ 53) ^ (length es + 1)"
      by (simp add: api_confidence list_all_iff comp_def) blast
  qed
  from plugin api reduce_providers [of xs] reduce_reasoning [of xs]
    api_providers [of all es] api_reasoning [of all es]
  show ?thesis by (intro conjI)
qed

theorem permuted_collection_witness:
  "mset order_a = mset order_b
   \<and> order_a \<noteq> [] \<and> length order_a \<le> 2 ^ 32
   \<and> list_all (\<lambda>r. in_range (confidence r)) order_a
   \<and> votes (reduce order_a) = votes (reduce order_b)
   \<and> optionATrue (reduce order_a) = optionATrue (reduce order_b)
   \<and> mset (providers (reduce order_a)) = mset (providers (reduce order_b))
   \<and> (\<exists>a b. confidence (reduce order_a) = Finite a \<and> confidence (reduce order_b) = Finite b
         \<and> sum_list (map (\<lambda>r. exact (confidence r)) order_a) / of_nat (length order_a)
              * (1 - 1 / 2 ^ 53) ^ (length order_a + 1) \<le> min a b
         \<and> max a b \<le> sum_list (map (\<lambda>r. exact (confidence r)) order_a) / of_nat (length order_a)
              * (1 + 1 / 2 ^ 53) ^ (length order_a + 1))
   \<and> mset entries_a = mset entries_b
   \<and> entries_a \<noteq> [] \<and> length entries_a \<le> 2 ^ 32
   \<and> list_all (\<lambda>e. in_range (confidence (entry_response e))) entries_a
   \<and> votes (api_consensus [] entries_a) = votes (api_consensus [] entries_b)
   \<and> (\<exists>a b. confidence (api_consensus [] entries_a) = Finite a
         \<and> confidence (api_consensus [] entries_b) = Finite b
         \<and> sum_list (map (\<lambda>e. exact (confidence (entry_response e))) entries_a)
              / of_nat (length entries_a) * (1 - 1 / 2 ^ 53) ^ (length entries_a + 1) \<le> min a b
         \<and> max a b \<le> sum_list (map (\<lambda>e. exact (confidence (entry_response e))) entries_a)
              / of_nat (length entries_a) * (1 + 1 / 2 ^ 53) ^ (length entries_a + 1))"
proof -
  note t = permuted_collection [where xs = order_a and ys = order_b and es = entries_a
      and fs = entries_b and all = "[]" and all' = "[]"]
  have n: "order_a \<noteq> []" "length order_a \<le> 2 ^ 32" "entries_a \<noteq> []"
    "length entries_a \<le> 2 ^ 32"
    by (simp_all add: order_a_def entries_a_def)
  from t orders_perm(1) have 1: "votes (reduce order_a) = votes (reduce order_b)"
    "optionATrue (reduce order_a) = optionATrue (reduce order_b)"
    "mset (providers (reduce order_a)) = mset (providers (reduce order_b))"
    by blast+
  from t orders_perm(1) n(1,2) orders_in_range(1)
  have 2: "\<exists>a b. confidence (reduce order_a) = Finite a \<and> confidence (reduce order_b) = Finite b
         \<and> sum_list (map (\<lambda>r. exact (confidence r)) order_a) / of_nat (length order_a)
              * (1 - 1 / 2 ^ 53) ^ (length order_a + 1) \<le> min a b
         \<and> max a b \<le> sum_list (map (\<lambda>r. exact (confidence r)) order_a) / of_nat (length order_a)
              * (1 + 1 / 2 ^ 53) ^ (length order_a + 1)"
    by blast
  from t orders_perm(2)
  have 3: "votes (api_consensus [] entries_a) = votes (api_consensus [] entries_b)"
    by blast
  from t orders_perm(2) n(3,4) orders_in_range(2)
  have 4: "\<exists>a b. confidence (api_consensus [] entries_a) = Finite a
         \<and> confidence (api_consensus [] entries_b) = Finite b
         \<and> sum_list (map (\<lambda>e. exact (confidence (entry_response e))) entries_a)
              / of_nat (length entries_a) * (1 - 1 / 2 ^ 53) ^ (length entries_a + 1) \<le> min a b
         \<and> max a b \<le> sum_list (map (\<lambda>e. exact (confidence (entry_response e))) entries_a)
              / of_nat (length entries_a) * (1 + 1 / 2 ^ 53) ^ (length entries_a + 1)"
    by blast
  from orders_perm n orders_in_range 1 2 3 4 show ?thesis by (intro conjI)
qed

text \<open>
  The claim as stated, an identical result in every field, fails for three verdicts at
  0.7, 0.8 and 0.9: collecting the last two in the other order changes the providers
  list, the reasoning and the confidence (\<^verbatim>\<open>0.7999999999999999\<close> against
  \<^verbatim>\<open>0.8000000000000002\<close>).
\<close>

theorem order_counterexample:
  "mset order_a = mset order_b
   \<and> confidence (reduce order_a) = Finite (7205759403792793 / 2 ^ 53)
   \<and> confidence (reduce order_b) = Finite (7205759403792795 / 2 ^ 53)
   \<and> providers (reduce order_a) = [''openai'', ''deepseek'', ''gemini'']
   \<and> providers (reduce order_b) = [''openai'', ''gemini'', ''deepseek'']
   \<and> reasoning (reduce order_a) = ''openai: because; deepseek: because; gemini: because''
   \<and> reasoning (reduce order_b) = ''openai: because; gemini: because; deepseek: because''
   \<and> reduce order_a \<noteq> reduce order_b
   \<and> mset entries_a = mset entries_b
   \<and> confidence (api_consensus [] entries_a) = Finite (7205759403792793 / 2 ^ 53)
   \<and> confidence (api_consensus [] entries_b) = Finite (7205759403792795 / 2 ^ 53)
   \<and> providers (api_consensus [] entries_a) = [''openai'', ''deepseek'', ''gemini'']
   \<and> providers (api_consensus [] entries_b) = [''openai'', ''gemini'', ''deepseek'']
   \<and> api_consensus [] entries_a \<noteq> api_consensus [] entries_b"
proof -
  have c: "confidence (reduce order_a) = Finite (7205759403792793 / 2 ^ 53)"
    "confidence (reduce order_b) = Finite (7205759403792795 / 2 ^ 53)"
    "confidence (api_consensus [] entries_a) = Finite (7205759403792793 / 2 ^ 53)"
    "confidence (api_consensus [] entries_b) = Finite (7205759403792795 / 2 ^ 53)"
    by (simp_all add: reduce_confidence api_confidence order_a_def order_b_def entries_a_def
        entries_b_def verdict_def entry_def of_count_def rdn)
  have p: "providers (reduce order_a) = [''openai'', ''deepseek'', ''gemini'']"
    "providers (reduce order_b) = [''openai'', ''gemini'', ''deepseek'']"
    "providers (api_consensus [] entries_a) = [''openai'', ''deepseek'', ''gemini'']"
    "providers (api_consensus [] entries_b) = [''openai'', ''gemini'', ''deepseek'']"
    by (simp_all add: reduce_providers api_providers order_a_def order_b_def entries_a_def
        entries_b_def verdict_def entry_def)
  have r: "reasoning (reduce order_a) = ''openai: because; deepseek: because; gemini: because''"
    "reasoning (reduce order_b) = ''openai: because; gemini: because; deepseek: because''"
    by (simp_all add: reduce_reasoning order_a_def order_b_def verdict_def)
  have "providers (reduce order_a) \<noteq> providers (reduce order_b)"
    "providers (api_consensus [] entries_a) \<noteq> providers (api_consensus [] entries_b)"
    by (simp_all add: p)
  then have d: "reduce order_a \<noteq> reduce order_b"
    "api_consensus [] entries_a \<noteq> api_consensus [] entries_b"
    by metis+
  from orders_perm c p r d show ?thesis by (intro conjI)
qed

section \<open>The reported confidence and the floor\<close>




end
